theory Spec2Isabelle
  imports Main
begin

section \<open>smallsh: the data model\<close>

text \<open>
  The shell of \<^verbatim>\<open>smallsh.c\<close> is one C process that talks to the kernel through
  system calls.  The embedding keeps the four globals of \<^verbatim>\<open>smallsh.h\<close> in a record,
  logs every call the process makes as an \<open>event\<close> (in program order), and takes
  what the kernel answers from an environment record.  The code after \<^verbatim>\<open>fork()\<close>
  runs in two processes; which one a run of \<open>executeCommand\<close> describes is decided,
  as in C, by the value \<^verbatim>\<open>fork()\<close> returned.
\<close>

datatype signal = SIGINT | SIGTSTP | SIGTERM

datatype sighandler = SIG_IGN | SIG_DFL | Handle_SIGTSTP

datatype oflag = O_RDONLY | O_WRONLY | O_CREAT | O_TRUNC

text \<open>A wait status as the macros decode it: \<^verbatim>\<open>WIFEXITED\<close> with \<^verbatim>\<open>WEXITSTATUS\<close>,
  otherwise \<^verbatim>\<open>WTERMSIG\<close>.\<close>

datatype wstatus = WExited int | WSignaled int

text \<open>A child the kernel still holds for this process: running, or terminated and
  not yet waited for.\<close>

datatype child = Running | Zombie wstatus

datatype event =
    Printf string "int list"
  | Fflush
  | Write int string nat
  | Perror string
  | Clearerr
  | Fork int
  | Open string "oflag list" "nat option" int
  | Dup2 int int
  | Close int
  | Sigaction signal sighandler
  | Execvp "string list"
  | Waitpid int bool int
  | Kill int signal
  | Chdir "string option" int

text \<open>
  \<open>Printf fmt xs\<close> is \<^verbatim>\<open>printf(fmt, xs...)\<close>; \<open>Write fd buf n\<close> is \<^verbatim>\<open>write(fd, buf, n)\<close>;
  \<open>Open path flags mode ret\<close>, \<open>Fork ret\<close>, \<open>Chdir path ret\<close> carry the value the
  call returned; \<open>Waitpid pid nohang ret\<close> is \<^verbatim>\<open>waitpid(pid, &status, nohang ? WNOHANG : 0)\<close>;
  \<open>Execvp args\<close> is \<^verbatim>\<open>execvp(args[0], args)\<close>.
\<close>

record world =
  foregroundOnly :: bool
  lastExitStatus :: int
  bgProcesses :: "int list"
  bgCount :: nat
  children :: "int \<Rightarrow> child option"
  trace :: "event list"

text \<open>
  \<open>foregroundOnly\<close> is an \<^verbatim>\<open>int\<close> in C that only ever holds 0 or 1 and is only tested
  for zero; \<open>bgProcesses\<close> is the array \<^verbatim>\<open>pid_t bgProcesses[50]\<close>; \<open>children\<close> is
  the kernel's side (the children of this process that \<^verbatim>\<open>waitpid\<close> can still report);
  \<open>trace\<close> is what the process has done so far.
\<close>

record env =
  fgets_ret :: "string option"
  fork_ret :: int
  open_ret :: "string \<Rightarrow> oflag list \<Rightarrow> int"
  execvp_fails :: bool
  wait_status :: wstatus
  getenv_HOME :: "string option"
  chdir_ret :: "string option \<Rightarrow> int"

text \<open>The kernel's answers during one turn of the main loop: the line \<^verbatim>\<open>fgets\<close>
  delivers (\<open>None\<close> is \<^verbatim>\<open>NULL\<close>), what \<^verbatim>\<open>fork\<close>, \<^verbatim>\<open>open\<close> and \<^verbatim>\<open>chdir\<close> return,
  whether \<^verbatim>\<open>execvp\<close> returns at all, the status the blocking \<^verbatim>\<open>waitpid\<close> stores, and
  \<^verbatim>\<open>getenv("HOME")\<close>.\<close>

datatype fault = OutOfBounds | Uninitialised

datatype outcome = Returned world | Exited int world | Execed world | Faulted fault

text \<open>
  How a piece of code ends for the process running it: it returns to its caller,
  calls \<^verbatim>\<open>exit(n)\<close>, is replaced by another program image, or leaves defined C
  (an index outside an array, a read of a variable never written).
\<close>

record cmd =
  args :: "string list"
  background :: bool
  inputFile :: "string option"
  outputFile :: "string option"

definition MAX_ARGS :: nat where
  "MAX_ARGS = 512"

definition emit :: "event \<Rightarrow> world \<Rightarrow> world" where
  "emit ev w = w\<lparr>trace := trace w @ [ev]\<rparr>"

definition init_world :: world where
  "init_world =
     \<lparr>foregroundOnly = False, lastExitStatus = 0, bgProcesses = replicate 50 0,
      bgCount = 0, children = Map.empty,
      trace = [Sigaction SIGTSTP Handle_SIGTSTP, Sigaction SIGINT SIG_IGN]\<rparr>"

section \<open>The signal handler and the prompt\<close>

definition handle_SIGTSTP :: "world \<Rightarrow> world" where
  "handle_SIGTSTP w =
     (if \<not> foregroundOnly w then
        emit (Write 1 ''\<newline>Entering foreground-only mode (& is now ignored)\<newline>'' 50)
          (w\<lparr>foregroundOnly := True\<rparr>)
      else
        emit (Write 1 ''\<newline>Exiting foreground-only mode\<newline>'' 30)
          (w\<lparr>foregroundOnly := False\<rparr>))"

definition prompt :: "world \<Rightarrow> world" where
  "prompt w = emit Fflush (emit (Printf '': '' []) w)"

section \<open>Reaping background children\<close>

text \<open>
  \<^verbatim>\<open>waitpid(pid, &status, WNOHANG)\<close> for a process id \<^verbatim>\<open>fork\<close> has returned: \<open>-1\<close> when the
  process has no such child, \<open>0\<close> when the child still runs, and the child's id, with
  its status stored, when it has terminated; the kernel then forgets the child.
\<close>

definition waitpid_nohang ::
  "(int \<Rightarrow> child option) \<Rightarrow> int \<Rightarrow> (int \<times> wstatus option) \<times> (int \<Rightarrow> child option)" where
  "waitpid_nohang k pid =
     (case k pid of
        None \<Rightarrow> ((- 1, None), k)
      | Some Running \<Rightarrow> ((0, None), k)
      | Some (Zombie st) \<Rightarrow> ((pid, Some st), k(pid := None)))"

text \<open>The body of the loop of \<^verbatim>\<open>checkBackgroundProcesses\<close>, at index \<open>i\<close>.\<close>

definition reap_body :: "nat \<Rightarrow> world \<Rightarrow> outcome" where
  "reap_body i w =
     (if i < length (bgProcesses w) then
        (case waitpid_nohang (children w) (bgProcesses w ! i) of
           ((pid, status), k) \<Rightarrow>
             (let w1 = emit (Waitpid (bgProcesses w ! i) True pid) (w\<lparr>children := k\<rparr>) in
              if pid > 0 then
                (let w2 = emit (Printf ''background pid %d is done: '' [pid]) w1 in
                 case status of
                   None \<Rightarrow> Faulted Uninitialised
                 | Some (WExited c) \<Rightarrow>
                     Returned (emit Fflush (emit (Printf ''exit value %d\<newline>'' [c]) w2))
                 | Some (WSignaled g) \<Rightarrow>
                     Returned (emit Fflush (emit (Printf ''terminated by signal %d\<newline>'' [g]) w2)))
              else Returned w1))
      else Faulted OutOfBounds)"

function reap_loop :: "nat \<Rightarrow> world \<Rightarrow> outcome" where
  "reap_loop i w =
     (if i < bgCount w then
        (case reap_body i w of
           Returned w' \<Rightarrow> reap_loop (Suc i) w'
         | other \<Rightarrow> other)
      else Returned w)"
  by pat_completeness auto
termination
  by (relation "measure (\<lambda>(i, w). bgCount w - i)")
    (auto simp: reap_body_def emit_def Let_def
      split: if_splits prod.splits option.splits wstatus.splits)

definition checkBackgroundProcesses :: "world \<Rightarrow> outcome" where
  "checkBackgroundProcesses w = reap_loop 0 w"

section \<open>Running an external command\<close>

text \<open>
  \<^verbatim>\<open>executeCommand(args, background, inputFile, outputFile)\<close> gets its four
  arguments as one \<open>cmd\<close> record.  First the two redirections of the child branch.
\<close>

definition redirect_input :: "env \<Rightarrow> cmd \<Rightarrow> world \<Rightarrow> outcome" where
  "redirect_input e c w =
     (case inputFile c of
        None \<Rightarrow> Returned w
      | Some path \<Rightarrow>
          (let inputFD = open_ret e path [O_RDONLY];
               w1 = emit (Open path [O_RDONLY] None inputFD) w in
           if inputFD = - 1 then Exited 1 (emit (Perror ''cannot open input file'') w1)
           else Returned (emit (Close inputFD) (emit (Dup2 inputFD 0) w1))))"

text \<open>The mode \<^verbatim>\<open>0644\<close> is octal: 420.\<close>

definition redirect_output :: "env \<Rightarrow> cmd \<Rightarrow> world \<Rightarrow> outcome" where
  "redirect_output e c w =
     (case outputFile c of
        None \<Rightarrow> Returned w
      | Some path \<Rightarrow>
          (let outputFD = open_ret e path [O_WRONLY, O_CREAT, O_TRUNC];
               w1 = emit (Open path [O_WRONLY, O_CREAT, O_TRUNC] (Some 420) outputFD) w in
           if outputFD = - 1 then Exited 1 (emit (Perror ''cannot open output file'') w1)
           else Returned (emit (Close outputFD) (emit (Dup2 outputFD 1) w1))))"

definition child_signals_and_exec :: "env \<Rightarrow> cmd \<Rightarrow> world \<Rightarrow> outcome" where
  "child_signals_and_exec e c w =
     (let w1 = emit (Sigaction SIGTSTP SIG_IGN) w;
          w2 = (if \<not> background c then emit (Sigaction SIGINT SIG_DFL) w1 else w1);
          w3 = emit (Execvp (args c)) w2 in
      if execvp_fails e then Exited 1 (emit (Perror ''command not found'') w3)
      else Execed w3)"

definition child_branch :: "env \<Rightarrow> cmd \<Rightarrow> world \<Rightarrow> outcome" where
  "child_branch e c w =
     (case redirect_input e c w of
        Returned w1 \<Rightarrow>
          (case redirect_output e c w1 of
             Returned w2 \<Rightarrow> child_signals_and_exec e c w2
           | other \<Rightarrow> other)
      | other \<Rightarrow> other)"

text \<open>
  The parent branch.  The blocking \<^verbatim>\<open>waitpid(spawnPid, &childStatus, 0)\<close> returns
  when that child has terminated, stores its status and makes the kernel forget
  the child.
\<close>

definition parent_branch :: "env \<Rightarrow> int \<Rightarrow> cmd \<Rightarrow> world \<Rightarrow> outcome" where
  "parent_branch e spawnPid c w =
     (if background c \<and> \<not> foregroundOnly w then
        (let w1 = emit Fflush (emit (Printf ''background pid is %d\<newline>'' [spawnPid]) w) in
         if bgCount w1 < length (bgProcesses w1) then
           Returned (w1\<lparr>bgProcesses := (bgProcesses w1)[bgCount w1 := spawnPid],
                        bgCount := bgCount w1 + 1\<rparr>)
         else Faulted OutOfBounds)
      else
        (let w1 = emit (Waitpid spawnPid False spawnPid)
                    (w\<lparr>children := (children w)(spawnPid := None)\<rparr>) in
         case wait_status e of
           WExited x \<Rightarrow> Returned (w1\<lparr>lastExitStatus := x\<rparr>)
         | WSignaled g \<Rightarrow>
             Returned ((emit Fflush (emit (Printf ''terminated by signal %d\<newline>'' [g]) w1))
                         \<lparr>lastExitStatus := g\<rparr>)))"

text \<open>
  After \<^verbatim>\<open>fork()\<close> the process that got 0 is the new child, which has no children
  of its own; the process that got the child's id has one more child.
\<close>

definition executeCommand :: "env \<Rightarrow> cmd \<Rightarrow> world \<Rightarrow> outcome" where
  "executeCommand e c w =
     (let spawnPid = fork_ret e;
          w1 = emit (Fork spawnPid) w in
      if spawnPid = - 1 then Exited 1 (emit (Perror ''fork() failed'') w1)
      else if spawnPid = 0 then child_branch e c (w1\<lparr>children := Map.empty\<rparr>)
      else parent_branch e spawnPid c (w1\<lparr>children := (children w1)(spawnPid \<mapsto> Running)\<rparr>))"

section \<open>Reading a line\<close>

text \<open>
  \<^verbatim>\<open>strtok(..., " \n")\<close> cuts the buffer into its tokens, the maximal runs of
  characters other than blank and newline, and hands them out one per call, then
  \<^verbatim>\<open>NULL\<close> for ever.  \<open>tokens\<close> is the whole sequence; \<open>strtok\<close> is one call, on the
  tokens not handed out yet.
\<close>

definition is_delim :: "char \<Rightarrow> bool" where
  "is_delim c = (c = CHR '' '' \<or> c = CHR ''\<newline>'')"

fun tokens_from :: "string \<Rightarrow> string \<Rightarrow> string list" where
  "tokens_from cur [] = (if cur = [] then [] else [cur])"
| "tokens_from cur (c # cs) =
     (if is_delim c then (if cur = [] then tokens_from [] cs else cur # tokens_from [] cs)
      else tokens_from (cur @ [c]) cs)"

definition tokens :: "string \<Rightarrow> string list" where
  "tokens input = tokens_from [] input"

definition strtok :: "string list \<Rightarrow> string option \<times> string list" where
  "strtok ts = (case ts of [] \<Rightarrow> (None, []) | t # r \<Rightarrow> (Some t, r))"

text \<open>
  The \<^verbatim>\<open>while (token)\<close> loop of \<^verbatim>\<open>main\<close>.  The test for \<^verbatim>\<open>&\<close> calls \<^verbatim>\<open>strtok\<close> once
  more, and only when the token is \<^verbatim>\<open>&\<close>; whatever that call returns is gone for the
  rest of the loop.  \<^verbatim>\<open>args\<close> has room for \<open>MAX_ARGS\<close> pointers.
\<close>

function parse_loop :: "string option \<Rightarrow> string list \<Rightarrow> cmd \<Rightarrow> fault + cmd" where
  "parse_loop None rest c = Inr c"
| "parse_loop (Some token) rest c =
     (if token = ''<'' then
        (case strtok rest of (t1, r1) \<Rightarrow>
           (case strtok r1 of (t2, r2) \<Rightarrow> parse_loop t2 r2 (c\<lparr>inputFile := t1\<rparr>)))
      else if token = ''>'' then
        (case strtok rest of (t1, r1) \<Rightarrow>
           (case strtok r1 of (t2, r2) \<Rightarrow> parse_loop t2 r2 (c\<lparr>outputFile := t1\<rparr>)))
      else if token = ''&'' \<and> fst (strtok rest) = None then
        (case strtok (snd (strtok rest)) of (t2, r2) \<Rightarrow>
           parse_loop t2 r2 (c\<lparr>background := True\<rparr>))
      else
        (let rest1 = (if token = ''&'' then snd (strtok rest) else rest) in
         if length (args c) < MAX_ARGS then
           (case strtok rest1 of (t2, r2) \<Rightarrow> parse_loop t2 r2 (c\<lparr>args := args c @ [token]\<rparr>))
         else Inl OutOfBounds))"
  by pat_completeness auto
termination
  by (relation "measure (\<lambda>(t, rest, c). length rest + (case t of None \<Rightarrow> 0 | Some _ \<Rightarrow> 1))")
    (auto simp: strtok_def split: list.splits option.splits if_splits)

definition empty_cmd :: cmd where
  "empty_cmd = \<lparr>args = [], background = False, inputFile = None, outputFile = None\<rparr>"

text \<open>From \<^verbatim>\<open>strtok(input, " \n")\<close> to \<^verbatim>\<open>args[argCount] = NULL\<close>.\<close>

definition parse_line :: "string \<Rightarrow> fault + cmd" where
  "parse_line input =
     (case strtok (tokens input) of (token, rest) \<Rightarrow>
        (case parse_loop token rest empty_cmd of
           Inl f \<Rightarrow> Inl f
         | Inr c \<Rightarrow> if length (args c) < MAX_ARGS then Inr c else Inl OutOfBounds))"

section \<open>The built-in commands and the main loop\<close>

text \<open>\<^verbatim>\<open>exit\<close>: the loop over the table, then \<^verbatim>\<open>exit(0)\<close>.\<close>

definition kill_body :: "nat \<Rightarrow> world \<Rightarrow> outcome" where
  "kill_body i w =
     (if i < length (bgProcesses w) then Returned (emit (Kill (bgProcesses w ! i) SIGTERM) w)
      else Faulted OutOfBounds)"

function kill_loop :: "nat \<Rightarrow> world \<Rightarrow> outcome" where
  "kill_loop i w =
     (if i < bgCount w then
        (case kill_body i w of
           Returned w' \<Rightarrow> kill_loop (Suc i) w'
         | other \<Rightarrow> other)
      else Returned w)"
  by pat_completeness auto
termination
  by (relation "measure (\<lambda>(i, w). bgCount w - i)")
    (auto simp: kill_body_def emit_def split: if_splits)

definition builtin_exit :: "world \<Rightarrow> outcome" where
  "builtin_exit w =
     (case kill_loop 0 w of
        Returned w' \<Rightarrow> Exited 0 w'
      | other \<Rightarrow> other)"

text \<open>\<^verbatim>\<open>cd\<close>: only the branch with an argument looks at what \<^verbatim>\<open>chdir\<close> returned.\<close>

definition builtin_cd :: "env \<Rightarrow> cmd \<Rightarrow> world \<Rightarrow> outcome" where
  "builtin_cd e c w =
     (if length (args c) > 1 then
        (let r = chdir_ret e (Some (args c ! 1));
             w1 = emit (Chdir (Some (args c ! 1)) r) w in
         if r \<noteq> 0 then Returned (emit (Perror ''cd failed'') w1) else Returned w1)
      else
        Returned (emit (Chdir (getenv_HOME e) (chdir_ret e (getenv_HOME e))) w))"

definition builtin_status :: "world \<Rightarrow> outcome" where
  "builtin_status w =
     Returned (emit Fflush (emit (Printf ''exit value %d\<newline>'' [lastExitStatus w]) w))"

text \<open>The test \<^verbatim>\<open>input[0] == '#' || input[0] == '\n'\<close>; an empty buffer starts with
  its terminating NUL.\<close>

definition comment_or_blank :: "string \<Rightarrow> bool" where
  "comment_or_blank input =
     (case input of [] \<Rightarrow> False | ch # _ \<Rightarrow> ch = CHR ''#'' \<or> ch = CHR ''\<newline>'')"

text \<open>One turn of \<^verbatim>\<open>while (1)\<close> in \<^verbatim>\<open>main\<close>; \<open>Returned\<close> is \<^verbatim>\<open>continue\<close> or the end
  of the loop body.\<close>

definition main_iteration :: "env \<Rightarrow> world \<Rightarrow> outcome" where
  "main_iteration e w =
     (case checkBackgroundProcesses w of
        Returned w1 \<Rightarrow>
          (let w2 = prompt w1 in
           case fgets_ret e of
             None \<Rightarrow> Returned (emit Clearerr w2)
           | Some input \<Rightarrow>
               if comment_or_blank input then Returned w2
               else
                 (case parse_line input of
                    Inl f \<Rightarrow> Faulted f
                  | Inr c \<Rightarrow>
                      if length (args c) = 0 then Returned w2
                      else if args c ! 0 = ''exit'' then builtin_exit w2
                      else if args c ! 0 = ''cd'' then builtin_cd e c w2
                      else if args c ! 0 = ''status'' then builtin_status w2
                      else executeCommand e c w2))
      | other \<Rightarrow> other)"

section \<open>A session\<close>

text \<open>
  What happens to the shell process, in order: a \<^verbatim>\<open>SIGTSTP\<close> is delivered (between
  two turns of the loop), one of its running children terminates, or the loop
  takes one turn.
\<close>

datatype step = Tstp | ChildDies int wstatus | Turn env

definition child_dies :: "int \<Rightarrow> wstatus \<Rightarrow> world \<Rightarrow> world" where
  "child_dies pid st w =
     (case children w pid of
        Some Running \<Rightarrow> w\<lparr>children := (children w)(pid \<mapsto> Zombie st)\<rparr>
      | _ \<Rightarrow> w)"

fun run :: "step list \<Rightarrow> world \<Rightarrow> outcome" where
  "run [] w = Returned w"
| "run (Tstp # ss) w = run ss (handle_SIGTSTP w)"
| "run (ChildDies pid st # ss) w = run ss (child_dies pid st w)"
| "run (Turn e # ss) w =
     (case main_iteration e w of
        Returned w' \<Rightarrow> run ss w'
      | other \<Rightarrow> other)"

section \<open>Notions used in the statements and proofs\<close>

text \<open>What an outcome has added to the trace of the world it started from.\<close>

definition new_events :: "world \<Rightarrow> outcome \<Rightarrow> event list" where
  "new_events w out =
     (case out of
        Returned w' \<Rightarrow> drop (length (trace w)) (trace w')
      | Exited n w' \<Rightarrow> drop (length (trace w)) (trace w')
      | Execed w' \<Rightarrow> drop (length (trace w)) (trace w')
      | Faulted f \<Rightarrow> [])"

text \<open>A kernel that answers nothing of interest, to build concrete turns from.\<close>

definition quiet_env :: env where
  "quiet_env =
     \<lparr>fgets_ret = None, fork_ret = - 1, open_ret = (\<lambda>path flags. - 1), execvp_fails = True,
      wait_status = WExited 0, getenv_HOME = None, chdir_ret = (\<lambda>path. - 1)\<rparr>"

text \<open>The report \<^verbatim>\<open>background pid is %d\<close> that goes with every entry put into the table,
  and how many of them a piece of trace holds.\<close>

definition is_bg_report :: "event \<Rightarrow> bool" where
  "is_bg_report ev =
     (case ev of Printf fmt xs \<Rightarrow> fmt = ''background pid is %d\<newline>'' | _ \<Rightarrow> False)"

definition bg_reports :: "event list \<Rightarrow> nat" where
  "bg_reports evs = length (filter is_bg_report evs)"

text \<open>One step of the shell: the trace only grows, the table keeps its size, and the
  count grows by the number of background reports printed.\<close>

definition grows :: "world \<Rightarrow> world \<Rightarrow> bool" where
  "grows w w' \<longleftrightarrow>
     (\<exists>evs. trace w' = trace w @ evs \<and> bgCount w' = bgCount w + bg_reports evs) \<and>
     length (bgProcesses w') = length (bgProcesses w) \<and>
     (bgCount w' = bgCount w \<longrightarrow> bgProcesses w' = bgProcesses w) \<and>
     (bgCount w \<le> length (bgProcesses w) \<longrightarrow> bgCount w' \<le> length (bgProcesses w'))"

text \<open>A child that has terminated and has not been waited for.\<close>

definition is_zombie :: "child option \<Rightarrow> bool" where
  "is_zombie x = (case x of Some (Zombie st) \<Rightarrow> True | _ \<Rightarrow> False)"

text \<open>The \<^verbatim>\<open>while (token)\<close> loop entered with the token \<^verbatim>\<open>strtok\<close> hands out first, as a
  function of the tokens still to come.\<close>

definition parse_tokens :: "string list \<Rightarrow> cmd \<Rightarrow> fault + cmd" where
  "parse_tokens ts c = (case strtok ts of (token, rest) \<Rightarrow> parse_loop token rest c)"

text \<open>
  \<open>scan_ends pre\<close>: a scan that starts at the first token of \<open>pre\<close> comes to an end
  exactly behind its last token.  A \<^verbatim>\<open><\<close>, \<^verbatim>\<open>>\<close> or \<^verbatim>\<open>&\<close> met by the scan takes the
  token after it along, so none of them may be the last token met.
\<close>

fun scan_ends :: "string list \<Rightarrow> bool" where
  "scan_ends [] = True"
| "scan_ends (t # ts) =
     (if t = ''<'' \<or> t = ''>'' \<or> t = ''&'' then (case ts of [] \<Rightarrow> False | x # r \<Rightarrow> scan_ends r)
      else scan_ends ts)"

text \<open>What a reap cycle may add to the trace: polls that do not block, and what it
  prints.\<close>

definition is_reap_event :: "event \<Rightarrow> bool" where
  "is_reap_event ev =
     (case ev of Waitpid p nohang r \<Rightarrow> nohang | Printf fmt xs \<Rightarrow> True | Fflush \<Rightarrow> True
      | _ \<Rightarrow> False)"

text \<open>The process ids polled by \<^verbatim>\<open>waitpid(pid, &status, WNOHANG)\<close> in a piece of trace, in
  order.\<close>

fun polled :: "event list \<Rightarrow> int list" where
  "polled [] = []"
| "polled (ev # evs) =
     (case ev of Waitpid p nohang r \<Rightarrow> (if nohang then p # polled evs else polled evs)
      | _ \<Rightarrow> polled evs)"

text \<open>
  What the part of a turn behind the prompt does when the turn comes back to the
  loop, from the world \<open>w2\<close> the prompt has left: the trace only grows; the stored
  status is written exactly when a foreground child was waited for; no completion
  of a background child is reported and no tracked handle is polled; the kernel
  holds a child it did not hold only under a process id that \<^verbatim>\<open>fork()\<close> returned; and
  the tracked part of the table is kept.
\<close>

definition dispatch_ok :: "env \<Rightarrow> world \<Rightarrow> world \<Rightarrow> bool" where
  "dispatch_ok e w2 w' \<longleftrightarrow>
     trace w' = trace w2 @ new_events w2 (Returned w') \<and>
     lastExitStatus w' =
       (if \<exists>p r. Waitpid p False r \<in> set (new_events w2 (Returned w'))
        then (case wait_status e of WExited x \<Rightarrow> x | WSignaled g \<Rightarrow> g)
        else lastExitStatus w2) \<and>
     (\<forall>pid. Printf ''background pid %d is done: '' [pid] \<notin> set (new_events w2 (Returned w'))) \<and>
     (\<forall>pid. (if children w' pid = None then 0 else 1) \<le>
        (if children w2 pid = None then 0 else (1::nat)) +
        count_list (new_events w2 (Returned w')) (Fork pid)) \<and>
     polled (new_events w2 (Returned w')) = [] \<and>
     bgCount w2 \<le> bgCount w' \<and>
     take (bgCount w2) (bgProcesses w') = take (bgCount w2) (bgProcesses w2)"

text \<open>The trace an outcome has added starts with \<open>pre\<close>, and no completion of a
  background child is reported behind \<open>pre\<close>.\<close>

definition no_done_after :: "world \<Rightarrow> event list \<Rightarrow> outcome \<Rightarrow> bool" where
  "no_done_after w pre out \<longleftrightarrow>
     (case out of
        Faulted f \<Rightarrow> True
      | _ \<Rightarrow> \<exists>rest. new_events w out = pre @ rest \<and>
          (\<forall>pid. Printf ''background pid %d is done: '' [pid] \<notin> set rest))"

section \<open>Basic facts\<close>

declare reap_loop.simps [simp del] kill_loop.simps [simp del] parse_loop.simps [simp del]

lemma bgCount_emit [simp]: "bgCount (emit ev w) = bgCount w"
  by (simp add: emit_def)

lemma emit_fields [simp]:
  "foregroundOnly (emit ev w) = foregroundOnly w"
  "lastExitStatus (emit ev w) = lastExitStatus w"
  "bgProcesses (emit ev w) = bgProcesses w"
  "children (emit ev w) = children w"
  "trace (emit ev w) = trace w @ [ev]"
  by (simp_all add: emit_def)

lemma outcome_Returned:
  "(case out of Returned w \<Rightarrow> True | _ \<Rightarrow> False) \<Longrightarrow> \<exists>w. out = Returned w"
  by (cases out) auto

text \<open>What \<open>executeCommand\<close> does in the process that created the child.\<close>

lemma executeCommand_fork_failed:
  "fork_ret e = - 1 \<Longrightarrow>
   executeCommand e c w = Exited 1 (w\<lparr>trace := trace w @ [Fork (- 1), Perror ''fork() failed'']\<rparr>)"
  by (simp add: executeCommand_def emit_def)

lemma executeCommand_foreground:
  assumes "0 < fork_ret e" and "\<not> (background c \<and> \<not> foregroundOnly w)"
  shows "executeCommand e c w =
    Returned (w\<lparr>lastExitStatus := (case wait_status e of WExited x \<Rightarrow> x | WSignaled g \<Rightarrow> g),
                children := (children w)(fork_ret e := None),
                trace := trace w @ [Fork (fork_ret e), Waitpid (fork_ret e) False (fork_ret e)] @
                  (case wait_status e of WExited x \<Rightarrow> []
                   | WSignaled g \<Rightarrow> [Printf ''terminated by signal %d\<newline>'' [g], Fflush])\<rparr>)"
  using assms
  by (cases "wait_status e") (auto simp: executeCommand_def parent_branch_def emit_def Let_def)

lemma executeCommand_background:
  assumes "0 < fork_ret e" and "background c" and "\<not> foregroundOnly w"
  shows "executeCommand e c w =
    (if bgCount w < length (bgProcesses w) then
       Returned (w\<lparr>bgProcesses := (bgProcesses w)[bgCount w := fork_ret e],
                   bgCount := bgCount w + 1,
                   children := (children w)(fork_ret e \<mapsto> Running),
                   trace := trace w @ [Fork (fork_ret e),
                     Printf ''background pid is %d\<newline>'' [fork_ret e], Fflush]\<rparr>)
     else Faulted OutOfBounds)"
  using assms
  by (auto simp: executeCommand_def parent_branch_def emit_def Let_def)

section \<open>The last foreground status and the \<open>status\<close> built-in\<close>

text \<open>
  Claim C4, against the code: a foreground child that exits with code 2 and one
  that is killed by signal 2 leave the same number in \<open>lastExitStatus\<close>, and the
  \<open>status\<close> built-in then prints the same line, \<^verbatim>\<open>exit value 2\<close>, for both.  The
  stored value carries no tag.
\<close>

theorem C4_status_cannot_tell_exit_from_signal:
  "(case (executeCommand (quiet_env\<lparr>fork_ret := 7, wait_status := WSignaled 2\<rparr>)
            (empty_cmd\<lparr>args := [''sleep'', ''9'']\<rparr>) init_world,
          executeCommand (quiet_env\<lparr>fork_ret := 7, wait_status := WExited 2\<rparr>)
            (empty_cmd\<lparr>args := [''sleep'', ''9'']\<rparr>) init_world) of
      (Returned wS, Returned wE) \<Rightarrow>
         lastExitStatus wS = lastExitStatus wE \<and>
         new_events wS (builtin_status wS) = new_events wE (builtin_status wE) \<and>
         new_events wS (builtin_status wS) = [Printf ''exit value %d\<newline>'' [2], Fflush]
    | _ \<Rightarrow> False)"
  by (simp add: executeCommand_def parent_branch_def quiet_env_def empty_cmd_def init_world_def
      emit_def Let_def new_events_def builtin_status_def)

text \<open>What \<open>executeCommand\<close> does in the new child.\<close>

lemma child_never_returns:
  "fork_ret e = 0 \<Longrightarrow> executeCommand e c w \<noteq> Returned w' \<and> executeCommand e c w \<noteq> Faulted f"
  by (auto simp: executeCommand_def child_branch_def redirect_input_def redirect_output_def
      child_signals_and_exec_def Let_def split: option.splits)

lemma child_exec_failed:
  assumes "fork_ret e = 0" and "execvp_fails e"
  shows "\<exists>w'. executeCommand e c w = Exited 1 w'"
  using assms
  by (auto simp: executeCommand_def child_branch_def redirect_input_def redirect_output_def
      child_signals_and_exec_def Let_def split: option.splits)

lemma child_reaches_exec:
  assumes "fork_ret e = 0"
    and "\<forall>p. inputFile c = Some p \<longrightarrow> open_ret e p [O_RDONLY] \<noteq> - 1"
    and "\<forall>p. outputFile c = Some p \<longrightarrow> open_ret e p [O_WRONLY, O_CREAT, O_TRUNC] \<noteq> - 1"
  shows "\<exists>pre. new_events w (executeCommand e c w) =
           pre @ [Sigaction SIGTSTP SIG_IGN] @
           (if background c then [] else [Sigaction SIGINT SIG_DFL]) @ [Execvp (args c)] @
           (if execvp_fails e then [Perror ''command not found''] else []) \<and>
           (\<forall>s h. Sigaction s h \<notin> set pre)"
  using assms
  by (auto simp: executeCommand_def child_branch_def redirect_input_def redirect_output_def
      child_signals_and_exec_def Let_def new_events_def split: option.splits)

section \<open>Failure to create a process, failure to start the program\<close>

text \<open>
  Claim C7: when \<^verbatim>\<open>fork()\<close> returns \<open>-1\<close> the shell reports \<^verbatim>\<open>fork() failed\<close> and ends
  itself with \<^verbatim>\<open>exit(1)\<close>.  When instead \<^verbatim>\<open>execvp\<close> returns in the child (the program
  cannot be started), the child ends with \<^verbatim>\<open>exit(1)\<close>, after \<^verbatim>\<open>command not found\<close> if it
  got as far as \<^verbatim>\<open>execvp\<close>; the shell, the process in which \<^verbatim>\<open>fork()\<close> returned the
  child's id, returns from \<open>executeCommand\<close> to its loop (given room in the table).
\<close>

theorem C7_fork_failure_ends_shell_exec_failure_ends_child:
  "(fork_ret e = - 1 \<longrightarrow>
      executeCommand e c w =
        Exited 1 (w\<lparr>trace := trace w @ [Fork (- 1), Perror ''fork() failed'']\<rparr>)) \<and>
   (fork_ret e = 0 \<and> execvp_fails e \<longrightarrow>
      (\<exists>w'. executeCommand e c w = Exited 1 w' \<and>
         ((\<forall>p. inputFile c = Some p \<longrightarrow> open_ret e p [O_RDONLY] \<noteq> - 1) \<and>
          (\<forall>p. outputFile c = Some p \<longrightarrow> open_ret e p [O_WRONLY, O_CREAT, O_TRUNC] \<noteq> - 1) \<longrightarrow>
          (\<exists>pre. new_events w (Exited 1 w') =
             pre @ [Execvp (args c), Perror ''command not found''])))) \<and>
   (0 < fork_ret e \<and> bgCount w < length (bgProcesses w) \<longrightarrow>
      (\<exists>w'. executeCommand e c w = Returned w'))"
proof (intro conjI impI)
  assume "fork_ret e = - 1"
  then show "executeCommand e c w =
      Exited 1 (w\<lparr>trace := trace w @ [Fork (- 1), Perror ''fork() failed'']\<rparr>)"
    by (rule executeCommand_fork_failed)
next
  assume a: "fork_ret e = 0 \<and> execvp_fails e"
  then obtain w' where w': "executeCommand e c w = Exited 1 w'"
    using child_exec_failed by blast
  have "\<exists>pre. new_events w (Exited 1 w') = pre @ [Execvp (args c), Perror ''command not found'']"
    if "(\<forall>p. inputFile c = Some p \<longrightarrow> open_ret e p [O_RDONLY] \<noteq> - 1) \<and>
        (\<forall>p. outputFile c = Some p \<longrightarrow> open_ret e p [O_WRONLY, O_CREAT, O_TRUNC] \<noteq> - 1)"
  proof -
    from child_reaches_exec [of e c w] a that w'
    obtain pre where "new_events w (Exited 1 w') =
        pre @ [Sigaction SIGTSTP SIG_IGN] @
        (if background c then [] else [Sigaction SIGINT SIG_DFL]) @ [Execvp (args c)] @
        [Perror ''command not found'']"
      by auto
    then have "new_events w (Exited 1 w') =
        (pre @ [Sigaction SIGTSTP SIG_IGN] @
        (if background c then [] else [Sigaction SIGINT SIG_DFL])) @
        [Execvp (args c), Perror ''command not found'']"
      by simp
    then show ?thesis by blast
  qed
  with w' show "\<exists>w'. executeCommand e c w = Exited 1 w' \<and>
         ((\<forall>p. inputFile c = Some p \<longrightarrow> open_ret e p [O_RDONLY] \<noteq> - 1) \<and>
          (\<forall>p. outputFile c = Some p \<longrightarrow> open_ret e p [O_WRONLY, O_CREAT, O_TRUNC] \<noteq> - 1) \<longrightarrow>
          (\<exists>pre. new_events w (Exited 1 w') =
             pre @ [Execvp (args c), Perror ''command not found'']))"
    by blast
next
  assume a: "0 < fork_ret e \<and> bgCount w < length (bgProcesses w)"
  show "\<exists>w'. executeCommand e c w = Returned w'"
  proof (cases "background c \<and> \<not> foregroundOnly w")
    case True
    with a show ?thesis by (simp add: executeCommand_background)
  next
    case False
    with a show ?thesis by (simp add: executeCommand_foreground)
  qed
qed

theorem C7_fork_failure_ends_shell_exec_failure_ends_child_witness:
  "executeCommand (quiet_env\<lparr>fork_ret := - 1\<rparr>) (empty_cmd\<lparr>args := [''nosuchprog'']\<rparr>) init_world =
     Exited 1 (init_world\<lparr>trace := trace init_world @ [Fork (- 1), Perror ''fork() failed'']\<rparr>) \<and>
   (\<exists>w'. executeCommand (quiet_env\<lparr>fork_ret := 0\<rparr>) (empty_cmd\<lparr>args := [''nosuchprog'']\<rparr>) init_world
          = Exited 1 w' \<and>
      (\<exists>pre. new_events init_world (Exited 1 w') =
         pre @ [Execvp [''nosuchprog''], Perror ''command not found''])) \<and>
   (\<exists>w'. executeCommand (quiet_env\<lparr>fork_ret := 7, wait_status := WExited 1\<rparr>)
            (empty_cmd\<lparr>args := [''nosuchprog'']\<rparr>) init_world = Returned w')"
  using
    C7_fork_failure_ends_shell_exec_failure_ends_child
      [of "quiet_env\<lparr>fork_ret := - 1\<rparr>" "empty_cmd\<lparr>args := [''nosuchprog'']\<rparr>" init_world]
    C7_fork_failure_ends_shell_exec_failure_ends_child
      [of "quiet_env\<lparr>fork_ret := 0\<rparr>" "empty_cmd\<lparr>args := [''nosuchprog'']\<rparr>" init_world]
    C7_fork_failure_ends_shell_exec_failure_ends_child
      [of "quiet_env\<lparr>fork_ret := 7, wait_status := WExited 1\<rparr>"
          "empty_cmd\<lparr>args := [''nosuchprog'']\<rparr>" init_world]
  by (simp add: quiet_env_def empty_cmd_def init_world_def)

section \<open>Signal dispositions of the child\<close>

text \<open>
  Claim C1, against the code.  The shell is in foreground-only mode and reads
  \<^verbatim>\<open>sleep 100 &\<close>.  The parent tests \<^verbatim>\<open>background && !foregroundOnly\<close> and blocks in
  \<^verbatim>\<open>waitpid\<close>: the command runs in the foreground.  The child tests only
  \<^verbatim>\<open>!background\<close>, so it never calls \<^verbatim>\<open>sigaction(SIGINT, SIG_DFL)\<close> and keeps the
  ignored \<^verbatim>\<open>SIGINT\<close> it inherited.  The first conjunct is the child, the second the
  parent, the third the child of the same command without \<^verbatim>\<open>&\<close>.
\<close>

theorem C1_forced_foreground_child_keeps_SIGINT_ignored:
  "new_events init_world
     (run [Tstp, Turn (quiet_env\<lparr>fgets_ret := Some ''sleep 100 &\<newline>'', fork_ret := 0,
                                  execvp_fails := False\<rparr>)] init_world) =
     [Write 1 ''\<newline>Entering foreground-only mode (& is now ignored)\<newline>'' 50,
      Printf '': '' [], Fflush, Fork 0, Sigaction SIGTSTP SIG_IGN, Execvp [''sleep'', ''100'']] \<and>
   new_events init_world
     (run [Tstp, Turn (quiet_env\<lparr>fgets_ret := Some ''sleep 100 &\<newline>'', fork_ret := 7,
                                  wait_status := WSignaled 15\<rparr>)] init_world) =
     [Write 1 ''\<newline>Entering foreground-only mode (& is now ignored)\<newline>'' 50,
      Printf '': '' [], Fflush, Fork 7, Waitpid 7 False 7,
      Printf ''terminated by signal %d\<newline>'' [15], Fflush] \<and>
   new_events init_world
     (run [Tstp, Turn (quiet_env\<lparr>fgets_ret := Some ''sleep 100\<newline>'', fork_ret := 0,
                                  execvp_fails := False\<rparr>)] init_world) =
     [Write 1 ''\<newline>Entering foreground-only mode (& is now ignored)\<newline>'' 50,
      Printf '': '' [], Fflush, Fork 0, Sigaction SIGTSTP SIG_IGN, Sigaction SIGINT SIG_DFL,
      Execvp [''sleep'', ''100'']]"
  by code_simp

section \<open>Redirection\<close>

lemmas child_defs = executeCommand_def child_branch_def redirect_input_def redirect_output_def
  child_signals_and_exec_def Let_def new_events_def

lemma child_input_part:
  assumes "fork_ret e = 0" and "inputFile c = Some p"
  shows "if open_ret e p [O_RDONLY] = - 1
     then executeCommand e c w =
            Exited 1 (w\<lparr>children := Map.empty,
              trace := trace w @ [Fork 0, Open p [O_RDONLY] None (- 1), Perror ''cannot open input file'']\<rparr>)
     else take 4 (new_events w (executeCommand e c w)) =
            [Fork 0, Open p [O_RDONLY] None (open_ret e p [O_RDONLY]),
             Dup2 (open_ret e p [O_RDONLY]) 0, Close (open_ret e p [O_RDONLY])]"
  using assms by (auto simp: child_defs emit_def split: option.splits)

lemma three_inside:
  "R = pre @ a # b # d # suf \<Longrightarrow> \<exists>pre suf. R = pre @ a # b # d # suf"
  by blast

lemma child_output_part:
  assumes "fork_ret e = 0" and "outputFile c = Some q"
    and "\<forall>p. inputFile c = Some p \<longrightarrow> open_ret e p [O_RDONLY] \<noteq> - 1"
  shows "if open_ret e q [O_WRONLY, O_CREAT, O_TRUNC] = - 1
     then \<exists>pre w'. executeCommand e c w = Exited 1 w' \<and>
            new_events w (Exited 1 w') =
              pre @ [Open q [O_WRONLY, O_CREAT, O_TRUNC] (Some 420) (- 1),
                     Perror ''cannot open output file'']
     else \<exists>pre suf. new_events w (executeCommand e c w) =
              pre @ [Open q [O_WRONLY, O_CREAT, O_TRUNC] (Some 420)
                       (open_ret e q [O_WRONLY, O_CREAT, O_TRUNC]),
                     Dup2 (open_ret e q [O_WRONLY, O_CREAT, O_TRUNC]) 1,
                     Close (open_ret e q [O_WRONLY, O_CREAT, O_TRUNC])] @ suf"
proof (cases "inputFile c")
  case None
  show ?thesis
  proof (cases "open_ret e q [O_WRONLY, O_CREAT, O_TRUNC] = - 1")
    case True
    with None assms show ?thesis
      by (auto simp: child_defs intro!: exI [of _ "[Fork 0]"])
  next
    case False
    with None assms show ?thesis
      by (auto simp: child_defs intro!: three_inside [where pre = "[Fork 0]"])
  qed
next
  case (Some p)
  show ?thesis
  proof (cases "open_ret e q [O_WRONLY, O_CREAT, O_TRUNC] = - 1")
    case True
    with Some assms show ?thesis
      by (auto simp: child_defs intro!: exI [of _ "[Fork 0, Open p [O_RDONLY] None (open_ret e p [O_RDONLY]),
             Dup2 (open_ret e p [O_RDONLY]) 0, Close (open_ret e p [O_RDONLY])]"])
  next
    case False
    with Some assms show ?thesis
      by (auto simp: child_defs intro!: three_inside [where pre = "[Fork 0, Open p [O_RDONLY] None (open_ret e p [O_RDONLY]),
             Dup2 (open_ret e p [O_RDONLY]) 0, Close (open_ret e p [O_RDONLY])]"])
  qed
qed

lemma child_absent_paths:
  assumes "fork_ret e = 0"
  shows "(inputFile c = None \<longrightarrow>
            (\<forall>p m r. Open p [O_RDONLY] m r \<notin> set (new_events w (executeCommand e c w))) \<and>
            (\<forall>fd. Dup2 fd 0 \<notin> set (new_events w (executeCommand e c w)))) \<and>
         (outputFile c = None \<longrightarrow>
            (\<forall>p m r. Open p [O_WRONLY, O_CREAT, O_TRUNC] m r \<notin> set (new_events w (executeCommand e c w))) \<and>
            (\<forall>fd. Dup2 fd 1 \<notin> set (new_events w (executeCommand e c w)))) \<and>
         (inputFile c = None \<and> outputFile c = None \<longrightarrow>
            (\<forall>fd. Close fd \<notin> set (new_events w (executeCommand e c w))))"
  using assms by (auto simp: child_defs split: option.splits)

lemma parent_opens_nothing:
  assumes "0 < fork_ret e"
  shows "\<forall>ev \<in> set (new_events w (executeCommand e c w)).
           (case ev of Open p fl m r \<Rightarrow> False | Dup2 a b \<Rightarrow> False | Close a \<Rightarrow> False | _ \<Rightarrow> True)"
  using assms
  by (auto simp: executeCommand_def parent_branch_def Let_def new_events_def emit_def split: wstatus.splits)

text \<open>
  Claim C6.  In the child (\<^verbatim>\<open>fork()\<close> returned 0): an input path is opened with
  \<^verbatim>\<open>O_RDONLY\<close> before anything else; when that fails the child reports
  \<^verbatim>\<open>cannot open input file\<close> and ends with \<^verbatim>\<open>exit(1)\<close>, otherwise the descriptor is
  duplicated onto descriptor 0 and closed at once.  An output path is opened, once
  the input is settled, with \<^verbatim>\<open>O_WRONLY | O_CREAT | O_TRUNC\<close> and mode \<^verbatim>\<open>0644\<close> (420);
  on failure the child reports and ends with \<^verbatim>\<open>exit(1)\<close>, otherwise the descriptor is
  duplicated onto descriptor 1 and closed at once.  A path that is absent causes
  no call.  The shell itself (where \<^verbatim>\<open>fork()\<close> returned the child's id) opens,
  duplicates and closes nothing and returns to its loop.
\<close>

theorem C6_redirection_in_child:
  "(fork_ret e = 0 \<longrightarrow>
      (\<forall>p. inputFile c = Some p \<longrightarrow>
         (if open_ret e p [O_RDONLY] = - 1
          then executeCommand e c w =
                 Exited 1 (w\<lparr>children := Map.empty,
                   trace := trace w @
                     [Fork 0, Open p [O_RDONLY] None (- 1), Perror ''cannot open input file'']\<rparr>)
          else take 4 (new_events w (executeCommand e c w)) =
                 [Fork 0, Open p [O_RDONLY] None (open_ret e p [O_RDONLY]),
                  Dup2 (open_ret e p [O_RDONLY]) 0, Close (open_ret e p [O_RDONLY])])) \<and>
      (\<forall>q. outputFile c = Some q \<and>
            (\<forall>p. inputFile c = Some p \<longrightarrow> open_ret e p [O_RDONLY] \<noteq> - 1) \<longrightarrow>
         (if open_ret e q [O_WRONLY, O_CREAT, O_TRUNC] = - 1
          then \<exists>pre w'. executeCommand e c w = Exited 1 w' \<and>
                 new_events w (Exited 1 w') =
                   pre @ [Open q [O_WRONLY, O_CREAT, O_TRUNC] (Some 420) (- 1),
                          Perror ''cannot open output file'']
          else \<exists>pre suf. new_events w (executeCommand e c w) =
                 pre @ [Open q [O_WRONLY, O_CREAT, O_TRUNC] (Some 420)
                          (open_ret e q [O_WRONLY, O_CREAT, O_TRUNC]),
                        Dup2 (open_ret e q [O_WRONLY, O_CREAT, O_TRUNC]) 1,
                        Close (open_ret e q [O_WRONLY, O_CREAT, O_TRUNC])] @ suf)) \<and>
      (inputFile c = None \<longrightarrow>
         (\<forall>p m r. Open p [O_RDONLY] m r \<notin> set (new_events w (executeCommand e c w))) \<and>
         (\<forall>fd. Dup2 fd 0 \<notin> set (new_events w (executeCommand e c w)))) \<and>
      (outputFile c = None \<longrightarrow>
         (\<forall>p m r. Open p [O_WRONLY, O_CREAT, O_TRUNC] m r
                    \<notin> set (new_events w (executeCommand e c w))) \<and>
         (\<forall>fd. Dup2 fd 1 \<notin> set (new_events w (executeCommand e c w)))) \<and>
      (inputFile c = None \<and> outputFile c = None \<longrightarrow>
         (\<forall>fd. Close fd \<notin> set (new_events w (executeCommand e c w))))) \<and>
   (0 < fork_ret e \<and> bgCount w < length (bgProcesses w) \<longrightarrow>
      (\<exists>w'. executeCommand e c w = Returned w') \<and>
      (\<forall>ev \<in> set (new_events w (executeCommand e c w)).
         case ev of Open p fl m r \<Rightarrow> False | Dup2 a b \<Rightarrow> False | Close a \<Rightarrow> False
         | _ \<Rightarrow> True))"
proof (intro conjI impI allI)
  fix p assume "fork_ret e = 0" "inputFile c = Some p"
  then show "if open_ret e p [O_RDONLY] = - 1
          then executeCommand e c w =
                 Exited 1 (w\<lparr>children := Map.empty,
                   trace := trace w @
                     [Fork 0, Open p [O_RDONLY] None (- 1), Perror ''cannot open input file'']\<rparr>)
          else take 4 (new_events w (executeCommand e c w)) =
                 [Fork 0, Open p [O_RDONLY] None (open_ret e p [O_RDONLY]),
                  Dup2 (open_ret e p [O_RDONLY]) 0, Close (open_ret e p [O_RDONLY])]"
    by (rule child_input_part)
next
  fix q assume "fork_ret e = 0"
    and "outputFile c = Some q \<and> (\<forall>p. inputFile c = Some p \<longrightarrow> open_ret e p [O_RDONLY] \<noteq> - 1)"
  then show "if open_ret e q [O_WRONLY, O_CREAT, O_TRUNC] = - 1
          then \<exists>pre w'. executeCommand e c w = Exited 1 w' \<and>
                 new_events w (Exited 1 w') =
                   pre @ [Open q [O_WRONLY, O_CREAT, O_TRUNC] (Some 420) (- 1),
                          Perror ''cannot open output file'']
          else \<exists>pre suf. new_events w (executeCommand e c w) =
                 pre @ [Open q [O_WRONLY, O_CREAT, O_TRUNC] (Some 420)
                          (open_ret e q [O_WRONLY, O_CREAT, O_TRUNC]),
                        Dup2 (open_ret e q [O_WRONLY, O_CREAT, O_TRUNC]) 1,
                        Close (open_ret e q [O_WRONLY, O_CREAT, O_TRUNC])] @ suf"
    using child_output_part [of e c q w] by blast
next
  assume a: "0 < fork_ret e \<and> bgCount w < length (bgProcesses w)"
  show "\<exists>w'. executeCommand e c w = Returned w'"
  proof (cases "background c \<and> \<not> foregroundOnly w")
    case True
    with a show ?thesis by (simp add: executeCommand_background)
  next
    case False
    with a show ?thesis by (simp add: executeCommand_foreground)
  qed
next
  assume "0 < fork_ret e \<and> bgCount w < length (bgProcesses w)"
  then show "\<forall>ev \<in> set (new_events w (executeCommand e c w)).
         case ev of Open p fl m r \<Rightarrow> False | Dup2 a b \<Rightarrow> False | Close a \<Rightarrow> False
         | _ \<Rightarrow> True"
    using parent_opens_nothing [of e w c] by blast
qed (use child_absent_paths [of e c w] in blast)+

theorem C6_redirection_in_child_witness:
  "take 4 (new_events init_world
      (executeCommand (quiet_env\<lparr>fork_ret := 0, open_ret := (\<lambda>p fl. if p = ''in.txt'' then 3 else - 1)\<rparr>)
         (empty_cmd\<lparr>args := [''cat''], inputFile := Some ''in.txt'', outputFile := Some ''/no/out''\<rparr>)
         init_world)) =
     [Fork 0, Open ''in.txt'' [O_RDONLY] None 3, Dup2 3 0, Close 3] \<and>
   (\<exists>pre w'. executeCommand (quiet_env\<lparr>fork_ret := 0, open_ret := (\<lambda>p fl. if p = ''in.txt'' then 3 else - 1)\<rparr>)
         (empty_cmd\<lparr>args := [''cat''], inputFile := Some ''in.txt'', outputFile := Some ''/no/out''\<rparr>)
         init_world = Exited 1 w' \<and>
      new_events init_world (Exited 1 w') =
        pre @ [Open ''/no/out'' [O_WRONLY, O_CREAT, O_TRUNC] (Some 420) (- 1),
               Perror ''cannot open output file'']) \<and>
   (\<forall>fd. Close fd \<notin> set (new_events init_world
      (executeCommand (quiet_env\<lparr>fork_ret := 0\<rparr>) (empty_cmd\<lparr>args := [''ls'']\<rparr>) init_world))) \<and>
   (\<exists>pre suf. new_events init_world
      (executeCommand (quiet_env\<lparr>fork_ret := 0, open_ret := (\<lambda>p fl. 3)\<rparr>)
         (empty_cmd\<lparr>args := [''ls''], outputFile := Some ''out.txt''\<rparr>) init_world) =
      pre @ [Open ''out.txt'' [O_WRONLY, O_CREAT, O_TRUNC] (Some 420) 3, Dup2 3 1, Close 3] @ suf) \<and>
   (\<exists>w'. executeCommand (quiet_env\<lparr>fork_ret := 7\<rparr>)
         (empty_cmd\<lparr>args := [''cat''], inputFile := Some ''/no/in''\<rparr>) init_world = Returned w')"
  using
    C6_redirection_in_child
      [of "quiet_env\<lparr>fork_ret := 0, open_ret := (\<lambda>p fl. if p = ''in.txt'' then 3 else - 1)\<rparr>"
          "empty_cmd\<lparr>args := [''cat''], inputFile := Some ''in.txt'', outputFile := Some ''/no/out''\<rparr>"
          init_world]
    C6_redirection_in_child
      [of "quiet_env\<lparr>fork_ret := 0\<rparr>" "empty_cmd\<lparr>args := [''ls'']\<rparr>" init_world]
    C6_redirection_in_child
      [of "quiet_env\<lparr>fork_ret := 0, open_ret := (\<lambda>p fl. 3)\<rparr>"
          "empty_cmd\<lparr>args := [''ls''], outputFile := Some ''out.txt''\<rparr>" init_world]
    C6_redirection_in_child
      [of "quiet_env\<lparr>fork_ret := 7\<rparr>"
          "empty_cmd\<lparr>args := [''cat''], inputFile := Some ''/no/in''\<rparr>" init_world]
  by (simp add: quiet_env_def empty_cmd_def init_world_def)

section \<open>What a turn of the loop leaves alone\<close>

lemma bg_reports_simps [simp]:
  "bg_reports [] = 0"
  "bg_reports (evs @ evs') = bg_reports evs + bg_reports evs'"
  "bg_reports (ev # evs) = (if is_bg_report ev then 1 else 0) + bg_reports evs"
  by (simp_all add: bg_reports_def)

lemma grows_refl [simp]: "grows w w"
  by (simp add: grows_def)

lemma grows_trans:
  assumes "grows w w1" and "grows w1 w2"
  shows "grows w w2"
proof -
  from assms(1) obtain evs where 1: "trace w1 = trace w @ evs" "bgCount w1 = bgCount w + bg_reports evs"
    "length (bgProcesses w1) = length (bgProcesses w)"
    "bgCount w1 = bgCount w \<longrightarrow> bgProcesses w1 = bgProcesses w"
    "bgCount w \<le> length (bgProcesses w) \<longrightarrow> bgCount w1 \<le> length (bgProcesses w1)"
    unfolding grows_def by blast
  from assms(2) obtain evs' where 2: "trace w2 = trace w1 @ evs'" "bgCount w2 = bgCount w1 + bg_reports evs'"
    "length (bgProcesses w2) = length (bgProcesses w1)"
    "bgCount w2 = bgCount w1 \<longrightarrow> bgProcesses w2 = bgProcesses w1"
    "bgCount w1 \<le> length (bgProcesses w1) \<longrightarrow> bgCount w2 \<le> length (bgProcesses w2)"
    unfolding grows_def by blast
  have "trace w2 = trace w @ (evs @ evs') \<and> bgCount w2 = bgCount w + bg_reports (evs @ evs')"
    using 1(1,2) 2(1,2) by simp
  then have a: "\<exists>evs. trace w2 = trace w @ evs \<and> bgCount w2 = bgCount w + bg_reports evs"
    by blast
  have b: "bgCount w2 = bgCount w \<longrightarrow> bgProcesses w2 = bgProcesses w"
    using 1(2,4) 2(2,4) by simp
  show ?thesis
    unfolding grows_def using a b 1(3,5) 2(3,5) by simp
qed

lemma grows_emit: "\<not> is_bg_report ev \<Longrightarrow> grows w (emit ev w)"
  by (simp add: grows_def emit_def)

lemma grows_children [simp]: "grows w (w\<lparr>children := k\<rparr>)"
  by (simp add: grows_def)

lemma grows_flag [simp]: "grows w (w\<lparr>foregroundOnly := b\<rparr>)"
  by (simp add: grows_def)

lemma grows_status [simp]: "grows w (w\<lparr>lastExitStatus := b\<rparr>)"
  by (simp add: grows_def)

lemma reap_body_grows:
  "reap_body i w = Returned w' \<Longrightarrow>
     grows w w' \<and> bgCount w' = bgCount w \<and> foregroundOnly w' = foregroundOnly w \<and>
     lastExitStatus w' = lastExitStatus w"
  by (auto simp: reap_body_def Let_def grows_def emit_def is_bg_report_def
      split: if_splits prod.splits option.splits wstatus.splits)

lemma reap_loop_grows:
  "reap_loop i w = Returned w' \<Longrightarrow>
     grows w w' \<and> bgCount w' = bgCount w \<and> foregroundOnly w' = foregroundOnly w \<and>
     lastExitStatus w' = lastExitStatus w"
proof (induction i w rule: reap_loop.induct)
  case (1 i w)
  show ?case
  proof (cases "i < bgCount w")
    case False
    with "1.prems" show ?thesis by (simp add: reap_loop.simps [of i w])
  next
    case True
    with "1.prems" obtain w1 where b: "reap_body i w = Returned w1"
      and l: "reap_loop (Suc i) w1 = Returned w'"
      by (auto simp: reap_loop.simps [of i w] split: outcome.splits)
    from "1.IH" [OF True b l] reap_body_grows [OF b] show ?thesis
      by (auto intro: grows_trans)
  qed
qed

lemma reap_body_total:
  "i < length (bgProcesses w) \<Longrightarrow> \<exists>w'. reap_body i w = Returned w'"
  by (auto simp: reap_body_def waitpid_nohang_def Let_def split: option.splits child.splits wstatus.splits)

lemma reap_loop_total:
  "bgCount w \<le> length (bgProcesses w) \<Longrightarrow> \<exists>w'. reap_loop i w = Returned w'"
proof (induction i w rule: reap_loop.induct)
  case (1 i w)
  show ?case
  proof (cases "i < bgCount w")
    case False
    then show ?thesis by (simp add: reap_loop.simps [of i w])
  next
    case True
    with "1.prems" obtain w1 where b: "reap_body i w = Returned w1"
      using reap_body_total [of i w] by auto
    from reap_body_grows [OF b] "1.prems" have "bgCount w1 \<le> length (bgProcesses w1)"
      by (simp add: grows_def)
    from "1.IH" [OF True b this] True b show ?thesis
      by (simp add: reap_loop.simps [of i w])
  qed
qed


lemma checkBackgroundProcesses_grows:
  "checkBackgroundProcesses w = Returned w' \<Longrightarrow>
     grows w w' \<and> bgCount w' = bgCount w \<and> foregroundOnly w' = foregroundOnly w \<and>
     lastExitStatus w' = lastExitStatus w"
  unfolding checkBackgroundProcesses_def by (rule reap_loop_grows)

lemma prompt_grows:
  "grows w (prompt w) \<and> bgCount (prompt w) = bgCount w \<and>
   foregroundOnly (prompt w) = foregroundOnly w \<and> lastExitStatus (prompt w) = lastExitStatus w"
  by (simp add: prompt_def grows_def emit_def is_bg_report_def)

lemma executeCommand_grows:
  "executeCommand e c w = Returned w' \<Longrightarrow>
     grows w w' \<and> foregroundOnly w' = foregroundOnly w \<and>
     (foregroundOnly w \<longrightarrow> bgCount w' = bgCount w)"
  by (auto simp: executeCommand_def child_branch_def redirect_input_def redirect_output_def
      child_signals_and_exec_def parent_branch_def Let_def grows_def emit_def is_bg_report_def
      split: if_splits option.splits wstatus.splits)

lemma builtin_cd_grows:
  "builtin_cd e c w = Returned w' \<Longrightarrow>
     grows w w' \<and> bgCount w' = bgCount w \<and> foregroundOnly w' = foregroundOnly w \<and>
     lastExitStatus w' = lastExitStatus w"
  by (auto simp: builtin_cd_def Let_def grows_def emit_def is_bg_report_def split: if_splits)

lemma builtin_status_grows:
  "builtin_status w = Returned w' \<Longrightarrow>
     grows w w' \<and> bgCount w' = bgCount w \<and> foregroundOnly w' = foregroundOnly w \<and>
     lastExitStatus w' = lastExitStatus w"
  by (auto simp: builtin_status_def grows_def emit_def is_bg_report_def)

lemma builtin_exit_never_returns: "builtin_exit w \<noteq> Returned w'"
  by (simp add: builtin_exit_def split: outcome.splits)

lemma main_iteration_grows:
  assumes "main_iteration e w = Returned w'"
  shows "grows w w' \<and> foregroundOnly w' = foregroundOnly w \<and>
         (foregroundOnly w \<longrightarrow> bgCount w' = bgCount w)"
proof -
  from assms obtain w1 where r: "checkBackgroundProcesses w = Returned w1"
    by (auto simp: main_iteration_def split: outcome.splits)
  define w2 where "w2 = prompt w1"
  have g2: "grows w w2" "bgCount w2 = bgCount w" "foregroundOnly w2 = foregroundOnly w"
    using checkBackgroundProcesses_grows [OF r] prompt_grows [of w1]
    by (auto simp: w2_def intro: grows_trans)
  have step: "grows w2 w' \<and> foregroundOnly w' = foregroundOnly w2 \<and>
         (foregroundOnly w2 \<longrightarrow> bgCount w' = bgCount w2)"
    using assms r
      executeCommand_grows [of e _ w2 w'] builtin_cd_grows [of e _ w2 w']
      builtin_status_grows [of w2 w'] builtin_exit_never_returns [of w2 w']
    by (auto simp: main_iteration_def Let_def w2_def [symmetric] grows_emit is_bg_report_def
        split: option.splits if_splits sum.splits)
  with g2 show ?thesis by (auto intro: grows_trans)
qed

lemma handle_SIGTSTP_grows:
  "grows w (handle_SIGTSTP w) \<and> bgCount (handle_SIGTSTP w) = bgCount w"
  by (simp add: handle_SIGTSTP_def grows_def emit_def is_bg_report_def)

lemma child_dies_grows:
  "grows w (child_dies pid st w) \<and> bgCount (child_dies pid st w) = bgCount w \<and>
   foregroundOnly (child_dies pid st w) = foregroundOnly w"
  by (simp add: child_dies_def split: option.splits child.splits)

lemma run_grows: "run ss w = Returned w' \<Longrightarrow> grows w w'"
proof (induction ss w rule: run.induct)
  case (1 w)
  then show ?case by simp
next
  case (2 ss w)
  then show ?case using handle_SIGTSTP_grows [of w] by (auto intro: grows_trans)
next
  case (3 pid st ss w)
  then show ?case using child_dies_grows [of w pid st] by (auto intro: grows_trans)
next
  case (4 e ss w)
  from "4.prems" obtain w1 where m: "main_iteration e w = Returned w1" and r: "run ss w1 = Returned w'"
    by (auto split: outcome.splits)
  from "4.IH" [OF m r] main_iteration_grows [OF m] show ?case
    by (auto intro: grows_trans)
qed

lemma run_foreground_only:
  "Tstp \<notin> set ss \<Longrightarrow> foregroundOnly w \<Longrightarrow> run ss w = Returned w' \<Longrightarrow>
     foregroundOnly w' \<and> bgCount w' = bgCount w"
proof (induction ss w rule: run.induct)
  case (1 w)
  then show ?case by simp
next
  case (2 ss w)
  then show ?case by simp
next
  case (3 pid st ss w)
  then show ?case using child_dies_grows [of w pid st] by auto
next
  case (4 e ss w)
  from "4.prems" obtain w1 where m: "main_iteration e w = Returned w1" and r: "run ss w1 = Returned w'"
    by (auto split: outcome.splits)
  from main_iteration_grows [OF m] "4.prems" have "foregroundOnly w1" "bgCount w1 = bgCount w"
    by auto
  with "4.IH" [OF m _ _ r] "4.prems" show ?case by auto
qed

lemma grows_same_count:
  assumes "grows w w'" and "bgCount w' = bgCount w"
  shows "bgProcesses w' = bgProcesses w \<and>
         (\<forall>ev \<in> set (new_events w (Returned w')). \<not> is_bg_report ev)"
proof -
  from assms obtain evs where "trace w' = trace w @ evs" "bg_reports evs = 0"
    and "bgProcesses w' = bgProcesses w"
    unfolding grows_def by auto
  then show ?thesis
    by (auto simp: new_events_def bg_reports_def filter_empty_conv)
qed

section \<open>Foreground-only mode\<close>

text \<open>
  Claim C3.  In foreground-only mode the shell, for any command (also one whose
  line ended in \<^verbatim>\<open>&\<close>), blocks in \<^verbatim>\<open>waitpid(spawnPid, &childStatus, 0)\<close>, stores the
  child's exit code or signal number in \<open>lastExitStatus\<close>, prints no
  \<^verbatim>\<open>background pid is\<close> and leaves the table alone.  Only the \<^verbatim>\<open>SIGTSTP\<close> handler
  changes the mode: over any stretch of a session without a \<^verbatim>\<open>SIGTSTP\<close> the mode
  stays on, the table and its count stay as they were and no background pid is
  reported.
\<close>

theorem C3_foreground_only_runs_everything_in_foreground:
  "(foregroundOnly w \<and> 0 < fork_ret e \<longrightarrow>
      executeCommand e c w =
        Returned (w\<lparr>lastExitStatus := (case wait_status e of WExited x \<Rightarrow> x | WSignaled g \<Rightarrow> g),
                    children := (children w)(fork_ret e := None),
                    trace := trace w @ [Fork (fork_ret e), Waitpid (fork_ret e) False (fork_ret e)] @
                      (case wait_status e of WExited x \<Rightarrow> []
                       | WSignaled g \<Rightarrow> [Printf ''terminated by signal %d\<newline>'' [g], Fflush])\<rparr>)) \<and>
   (foregroundOnly w \<and> Tstp \<notin> set ss \<and> run ss w = Returned w' \<longrightarrow>
      foregroundOnly w' \<and> bgProcesses w' = bgProcesses w \<and> bgCount w' = bgCount w \<and>
      (\<forall>pid. Printf ''background pid is %d\<newline>'' [pid] \<notin> set (new_events w (Returned w'))))"
proof (intro conjI impI)
  assume "foregroundOnly w \<and> 0 < fork_ret e"
  then show "executeCommand e c w =
        Returned (w\<lparr>lastExitStatus := (case wait_status e of WExited x \<Rightarrow> x | WSignaled g \<Rightarrow> g),
                    children := (children w)(fork_ret e := None),
                    trace := trace w @ [Fork (fork_ret e), Waitpid (fork_ret e) False (fork_ret e)] @
                      (case wait_status e of WExited x \<Rightarrow> []
                       | WSignaled g \<Rightarrow> [Printf ''terminated by signal %d\<newline>'' [g], Fflush])\<rparr>)"
    by (simp add: executeCommand_foreground)
next
  assume a: "foregroundOnly w \<and> Tstp \<notin> set ss \<and> run ss w = Returned w'"
  then have f: "foregroundOnly w'" "bgCount w' = bgCount w"
    using run_foreground_only [of ss w w'] by auto
  from a have "grows w w'" using run_grows [of ss w w'] by blast
  from grows_same_count [OF this f(2)]
  have t: "bgProcesses w' = bgProcesses w"
    and n: "\<forall>ev \<in> set (new_events w (Returned w')). \<not> is_bg_report ev"
    by auto
  from f show "foregroundOnly w'" by simp
  from t show "bgProcesses w' = bgProcesses w" .
  from f show "bgCount w' = bgCount w" by simp
  from n show "\<forall>pid. Printf ''background pid is %d\<newline>'' [pid] \<notin> set (new_events w (Returned w'))"
    by (auto simp: is_bg_report_def)
qed

theorem C3_foreground_only_runs_everything_in_foreground_witness:
  "foregroundOnly (handle_SIGTSTP init_world) \<and>
   0 < fork_ret (quiet_env\<lparr>fgets_ret := Some ''sleep 9 &\<newline>'', fork_ret := 7\<rparr>) \<and>
   new_events (handle_SIGTSTP init_world)
     (executeCommand (quiet_env\<lparr>fgets_ret := Some ''sleep 9 &\<newline>'', fork_ret := 7\<rparr>)
        (empty_cmd\<lparr>args := [''sleep'', ''9''], background := True\<rparr>) (handle_SIGTSTP init_world)) =
     [Fork 7, Waitpid 7 False 7] \<and>
   Tstp \<notin> set [Turn (quiet_env\<lparr>fgets_ret := Some ''sleep 9 &\<newline>'', fork_ret := 7\<rparr>),
                Turn (quiet_env\<lparr>fgets_ret := Some ''ls &\<newline>'', fork_ret := 8\<rparr>)] \<and>
   (\<exists>w'. run [Turn (quiet_env\<lparr>fgets_ret := Some ''sleep 9 &\<newline>'', fork_ret := 7\<rparr>),
              Turn (quiet_env\<lparr>fgets_ret := Some ''ls &\<newline>'', fork_ret := 8\<rparr>)]
             (handle_SIGTSTP init_world) = Returned w' \<and>
      foregroundOnly w' \<and> bgCount w' = 0 \<and> bgProcesses w' = replicate 50 0 \<and>
      (\<forall>pid. Printf ''background pid is %d\<newline>'' [pid]
               \<notin> set (new_events (handle_SIGTSTP init_world) (Returned w'))))"
proof -
  let ?e = "quiet_env\<lparr>fgets_ret := Some ''sleep 9 &\<newline>'', fork_ret := 7\<rparr>"
  let ?ss = "[Turn ?e, Turn (quiet_env\<lparr>fgets_ret := Some ''ls &\<newline>'', fork_ret := 8\<rparr>)]"
  let ?w = "handle_SIGTSTP init_world"
  let ?c = "empty_cmd\<lparr>args := [''sleep'', ''9''], background := True\<rparr>"
  have f: "foregroundOnly ?w" by (simp add: handle_SIGTSTP_def init_world_def)
  have p: "0 < fork_ret ?e" by (simp add: quiet_env_def)
  have n: "Tstp \<notin> set ?ss" by simp
  have "case run ?ss ?w of Returned w \<Rightarrow> True | _ \<Rightarrow> False" by code_simp
  then obtain w' where r: "run ?ss ?w = Returned w'" using outcome_Returned by blast
  have t: "bgCount ?w = 0" "bgProcesses ?w = replicate 50 0"
    by (simp_all add: handle_SIGTSTP_def init_world_def)
  from C3_foreground_only_runs_everything_in_foreground [of ?w ?e ?c ?ss w'] f p n r t
  show ?thesis
    by (simp add: new_events_def quiet_env_def)
qed

section \<open>The table of background processes\<close>

lemma checkBackgroundProcesses_total:
  "bgCount w \<le> length (bgProcesses w) \<Longrightarrow> \<exists>w'. checkBackgroundProcesses w = Returned w'"
  unfolding checkBackgroundProcesses_def by (rule reap_loop_total)

text \<open>A run of lines \<^verbatim>\<open>sleep 9 &\<close>, while there is room in the table.\<close>

lemma parse_sleep_bg:
  "parse_line ''sleep 9 &\<newline>'' =
     Inr \<lparr>args = [''sleep'', ''9''], background = True, inputFile = None, outputFile = None\<rparr>"
  by code_simp

lemma background_turn:
  assumes "fgets_ret e = Some ''sleep 9 &\<newline>''" and "0 < fork_ret e"
    and "\<not> foregroundOnly w" and "bgCount w < length (bgProcesses w)"
  shows "\<exists>w'. main_iteration e w = Returned w' \<and> bgCount w' = Suc (bgCount w) \<and>
           \<not> foregroundOnly w' \<and> length (bgProcesses w') = length (bgProcesses w)"
proof -
  from assms(4) obtain w1 where r: "checkBackgroundProcesses w = Returned w1"
    using checkBackgroundProcesses_total [of w] by auto
  from checkBackgroundProcesses_grows [OF r] prompt_grows [of w1] assms(3,4)
  have p: "\<not> foregroundOnly (prompt w1)" "bgCount (prompt w1) = bgCount w"
    "length (bgProcesses (prompt w1)) = length (bgProcesses w)"
    by (auto simp: grows_def)
  have "comment_or_blank ''sleep 9 &\<newline>'' = False" by (simp add: comment_or_blank_def)
  with r assms(1) have "main_iteration e w =
      executeCommand e \<lparr>args = [''sleep'', ''9''], background = True, inputFile = None,
        outputFile = None\<rparr> (prompt w1)"
    by (simp add: main_iteration_def Let_def parse_sleep_bg)
  with p assms(2,4) show ?thesis
    by (simp add: executeCommand_background)
qed

lemma background_turns:
  "\<forall>s \<in> set ss. \<exists>e. s = Turn e \<and> fgets_ret e = Some ''sleep 9 &\<newline>'' \<and> 0 < fork_ret e \<Longrightarrow>
   \<not> foregroundOnly w \<Longrightarrow> bgCount w + length ss \<le> length (bgProcesses w) \<Longrightarrow>
   \<exists>w'. run ss w = Returned w' \<and> bgCount w' = bgCount w + length ss \<and> \<not> foregroundOnly w'"
proof (induction ss arbitrary: w)
  case Nil
  then show ?case by simp
next
  case (Cons s ss)
  from Cons.prems(1) obtain e where e: "s = Turn e" "fgets_ret e = Some ''sleep 9 &\<newline>''" "0 < fork_ret e"
    by auto
  from Cons.prems(3) have "bgCount w < length (bgProcesses w)" by simp
  from background_turn [OF e(2,3) Cons.prems(2) this]
  obtain w1 where w1: "main_iteration e w = Returned w1" "bgCount w1 = Suc (bgCount w)"
    "\<not> foregroundOnly w1" "length (bgProcesses w1) = length (bgProcesses w)"
    by blast
  from Cons.prems(1) have "\<forall>s \<in> set ss. \<exists>e. s = Turn e \<and> fgets_ret e = Some ''sleep 9 &\<newline>'' \<and> 0 < fork_ret e"
    by simp
  from Cons.IH [OF this w1(3)] w1(2,4) Cons.prems(3)
  obtain w' where "run ss w1 = Returned w'" "bgCount w' = bgCount w1 + length ss" "\<not> foregroundOnly w'"
    by auto
  with e(1) w1 show ?case by simp
qed

text \<open>
  Claim C9.  \<^verbatim>\<open>bgProcesses\<close> has 50 entries and \<^verbatim>\<open>bgCount\<close> starts at 0.  No stretch
  of a session makes \<open>bgCount\<close> smaller or changes the size of the array.  In a
  world reached from the initial one, \<open>bgCount\<close> is the number of background jobs
  tracked so far (one \<^verbatim>\<open>background pid is\<close> report each), and the store
  \<^verbatim>\<open>bgProcesses[bgCount++] = spawnPid\<close> of the next background job is inside the
  array exactly when fewer than 50 have been tracked; with 50 tracked it is
  outside.
\<close>

theorem C9_table_of_50_never_shrinks:
  "length (bgProcesses init_world) = 50 \<and> bgCount init_world = 0 \<and>
   (run ss w = Returned w' \<longrightarrow>
      bgCount w \<le> bgCount w' \<and> length (bgProcesses w') = length (bgProcesses w)) \<and>
   (run ss init_world = Returned v \<longrightarrow>
      length (bgProcesses v) = 50 \<and> bgCount v = bg_reports (trace v) \<and> bgCount v \<le> 50 \<and>
      (0 < fork_ret e \<and> background c \<and> \<not> foregroundOnly v \<longrightarrow>
         (if bg_reports (trace v) < 50
          then \<exists>w2. executeCommand e c v = Returned w2 \<and>
                 bgProcesses w2 = (bgProcesses v)[bgCount v := fork_ret e] \<and>
                 bgCount w2 = bgCount v + 1
          else executeCommand e c v = Faulted OutOfBounds)))"
proof (intro conjI impI)
  show "length (bgProcesses init_world) = 50" "bgCount init_world = 0"
    by (simp_all add: init_world_def)
next
  assume "run ss w = Returned w'"
  then have "grows w w'" by (rule run_grows)
  then show "bgCount w \<le> bgCount w'" "length (bgProcesses w') = length (bgProcesses w)"
    by (auto simp: grows_def)
next
  assume "run ss init_world = Returned v"
  then have g: "grows init_world v" by (rule run_grows)
  then show l: "length (bgProcesses v) = 50"
    by (simp add: grows_def init_world_def)
  from g obtain evs where "trace v = trace init_world @ evs"
    "bgCount v = bgCount init_world + bg_reports evs"
    unfolding grows_def by blast
  then show n: "bgCount v = bg_reports (trace v)"
    by (simp add: init_world_def is_bg_report_def)
  from g l show "bgCount v \<le> 50"
    by (simp add: grows_def init_world_def)
  assume "0 < fork_ret e \<and> background c \<and> \<not> foregroundOnly v"
  with l n show "if bg_reports (trace v) < 50
          then \<exists>w2. executeCommand e c v = Returned w2 \<and>
                 bgProcesses w2 = (bgProcesses v)[bgCount v := fork_ret e] \<and>
                 bgCount w2 = bgCount v + 1
          else executeCommand e c v = Faulted OutOfBounds"
    by (simp add: executeCommand_background)
qed

theorem C9_table_of_50_never_shrinks_witness:
  "(\<exists>w. run (replicate 50 (Turn (quiet_env\<lparr>fgets_ret := Some ''sleep 9 &\<newline>'', fork_ret := 7\<rparr>)))
           init_world = Returned w \<and>
      bg_reports (trace w) = 50 \<and> bgCount w = 50 \<and> length (bgProcesses w) = 50 \<and>
      0 < fork_ret (quiet_env\<lparr>fork_ret := 8\<rparr>) \<and>
      background (empty_cmd\<lparr>args := [''ls''], background := True\<rparr>) \<and> \<not> foregroundOnly w \<and>
      executeCommand (quiet_env\<lparr>fork_ret := 8\<rparr>)
        (empty_cmd\<lparr>args := [''ls''], background := True\<rparr>) w = Faulted OutOfBounds) \<and>
   (\<exists>w2. run [] init_world = Returned init_world \<and>
      executeCommand (quiet_env\<lparr>fork_ret := 8\<rparr>)
        (empty_cmd\<lparr>args := [''ls''], background := True\<rparr>) init_world = Returned w2 \<and>
      bgProcesses w2 = (replicate 50 0)[0 := 8] \<and> bgCount w2 = 1)"
proof -
  let ?e = "quiet_env\<lparr>fgets_ret := Some ''sleep 9 &\<newline>'', fork_ret := 7\<rparr>"
  let ?e8 = "quiet_env\<lparr>fork_ret := 8\<rparr>"
  let ?c = "empty_cmd\<lparr>args := [''ls''], background := True\<rparr>"
  have "\<exists>w'. run (replicate 50 (Turn ?e)) init_world = Returned w' \<and>
          bgCount w' = bgCount init_world + length (replicate 50 (Turn ?e)) \<and> \<not> foregroundOnly w'"
    by (rule background_turns) (simp_all add: quiet_env_def init_world_def)
  then obtain w where w: "run (replicate 50 (Turn ?e)) init_world = Returned w"
    "bgCount w = 50" "\<not> foregroundOnly w"
    by (auto simp: init_world_def)
  have h: "0 < fork_ret ?e8" "background ?c"
    by (simp_all add: quiet_env_def empty_cmd_def)
  from C9_table_of_50_never_shrinks [of "replicate 50 (Turn ?e)" init_world w w ?e8 ?c] w h
  have 1: "run (replicate 50 (Turn ?e)) init_world = Returned w \<and>
      bg_reports (trace w) = 50 \<and> bgCount w = 50 \<and> length (bgProcesses w) = 50 \<and>
      0 < fork_ret ?e8 \<and> background ?c \<and> \<not> foregroundOnly w \<and>
      executeCommand ?e8 ?c w = Faulted OutOfBounds"
    by simp
  have i: "run [] init_world = Returned init_world" "\<not> foregroundOnly init_world"
    by (simp_all add: init_world_def)
  have t: "bg_reports (trace init_world) < 50" "bgCount init_world = 0"
    "bgProcesses init_world = replicate 50 0"
    by (simp_all add: init_world_def is_bg_report_def)
  have f8: "fork_ret ?e8 = 8" by (simp add: quiet_env_def)
  from C9_table_of_50_never_shrinks [of "[]" init_world init_world init_world ?e8 ?c] h i t f8
  have 2: "\<exists>w2. run [] init_world = Returned init_world \<and> executeCommand ?e8 ?c init_world = Returned w2 \<and>
      bgProcesses w2 = (replicate 50 0)[0 := 8] \<and> bgCount w2 = 1"
    by simp
  from 1 2 show ?thesis by blast
qed

section \<open>The \<open>exit\<close> built-in\<close>

lemma kill_loop_result:
  "bgCount w \<le> length (bgProcesses w) \<Longrightarrow>
   kill_loop i w =
     Returned (w\<lparr>trace := trace w @
        map (\<lambda>p. Kill p SIGTERM) (drop i (take (bgCount w) (bgProcesses w)))\<rparr>)"
proof (induction i w rule: kill_loop.induct)
  case (1 i w)
  show ?case
  proof (cases "i < bgCount w")
    case False
    then show ?thesis by (simp add: kill_loop.simps [of i w])
  next
    case True
    let ?w1 = "emit (Kill (bgProcesses w ! i) SIGTERM) w"
    from True "1.prems" have b: "kill_body i w = Returned ?w1"
      by (simp add: kill_body_def)
    from "1.prems" have "bgCount ?w1 \<le> length (bgProcesses ?w1)" by simp
    from "1.IH" [OF True b this]
    have "kill_loop (Suc i) ?w1 =
        Returned (?w1\<lparr>trace := trace ?w1 @
          map (\<lambda>p. Kill p SIGTERM) (drop (Suc i) (take (bgCount w) (bgProcesses w)))\<rparr>)"
      by simp
    moreover from True "1.prems"
    have "drop i (take (bgCount w) (bgProcesses w)) =
        bgProcesses w ! i # drop (Suc i) (take (bgCount w) (bgProcesses w))"
      by (simp add: Cons_nth_drop_Suc [symmetric])
    ultimately show ?thesis using True b
      by (simp add: kill_loop.simps [of i w] emit_def)
  qed
qed

lemma builtin_exit_result:
  "bgCount w \<le> length (bgProcesses w) \<Longrightarrow>
   builtin_exit w =
     Exited 0 (w\<lparr>trace := trace w @
        map (\<lambda>p. Kill p SIGTERM) (take (bgCount w) (bgProcesses w))\<rparr>)"
  by (simp add: builtin_exit_def kill_loop_result)

lemma reap_body_stays:
  "reap_body i w \<noteq> Exited n w' \<and> reap_body i w \<noteq> Execed w'"
  by (auto simp: reap_body_def Let_def split: prod.splits option.splits wstatus.splits)

lemma reap_loop_stays:
  "reap_loop i w \<noteq> Exited n w' \<and> reap_loop i w \<noteq> Execed w'"
proof (induction i w rule: reap_loop.induct)
  case (1 i w)
  show ?case
  proof (cases "i < bgCount w")
    case False
    then show ?thesis by (simp add: reap_loop.simps [of i w])
  next
    case True
    show ?thesis
    proof (cases "reap_body i w")
      case (Returned w1)
      with True "1.IH" [OF True Returned] show ?thesis
        by (simp add: reap_loop.simps [of i w])
    next
      case (Exited m u)
      with reap_body_stays [of i w m u] show ?thesis by simp
    next
      case (Execed u)
      with reap_body_stays [of i w _ u] show ?thesis by simp
    next
      case (Faulted f)
      with True show ?thesis by (simp add: reap_loop.simps [of i w])
    qed
  qed
qed

lemma kill_loop_stays:
  "kill_loop i w \<noteq> Exited n w' \<and> kill_loop i w \<noteq> Execed w'"
proof (induction i w rule: kill_loop.induct)
  case (1 i w)
  show ?case
  proof (cases "i < bgCount w")
    case False
    then show ?thesis by (simp add: kill_loop.simps [of i w])
  next
    case True
    show ?thesis
    proof (cases "i < length (bgProcesses w)")
      case False
      with True show ?thesis by (simp add: kill_loop.simps [of i w] kill_body_def)
    next
      case l: True
      then have b: "kill_body i w = Returned (emit (Kill (bgProcesses w ! i) SIGTERM) w)"
        by (simp add: kill_body_def)
      with True "1.IH" [OF True b] show ?thesis
        by (simp add: kill_loop.simps [of i w])
    qed
  qed
qed

lemma builtin_exit_code:
  "builtin_exit w = Exited n w' \<Longrightarrow> n = 0"
  using kill_loop_stays [of 0 w n w']
  by (auto simp: builtin_exit_def split: outcome.splits)

lemma builtin_exit_no_exec: "builtin_exit w \<noteq> Execed w'"
  using kill_loop_stays [of 0 w _ w']
  by (auto simp: builtin_exit_def split: outcome.splits)

lemma parent_stays:
  "0 < fork_ret e \<Longrightarrow> executeCommand e c w \<noteq> Exited n w' \<and> executeCommand e c w \<noteq> Execed w'"
  by (auto simp: executeCommand_def parent_branch_def Let_def split: wstatus.splits)

lemma main_iteration_exit_only:
  assumes "main_iteration e w = Exited n w'" and "0 < fork_ret e"
  shows "n = 0 \<and> (\<exists>input c. fgets_ret e = Some input \<and> parse_line input = Inr c \<and>
           args c \<noteq> [] \<and> args c ! 0 = ''exit'')"
proof -
  from assms(1) reap_loop_stays [of 0 w n w'] obtain w1 where
    r: "checkBackgroundProcesses w = Returned w1"
    by (cases "checkBackgroundProcesses w")
      (auto simp: main_iteration_def checkBackgroundProcesses_def)
  from assms r parent_stays [OF assms(2), of _ "prompt w1" n w']
    builtin_exit_code [of "prompt w1" n w']
  show ?thesis
    by (auto simp: main_iteration_def Let_def builtin_cd_def builtin_status_def
        split: option.splits if_splits sum.splits)
qed

lemma main_iteration_no_exec:
  assumes "0 < fork_ret e"
  shows "main_iteration e w \<noteq> Execed w'"
proof (cases "checkBackgroundProcesses w")
  case (Returned w1)
  with parent_stays [OF assms, of _ "prompt w1" _ w'] builtin_exit_no_exec [of "prompt w1" w']
  show ?thesis
    by (auto simp: main_iteration_def Let_def builtin_cd_def builtin_status_def
        split: option.splits if_splits sum.splits)
next
  case (Exited m u)
  with reap_loop_stays [of 0 w m u] show ?thesis by (simp add: checkBackgroundProcesses_def)
next
  case (Execed u)
  with reap_loop_stays [of 0 w _ u] show ?thesis by (simp add: checkBackgroundProcesses_def)
next
  case (Faulted f)
  then show ?thesis by (simp add: main_iteration_def)
qed


lemma main_iteration_exit:
  assumes "bgCount w \<le> length (bgProcesses w)" and "fgets_ret e = Some input"
    and "\<not> comment_or_blank input" and "parse_line input = Inr c"
    and "args c \<noteq> []" and "args c ! 0 = ''exit''"
  shows "\<exists>w1. checkBackgroundProcesses w = Returned w1 \<and>
     main_iteration e w =
       Exited 0 ((prompt w1)\<lparr>trace := trace (prompt w1) @
          map (\<lambda>p. Kill p SIGTERM) (take (bgCount w) (bgProcesses w))\<rparr>)"
proof -
  from assms(1) obtain w1 where r: "checkBackgroundProcesses w = Returned w1"
    using checkBackgroundProcesses_total [of w] by auto
  from checkBackgroundProcesses_grows [OF r] prompt_grows [of w1] assms(1)
  have p: "bgCount (prompt w1) = bgCount w" "bgProcesses (prompt w1) = bgProcesses w"
    by (auto simp: grows_def)
  with assms(1) have "bgCount (prompt w1) \<le> length (bgProcesses (prompt w1))" by simp
  from builtin_exit_result [OF this] p assms r show ?thesis
    by (simp add: main_iteration_def Let_def)
qed

lemma parse_exit:
  "parse_line ''exit\<newline>'' =
     Inr \<lparr>args = [''exit''], background = False, inputFile = None, outputFile = None\<rparr>"
  by code_simp

text \<open>
  Claim C5.  The \<open>exit\<close> built-in calls \<^verbatim>\<open>kill(bgProcesses[i], SIGTERM)\<close> for every
  index below \<open>bgCount\<close>, in order, with no \<^verbatim>\<open>waitpid\<close> in between or after, and then
  \<^verbatim>\<open>exit(0)\<close>; a turn of the loop whose line has \<^verbatim>\<open>exit\<close> as its first word does
  exactly that after the reaping and the prompt.  In the shell (any process
  where \<^verbatim>\<open>fork()\<close>, if called, returns a child's id) a turn of the loop that ends the
  process is such a turn and ends it with status 0, and no turn replaces the
  process image.
\<close>

theorem C5_exit_signals_every_tracked_handle:
  "(bgCount w \<le> length (bgProcesses w) \<longrightarrow>
      builtin_exit w =
        Exited 0 (w\<lparr>trace := trace w @
           map (\<lambda>p. Kill p SIGTERM) (take (bgCount w) (bgProcesses w))\<rparr>)) \<and>
   (bgCount w \<le> length (bgProcesses w) \<and> fgets_ret e = Some input \<and>
    \<not> comment_or_blank input \<and> parse_line input = Inr c \<and> args c \<noteq> [] \<and>
    args c ! 0 = ''exit'' \<longrightarrow>
      (\<exists>w1. checkBackgroundProcesses w = Returned w1 \<and>
         main_iteration e w =
           Exited 0 ((prompt w1)\<lparr>trace := trace (prompt w1) @
              map (\<lambda>p. Kill p SIGTERM) (take (bgCount w) (bgProcesses w))\<rparr>))) \<and>
   (0 < fork_ret e \<and> main_iteration e w = Exited n w' \<longrightarrow>
      n = 0 \<and> (\<exists>line c'. fgets_ret e = Some line \<and> parse_line line = Inr c' \<and>
                 args c' \<noteq> [] \<and> args c' ! 0 = ''exit'')) \<and>
   (0 < fork_ret e \<longrightarrow> main_iteration e w \<noteq> Execed w')"
proof (intro conjI impI)
  assume "bgCount w \<le> length (bgProcesses w)"
  then show "builtin_exit w =
        Exited 0 (w\<lparr>trace := trace w @
           map (\<lambda>p. Kill p SIGTERM) (take (bgCount w) (bgProcesses w))\<rparr>)"
    by (rule builtin_exit_result)
next
  assume "bgCount w \<le> length (bgProcesses w) \<and> fgets_ret e = Some input \<and>
    \<not> comment_or_blank input \<and> parse_line input = Inr c \<and> args c \<noteq> [] \<and>
    args c ! 0 = ''exit''"
  then show "\<exists>w1. checkBackgroundProcesses w = Returned w1 \<and>
         main_iteration e w =
           Exited 0 ((prompt w1)\<lparr>trace := trace (prompt w1) @
              map (\<lambda>p. Kill p SIGTERM) (take (bgCount w) (bgProcesses w))\<rparr>)"
    using main_iteration_exit [of w e input c] by blast
next
  assume a: "0 < fork_ret e \<and> main_iteration e w = Exited n w'"
  then show "n = 0" using main_iteration_exit_only [of e w n w'] by blast
  from a show "\<exists>line c'. fgets_ret e = Some line \<and> parse_line line = Inr c' \<and>
                 args c' \<noteq> [] \<and> args c' ! 0 = ''exit''"
    using main_iteration_exit_only [of e w n w'] by blast
next
  assume "0 < fork_ret e"
  then show "main_iteration e w \<noteq> Execed w'" by (rule main_iteration_no_exec)
qed

theorem C5_exit_signals_every_tracked_handle_witness:
  "bgCount (init_world\<lparr>bgProcesses := 7 # 9 # replicate 48 0, bgCount := 2\<rparr>)
     \<le> length (bgProcesses (init_world\<lparr>bgProcesses := 7 # 9 # replicate 48 0, bgCount := 2\<rparr>)) \<and>
   0 < fork_ret (quiet_env\<lparr>fgets_ret := Some ''exit\<newline>'', fork_ret := 8\<rparr>) \<and>
   builtin_exit (init_world\<lparr>bgProcesses := 7 # 9 # replicate 48 0, bgCount := 2\<rparr>) =
     Exited 0 (init_world\<lparr>bgProcesses := 7 # 9 # replicate 48 0, bgCount := 2,
       trace := trace init_world @ [Kill 7 SIGTERM, Kill 9 SIGTERM]\<rparr>) \<and>
   (\<exists>w1. checkBackgroundProcesses
            (init_world\<lparr>bgProcesses := 7 # 9 # replicate 48 0, bgCount := 2\<rparr>)
          = Returned w1 \<and>
      main_iteration (quiet_env\<lparr>fgets_ret := Some ''exit\<newline>'', fork_ret := 8\<rparr>)
          (init_world\<lparr>bgProcesses := 7 # 9 # replicate 48 0, bgCount := 2\<rparr>) =
        Exited 0 ((prompt w1)\<lparr>trace := trace (prompt w1) @ [Kill 7 SIGTERM, Kill 9 SIGTERM]\<rparr>))"
proof -
  let ?w = "init_world\<lparr>bgProcesses := 7 # 9 # replicate 48 0, bgCount := 2\<rparr>"
  let ?e = "quiet_env\<lparr>fgets_ret := Some ''exit\<newline>'', fork_ret := 8\<rparr>"
  let ?c = "\<lparr>args = [''exit''], background = False, inputFile = None, outputFile = None\<rparr>"
  have 1: "bgCount ?w \<le> length (bgProcesses ?w)" by (simp add: init_world_def)
  have 2: "0 < fork_ret ?e" "fgets_ret ?e = Some ''exit\<newline>''" by (simp_all add: quiet_env_def)
  have 3: "\<not> comment_or_blank ''exit\<newline>''" by (simp add: comment_or_blank_def)
  have 4: "args ?c \<noteq> []" "args ?c ! 0 = ''exit''" by simp_all
  have 5: "bgCount ?w = 2" "bgProcesses ?w = 7 # 9 # replicate 48 0" "trace ?w = trace init_world"
    by simp_all
  from C5_exit_signals_every_tracked_handle [of ?w ?e "''exit\<newline>''" ?c] 1 2 3 4 parse_exit
  show ?thesis
    by (simp only: 5 take_Cons_numeral take_0 list.map simp_thms pred_numeral_simps
        arith_simps numeral_One [symmetric] One_nat_def take_Suc_Cons) simp
qed

section \<open>The \<open>cd\<close> built-in\<close>

text \<open>What \<open>cd\<close> leaves alone, whether \<^verbatim>\<open>chdir\<close> fails or not: the globals of the shell.\<close>

lemma builtin_cd_frame:
  "\<exists>w'. builtin_cd e c w = Returned w' \<and> foregroundOnly w' = foregroundOnly w \<and>
     lastExitStatus w' = lastExitStatus w \<and> bgProcesses w' = bgProcesses w \<and>
     bgCount w' = bgCount w \<and> children w' = children w"
  by (simp add: builtin_cd_def Let_def)

text \<open>
  Claim C8, against the code.  The shell reads \<^verbatim>\<open>cd\<close> with no argument while
  \<^verbatim>\<open>HOME\<close> names a directory that does not exist: \<^verbatim>\<open>chdir(getenv("HOME"))\<close> returns
  \<open>-1\<close> and nothing is reported (first conjunct).  The branch with an argument
  tests what \<^verbatim>\<open>chdir\<close> returned and reports \<^verbatim>\<open>cd failed\<close> (second conjunct).
\<close>

theorem C8_cd_home_failure_not_reported:
  "new_events init_world
     (main_iteration (quiet_env\<lparr>fgets_ret := Some ''cd\<newline>'', getenv_HOME := Some ''/nonexistent''\<rparr>)
        init_world) =
     [Printf '': '' [], Fflush, Chdir (Some ''/nonexistent'') (- 1)] \<and>
   new_events init_world
     (main_iteration (quiet_env\<lparr>fgets_ret := Some ''cd /nonexistent\<newline>''\<rparr>) init_world) =
     [Printf '': '' [], Fflush, Chdir (Some ''/nonexistent'') (- 1), Perror ''cd failed'']"
  by code_simp

section \<open>What a reap cycle reports\<close>

lemma reap_body_effect:
  assumes "i < length (bgProcesses w)"
  shows "\<exists>w1 evs. reap_body i w = Returned w1 \<and> trace w1 = trace w @ evs \<and>
     bgProcesses w1 = bgProcesses w \<and> bgCount w1 = bgCount w \<and>
     (\<forall>pid. count_list evs (Printf ''background pid %d is done: '' [pid]) =
        (if pid = bgProcesses w ! i \<and> 0 < pid \<and> is_zombie (children w pid) then 1 else 0)) \<and>
     (\<forall>pid. children w1 pid =
        (if pid = bgProcesses w ! i \<and> is_zombie (children w pid) then None else children w pid))"
proof (cases "children w (bgProcesses w ! i)")
  case None
  with assms show ?thesis
    by (simp add: reap_body_def waitpid_nohang_def Let_def emit_def is_zombie_def)
next
  case (Some ch)
  show ?thesis
  proof (cases ch)
    case Running
    with Some assms show ?thesis
      by (simp add: reap_body_def waitpid_nohang_def Let_def emit_def is_zombie_def)
  next
    case (Zombie st)
    with Some assms show ?thesis
      by (cases st) (auto simp: reap_body_def waitpid_nohang_def Let_def emit_def is_zombie_def)
  qed
qed


lemma reap_loop_effect:
  "bgCount w \<le> length (bgProcesses w) \<Longrightarrow>
   \<exists>w' evs. reap_loop i w = Returned w' \<and> trace w' = trace w @ evs \<and>
     bgProcesses w' = bgProcesses w \<and> bgCount w' = bgCount w \<and>
     (\<forall>pid. count_list evs (Printf ''background pid %d is done: '' [pid]) =
        (if 0 < pid \<and> pid \<in> set (drop i (take (bgCount w) (bgProcesses w))) \<and>
            is_zombie (children w pid) then 1 else 0)) \<and>
     (\<forall>pid. children w' pid =
        (if pid \<in> set (drop i (take (bgCount w) (bgProcesses w))) \<and> is_zombie (children w pid)
         then None else children w pid))"
proof (induction i w rule: reap_loop.induct)
  case (1 i w)
  show ?case
  proof (cases "i < bgCount w")
    case False
    then show ?thesis by (simp add: reap_loop.simps [of i w])
  next
    case True
    let ?x = "bgProcesses w ! i"
    let ?xs = "drop (Suc i) (take (bgCount w) (bgProcesses w))"
    from True "1.prems" have il: "i < length (bgProcesses w)" by simp
    from reap_body_effect [OF il] obtain w1 evs1 where
      b: "reap_body i w = Returned w1" and t1: "trace w1 = trace w @ evs1"
      and tb: "bgProcesses w1 = bgProcesses w" "bgCount w1 = bgCount w"
      and c1: "\<And>pid. count_list evs1 (Printf ''background pid %d is done: '' [pid]) =
        (if pid = ?x \<and> 0 < pid \<and> is_zombie (children w pid) then 1 else 0)"
      and k1: "\<And>pid. children w1 pid =
        (if pid = ?x \<and> is_zombie (children w pid) then None else children w pid)"
      by blast
    from tb "1.prems" have "bgCount w1 \<le> length (bgProcesses w1)" by simp
    from "1.IH" [OF True b this] tb obtain w' evs2 where
      l: "reap_loop (Suc i) w1 = Returned w'" and t2: "trace w' = trace w1 @ evs2"
      and tb': "bgProcesses w' = bgProcesses w" "bgCount w' = bgCount w"
      and c2: "\<And>pid. count_list evs2 (Printf ''background pid %d is done: '' [pid]) =
        (if 0 < pid \<and> pid \<in> set ?xs \<and> is_zombie (children w1 pid) then 1 else 0)"
      and k2: "\<And>pid. children w' pid =
        (if pid \<in> set ?xs \<and> is_zombie (children w1 pid) then None else children w1 pid)"
      by auto
    from True "1.prems" have d: "drop i (take (bgCount w) (bgProcesses w)) = ?x # ?xs"
      by (simp add: Cons_nth_drop_Suc [symmetric])
    have z1: "\<And>pid. is_zombie (children w1 pid) \<longleftrightarrow> pid \<noteq> ?x \<and> is_zombie (children w pid)"
      by (auto simp: k1 is_zombie_def)
    have r: "reap_loop i w = Returned w'"
      using True b l by (simp add: reap_loop.simps [of i w])
    have t: "trace w' = trace w @ (evs1 @ evs2)"
      using t1 t2 by simp
    have c: "\<And>pid. count_list (evs1 @ evs2) (Printf ''background pid %d is done: '' [pid]) =
        (if 0 < pid \<and> pid \<in> set (?x # ?xs) \<and> is_zombie (children w pid) then 1 else 0)"
      by (auto simp: c1 c2 z1)
    have k: "\<And>pid. children w' pid =
        (if pid \<in> set (?x # ?xs) \<and> is_zombie (children w pid) then None else children w pid)"
      by (auto simp: k1 k2 z1)
    from r t tb' c k show ?thesis
      unfolding d by blast
  qed
qed

lemma checkBackgroundProcesses_effect:
  assumes "bgCount w \<le> length (bgProcesses w)"
  shows "\<exists>w'. checkBackgroundProcesses w = Returned w' \<and>
     bgProcesses w' = bgProcesses w \<and> bgCount w' = bgCount w \<and>
     (\<forall>pid. count_list (new_events w (Returned w')) (Printf ''background pid %d is done: '' [pid]) =
        (if 0 < pid \<and> pid \<in> set (take (bgCount w) (bgProcesses w)) \<and>
            is_zombie (children w pid) then 1 else 0)) \<and>
     (\<forall>pid. children w' pid =
        (if pid \<in> set (take (bgCount w) (bgProcesses w)) \<and> is_zombie (children w pid)
         then None else children w pid))"
proof -
  from reap_loop_effect [OF assms, of 0] obtain w' evs where
    "reap_loop 0 w = Returned w'" "trace w' = trace w @ evs"
    "bgProcesses w' = bgProcesses w" "bgCount w' = bgCount w"
    "\<And>pid. count_list evs (Printf ''background pid %d is done: '' [pid]) =
        (if 0 < pid \<and> pid \<in> set (take (bgCount w) (bgProcesses w)) \<and>
            is_zombie (children w pid) then 1 else 0)"
    "\<And>pid. children w' pid =
        (if pid \<in> set (take (bgCount w) (bgProcesses w)) \<and> is_zombie (children w pid)
         then None else children w pid)"
    by auto
  then show ?thesis
    by (simp add: checkBackgroundProcesses_def new_events_def)
qed

text \<open>
  Claim C2, against the code.  A background job with process id 7 terminates and
  the next turn of the loop reports it; afterwards 7 is still in the table and the
  count is still 1.  When the kernel then gives the free process id 7 to the next
  background job, the table holds 7 twice.
\<close>

theorem C2_reported_handle_stays_in_table:
  "(case run [Turn (quiet_env\<lparr>fgets_ret := Some ''sleep 5 &\<newline>'', fork_ret := 7\<rparr>),
             ChildDies 7 (WExited 0),
             Turn (quiet_env\<lparr>fgets_ret := Some ''\<newline>''\<rparr>)] init_world of
      Returned w \<Rightarrow>
        count_list (trace w) (Printf ''background pid %d is done: '' [7]) = 1 \<and>
        bgCount w = 1 \<and> take (bgCount w) (bgProcesses w) = [7]
    | _ \<Rightarrow> False) \<and>
   (case run [Turn (quiet_env\<lparr>fgets_ret := Some ''sleep 5 &\<newline>'', fork_ret := 7\<rparr>),
             ChildDies 7 (WExited 0),
             Turn (quiet_env\<lparr>fgets_ret := Some ''\<newline>''\<rparr>),
             Turn (quiet_env\<lparr>fgets_ret := Some ''sleep 5 &\<newline>'', fork_ret := 7\<rparr>)] init_world of
      Returned w \<Rightarrow> bgCount w = 2 \<and> take (bgCount w) (bgProcesses w) = [7, 7]
    | _ \<Rightarrow> False)"
  by code_simp

section \<open>What a session reports and records\<close>

text \<open>What a reap cycle adds to the trace, and which handles it polls.\<close>

lemma polled_append [simp]: "polled (xs @ ys) = polled xs @ polled ys"
  by (induction xs) (auto split: event.splits)

lemma reap_body_events:
  "reap_body i w = Returned w' \<Longrightarrow>
   \<exists>evs. trace w' = trace w @ evs \<and> (\<forall>ev \<in> set evs. is_reap_event ev) \<and>
     polled evs = [bgProcesses w ! i] \<and> i < length (bgProcesses w)"
  by (auto simp: reap_body_def Let_def emit_def is_reap_event_def
      split: if_splits prod.splits option.splits wstatus.splits)

lemma reap_loop_events:
  "reap_loop i w = Returned w' \<Longrightarrow>
   \<exists>evs. trace w' = trace w @ evs \<and> (\<forall>ev \<in> set evs. is_reap_event ev) \<and>
     polled evs = drop i (take (bgCount w) (bgProcesses w))"
proof (induction i w rule: reap_loop.induct)
  case (1 i w)
  show ?case
  proof (cases "i < bgCount w")
    case False
    with "1.prems" show ?thesis by (simp add: reap_loop.simps [of i w])
  next
    case True
    with "1.prems" obtain w1 where b: "reap_body i w = Returned w1"
      and l: "reap_loop (Suc i) w1 = Returned w'"
      by (auto simp: reap_loop.simps [of i w] split: outcome.splits)
    from reap_body_events [OF b] obtain evs1 where
      1: "trace w1 = trace w @ evs1" "\<forall>ev \<in> set evs1. is_reap_event ev"
      "polled evs1 = [bgProcesses w ! i]" "i < length (bgProcesses w)"
      by blast
    from reap_body_grows [OF b] have t: "bgProcesses w1 = bgProcesses w" "bgCount w1 = bgCount w"
      by (auto simp: grows_def)
    from "1.IH" [OF True b l] t obtain evs2 where
      2: "trace w' = trace w1 @ evs2" "\<forall>ev \<in> set evs2. is_reap_event ev"
      "polled evs2 = drop (Suc i) (take (bgCount w) (bgProcesses w))"
      by auto
    from True 1(4) have d: "drop i (take (bgCount w) (bgProcesses w)) =
        bgProcesses w ! i # drop (Suc i) (take (bgCount w) (bgProcesses w))"
      by (simp add: Cons_nth_drop_Suc [symmetric])
    have "trace w' = trace w @ (evs1 @ evs2) \<and> (\<forall>ev \<in> set (evs1 @ evs2). is_reap_event ev) \<and>
        polled (evs1 @ evs2) = drop i (take (bgCount w) (bgProcesses w))"
      using 1 2 d by auto
    then show ?thesis by blast
  qed
qed

lemma new_events_Returned:
  "trace w' = trace w @ evs \<Longrightarrow> new_events w (Returned w') = evs"
  by (simp add: new_events_def)

lemma new_events_trans:
  assumes "grows w w1" and "grows w1 w2"
  shows "new_events w (Returned w2) = new_events w (Returned w1) @ new_events w1 (Returned w2)"
proof -
  from assms obtain a b where "trace w1 = trace w @ a" "trace w2 = trace w1 @ b"
    unfolding grows_def by blast
  then show ?thesis by (simp add: new_events_def)
qed


lemma executeCommand_Returned_cases:
  assumes "executeCommand e c w = Returned w'"
  shows "w' = w\<lparr>lastExitStatus := (case wait_status e of WExited x \<Rightarrow> x | WSignaled g \<Rightarrow> g),
                children := (children w)(fork_ret e := None),
                trace := trace w @ [Fork (fork_ret e), Waitpid (fork_ret e) False (fork_ret e)] @
                  (case wait_status e of WExited x \<Rightarrow> []
                   | WSignaled g \<Rightarrow> [Printf ''terminated by signal %d\<newline>'' [g], Fflush])\<rparr> \<or>
         bgCount w < length (bgProcesses w) \<and>
         w' = w\<lparr>bgProcesses := (bgProcesses w)[bgCount w := fork_ret e],
                bgCount := bgCount w + 1,
                children := (children w)(fork_ret e \<mapsto> Running),
                trace := trace w @ [Fork (fork_ret e),
                  Printf ''background pid is %d\<newline>'' [fork_ret e], Fflush]\<rparr>"
proof -
  from assms child_never_returns [of e c w w'] have f: "fork_ret e \<noteq> 0" "fork_ret e \<noteq> - 1"
    by (auto simp: executeCommand_def Let_def)
  show ?thesis
  proof (cases "background c \<and> \<not> foregroundOnly w")
    case True
    with assms f show ?thesis
      by (auto simp: executeCommand_def parent_branch_def emit_def Let_def split: if_splits)
  next
    case False
    with assms f show ?thesis
      by (cases "wait_status e")
        (auto simp: executeCommand_def parent_branch_def emit_def Let_def)
  qed
qed

text \<open>The part of a turn behind the prompt, when the turn comes back to the loop.\<close>

lemma dispatch_cases:
  assumes "main_iteration e w = Returned w'"
  shows "\<exists>w1. checkBackgroundProcesses w = Returned w1 \<and>
     (w' = emit Clearerr (prompt w1) \<or> w' = prompt w1 \<or>
      (\<exists>c. builtin_cd e c (prompt w1) = Returned w') \<or>
      builtin_status (prompt w1) = Returned w' \<or>
      (\<exists>c. executeCommand e c (prompt w1) = Returned w'))"
proof -
  from assms obtain w1 where r: "checkBackgroundProcesses w = Returned w1"
    by (auto simp: main_iteration_def split: outcome.splits)
  with assms builtin_exit_never_returns [of "prompt w1" w'] show ?thesis
    by (auto simp: main_iteration_def Let_def split: option.splits if_splits sum.splits)
qed

lemma dispatch_ok_Clearerr: "dispatch_ok e w2 (emit Clearerr w2)"
  by (simp add: dispatch_ok_def new_events_def emit_def)

lemma dispatch_ok_refl: "dispatch_ok e w2 w2"
  by (simp add: dispatch_ok_def new_events_def)

lemma dispatch_ok_cd: "builtin_cd e c w2 = Returned w' \<Longrightarrow> dispatch_ok e w2 w'"
  by (auto simp: dispatch_ok_def new_events_def builtin_cd_def emit_def Let_def split: if_splits)

lemma dispatch_ok_status: "builtin_status w2 = Returned w' \<Longrightarrow> dispatch_ok e w2 w'"
  by (auto simp: dispatch_ok_def new_events_def builtin_status_def emit_def)

lemma dispatch_ok_executeCommand:
  assumes "executeCommand e c w2 = Returned w'"
  shows "dispatch_ok e w2 w'"
  using executeCommand_Returned_cases [OF assms]
  by (cases "wait_status e") (auto simp: dispatch_ok_def new_events_def split: if_splits)

lemma dispatch_ok:
  assumes "main_iteration e w = Returned w'"
  shows "\<exists>w1. checkBackgroundProcesses w = Returned w1 \<and> dispatch_ok e (prompt w1) w'"
  using dispatch_cases [OF assms] dispatch_ok_Clearerr dispatch_ok_refl dispatch_ok_cd
    dispatch_ok_status dispatch_ok_executeCommand
  by metis


text \<open>One turn that comes back to the loop.\<close>

lemma turn_events:
  assumes "main_iteration e w = Returned w'"
  shows "\<exists>w1. checkBackgroundProcesses w = Returned w1 \<and> dispatch_ok e (prompt w1) w' \<and>
     new_events w (Returned w') =
       new_events w (Returned w1) @ [Printf '': '' [], Fflush] @
       new_events (prompt w1) (Returned w') \<and>
     (\<forall>ev \<in> set (new_events w (Returned w1)). is_reap_event ev) \<and>
     polled (new_events w (Returned w1)) = take (bgCount w) (bgProcesses w)"
proof -
  from dispatch_ok [OF assms] obtain w1 where
    r: "checkBackgroundProcesses w = Returned w1" and d: "dispatch_ok e (prompt w1) w'"
    by blast
  from r reap_loop_events [of 0 w w1] obtain evs1 where
    1: "trace w1 = trace w @ evs1" "\<forall>ev \<in> set evs1. is_reap_event ev"
    "polled evs1 = take (bgCount w) (bgProcesses w)"
    by (auto simp: checkBackgroundProcesses_def)
  from d have 2: "trace w' = trace (prompt w1) @ new_events (prompt w1) (Returned w')"
    by (simp add: dispatch_ok_def)
  have 3: "trace (prompt w1) = trace w @ evs1 @ [Printf '': '' [], Fflush]"
    using 1(1) by (simp add: prompt_def)
  have n1: "new_events w (Returned w1) = evs1"
    using 1(1) by (simp add: new_events_def)
  have "new_events w (Returned w') =
      evs1 @ [Printf '': '' [], Fflush] @ new_events (prompt w1) (Returned w')"
    using 2 3 new_events_Returned [of w' w
        "evs1 @ [Printf '': '' [], Fflush] @ new_events (prompt w1) (Returned w')"]
    by simp
  with r d 1 n1 show ?thesis by auto
qed

lemma turn_status:
  assumes "main_iteration e w = Returned w'"
  shows "lastExitStatus w' =
     (if \<exists>p r. Waitpid p False r \<in> set (new_events w (Returned w'))
      then (case wait_status e of WExited x \<Rightarrow> x | WSignaled g \<Rightarrow> g)
      else lastExitStatus w)"
proof -
  from turn_events [OF assms] obtain w1 where
    r: "checkBackgroundProcesses w = Returned w1" and d: "dispatch_ok e (prompt w1) w'"
    and n: "new_events w (Returned w') =
       new_events w (Returned w1) @ [Printf '': '' [], Fflush] @
       new_events (prompt w1) (Returned w')"
    and a: "\<forall>ev \<in> set (new_events w (Returned w1)). is_reap_event ev"
    by blast
  have "Waitpid p False r \<notin> set (new_events w (Returned w1))" for p r
    using a by (auto simp: is_reap_event_def)
  then have "(\<exists>p r. Waitpid p False r \<in> set (new_events w (Returned w'))) \<longleftrightarrow>
      (\<exists>p r. Waitpid p False r \<in> set (new_events (prompt w1) (Returned w')))"
    by (auto simp: n)
  moreover have "lastExitStatus (prompt w1) = lastExitStatus w"
    using checkBackgroundProcesses_grows [OF r] prompt_grows [of w1] by simp
  ultimately show ?thesis
    using d by (simp add: dispatch_ok_def)
qed

lemma turn_keeps_table:
  assumes "main_iteration e w = Returned w'"
  shows "bgCount w \<le> bgCount w' \<and>
     take (bgCount w) (bgProcesses w') = take (bgCount w) (bgProcesses w)"
proof -
  from turn_events [OF assms] obtain w1 where
    r: "checkBackgroundProcesses w = Returned w1" and d: "dispatch_ok e (prompt w1) w'"
    by blast
  from checkBackgroundProcesses_grows [OF r] prompt_grows [of w1]
  have "bgCount (prompt w1) = bgCount w" "bgProcesses (prompt w1) = bgProcesses w"
    by (auto simp: grows_def)
  with d show ?thesis by (simp add: dispatch_ok_def)
qed

lemma turn_polls_table:
  assumes "main_iteration e w = Returned w'"
  shows "polled (new_events w (Returned w')) = take (bgCount w) (bgProcesses w)"
proof -
  from turn_events [OF assms] obtain w1 where
    d: "dispatch_ok e (prompt w1) w'"
    and n: "new_events w (Returned w') =
       new_events w (Returned w1) @ [Printf '': '' [], Fflush] @
       new_events (prompt w1) (Returned w')"
    and p: "polled (new_events w (Returned w1)) = take (bgCount w) (bgProcesses w)"
    by blast
  from d have "polled (new_events (prompt w1) (Returned w')) = []"
    by (simp add: dispatch_ok_def)
  with n p show ?thesis by simp
qed

lemma turn_reports:
  assumes "main_iteration e w = Returned w'" and "bgCount w \<le> length (bgProcesses w)"
  shows "count_list (new_events w (Returned w')) (Printf ''background pid %d is done: '' [pid]) +
       (if children w' pid = None then 0 else 1) \<le>
     (if children w pid = None then 0 else 1) +
       count_list (new_events w (Returned w')) (Fork pid)"
proof -
  from turn_events [OF assms(1)] obtain w1 where
    r: "checkBackgroundProcesses w = Returned w1" and d: "dispatch_ok e (prompt w1) w'"
    and n: "new_events w (Returned w') =
       new_events w (Returned w1) @ [Printf '': '' [], Fflush] @
       new_events (prompt w1) (Returned w')"
    and a: "\<forall>ev \<in> set (new_events w (Returned w1)). is_reap_event ev"
    by blast
  from checkBackgroundProcesses_effect [OF assms(2)] r
  have c1: "count_list (new_events w (Returned w1)) (Printf ''background pid %d is done: '' [pid]) =
        (if 0 < pid \<and> pid \<in> set (take (bgCount w) (bgProcesses w)) \<and>
            is_zombie (children w pid) then 1 else 0)"
    and k1: "children w1 pid =
        (if pid \<in> set (take (bgCount w) (bgProcesses w)) \<and> is_zombie (children w pid)
         then None else children w pid)"
    by auto
  have z: "\<not> is_zombie None" by (simp add: is_zombie_def)
  have s1: "count_list (new_events w (Returned w1)) (Printf ''background pid %d is done: '' [pid]) +
      (if children w1 pid = None then 0 else 1) \<le> (if children w pid = None then 0 else (1::nat))"
    using c1 k1 z by (cases "children w pid = None") auto
  have f1: "count_list (new_events w (Returned w1)) (Fork pid) = 0"
    using a by (auto simp: count_list_0_iff is_reap_event_def)
  from d have d1: "count_list (new_events (prompt w1) (Returned w'))
        (Printf ''background pid %d is done: '' [pid]) = 0"
    and d2: "(if children w' pid = None then 0 else 1) \<le>
        (if children (prompt w1) pid = None then 0 else (1::nat)) +
        count_list (new_events (prompt w1) (Returned w')) (Fork pid)"
    by (auto simp: dispatch_ok_def count_list_0_iff)
  have kp: "children (prompt w1) = children w1" by (simp add: prompt_def)
  from s1 f1 d1 d2 show ?thesis
    unfolding n kp by (simp add: count_list_append)
qed


text \<open>A stretch of a session that comes back to the loop.\<close>

lemma run_status:
  "run ss w = Returned w' \<Longrightarrow>
   \<forall>p r. Waitpid p False r \<notin> set (new_events w (Returned w')) \<Longrightarrow>
   lastExitStatus w' = lastExitStatus w"
proof (induction ss w rule: run.induct)
  case (1 w)
  then show ?case by simp
next
  case (2 ss w)
  let ?w1 = "handle_SIGTSTP w"
  from "2.prems" have r: "run ss ?w1 = Returned w'" by simp
  from new_events_trans [OF _ run_grows [OF r]] handle_SIGTSTP_grows [of w]
  have "new_events w (Returned w') = new_events w (Returned ?w1) @ new_events ?w1 (Returned w')"
    by blast
  with "2.prems"(2) have "\<forall>p r. Waitpid p False r \<notin> set (new_events ?w1 (Returned w'))" by simp
  from "2.IH" [OF r this] show ?case by (simp add: handle_SIGTSTP_def)
next
  case (3 pid st ss w)
  let ?w1 = "child_dies pid st w"
  from "3.prems" have r: "run ss ?w1 = Returned w'" by simp
  have t: "trace ?w1 = trace w" "lastExitStatus ?w1 = lastExitStatus w"
    by (simp_all add: child_dies_def split: option.splits child.splits)
  from t(1) have "new_events ?w1 (Returned w') = new_events w (Returned w')"
    by (simp add: new_events_def)
  with "3.prems"(2) have "\<forall>p r. Waitpid p False r \<notin> set (new_events ?w1 (Returned w'))" by simp
  from "3.IH" [OF r this] t show ?case by simp
next
  case (4 e ss w)
  from "4.prems" obtain w1 where m: "main_iteration e w = Returned w1" and r: "run ss w1 = Returned w'"
    by (auto split: outcome.splits)
  from new_events_trans [OF _ run_grows [OF r]] main_iteration_grows [OF m]
  have n: "new_events w (Returned w') = new_events w (Returned w1) @ new_events w1 (Returned w')"
    by blast
  with "4.prems"(2) have a: "\<forall>p r. Waitpid p False r \<notin> set (new_events w (Returned w1))"
    and b: "\<forall>p r. Waitpid p False r \<notin> set (new_events w1 (Returned w'))"
    by simp_all
  from turn_status [OF m] a have "lastExitStatus w1 = lastExitStatus w" by simp
  with "4.IH" [OF m r b] show ?case by simp
qed

lemma run_keeps_table:
  "run ss w = Returned w' \<Longrightarrow>
   bgCount w \<le> bgCount w' \<and>
   take (bgCount w) (bgProcesses w') = take (bgCount w) (bgProcesses w)"
proof (induction ss w rule: run.induct)
  case (1 w)
  then show ?case by simp
next
  case (2 ss w)
  have "bgCount (handle_SIGTSTP w) = bgCount w" "bgProcesses (handle_SIGTSTP w) = bgProcesses w"
    by (simp_all add: handle_SIGTSTP_def)
  with 2 show ?case by simp
next
  case (3 pid st ss w)
  have "bgCount (child_dies pid st w) = bgCount w"
    "bgProcesses (child_dies pid st w) = bgProcesses w"
    by (simp_all add: child_dies_def split: option.splits child.splits)
  with 3 show ?case by simp
next
  case (4 e ss w)
  from "4.prems" obtain w1 where m: "main_iteration e w = Returned w1" and r: "run ss w1 = Returned w'"
    by (auto split: outcome.splits)
  from turn_keeps_table [OF m] have 1: "bgCount w \<le> bgCount w1"
    "take (bgCount w) (bgProcesses w1) = take (bgCount w) (bgProcesses w)"
    by simp_all
  from "4.IH" [OF m r] have 2: "bgCount w1 \<le> bgCount w'"
    "take (bgCount w1) (bgProcesses w') = take (bgCount w1) (bgProcesses w1)"
    by simp_all
  have "take (bgCount w) (bgProcesses w') = take (bgCount w) (take (bgCount w1) (bgProcesses w'))"
    using 1(1) by (simp add: min_def)
  also have "\<dots> = take (bgCount w) (bgProcesses w1)"
    using 1(1) 2(2) by (simp add: min_def)
  finally show ?case using 1 2 by simp
qed

lemma run_reports:
  "run ss w = Returned w' \<Longrightarrow> bgCount w \<le> length (bgProcesses w) \<Longrightarrow>
   count_list (new_events w (Returned w')) (Printf ''background pid %d is done: '' [pid]) +
       (if children w' pid = None then 0 else 1) \<le>
     (if children w pid = None then 0 else 1) +
       count_list (new_events w (Returned w')) (Fork pid)"
proof (induction ss w rule: run.induct)
  case (1 w)
  then show ?case by (simp add: new_events_def)
next
  case (2 ss w)
  let ?w1 = "handle_SIGTSTP w"
  from "2.prems" have r: "run ss ?w1 = Returned w'" by simp
  from new_events_trans [OF _ run_grows [OF r]] handle_SIGTSTP_grows [of w]
  have n: "new_events w (Returned w') = new_events w (Returned ?w1) @ new_events ?w1 (Returned w')"
    by blast
  have t: "children ?w1 = children w" "bgCount ?w1 = bgCount w" "bgProcesses ?w1 = bgProcesses w"
    "count_list (new_events w (Returned ?w1)) (Printf ''background pid %d is done: '' [pid]) = 0"
    "count_list (new_events w (Returned ?w1)) (Fork pid) = 0"
    by (simp_all add: handle_SIGTSTP_def new_events_def)
  with "2.prems"(2) have "bgCount ?w1 \<le> length (bgProcesses ?w1)" by simp
  from "2.IH" [OF r this] t show ?case
    unfolding n by (simp add: count_list_append)
next
  case (3 pid' st ss w)
  let ?w1 = "child_dies pid' st w"
  from "3.prems" have r: "run ss ?w1 = Returned w'" by simp
  have t: "trace ?w1 = trace w" "bgCount ?w1 = bgCount w" "bgProcesses ?w1 = bgProcesses w"
    "children ?w1 pid = None \<longleftrightarrow> children w pid = None"
    by (auto simp: child_dies_def split: option.splits child.splits)
  from t(1) have n: "new_events ?w1 (Returned w') = new_events w (Returned w')"
    by (simp add: new_events_def)
  from t "3.prems"(2) have "bgCount ?w1 \<le> length (bgProcesses ?w1)" by simp
  from "3.IH" [OF r this] t(4) show ?case
    unfolding n by simp
next
  case (4 e ss w)
  from "4.prems" obtain w1 where m: "main_iteration e w = Returned w1" and r: "run ss w1 = Returned w'"
    by (auto split: outcome.splits)
  from new_events_trans [OF _ run_grows [OF r]] main_iteration_grows [OF m]
  have n: "new_events w (Returned w') = new_events w (Returned w1) @ new_events w1 (Returned w')"
    by blast
  from main_iteration_grows [OF m] "4.prems"(2) have "bgCount w1 \<le> length (bgProcesses w1)"
    by (simp add: grows_def)
  from "4.IH" [OF m r this] turn_reports [OF m "4.prems"(2), of pid] show ?case
    unfolding n by (simp add: count_list_append)
qed


text \<open>One turn, however it ends.\<close>

lemma redirect_input_tail:
  assumes "trace w2 = trace w @ pre"
  shows "case redirect_input e c w2 of
       Returned w3 \<Rightarrow> \<exists>rest. trace w3 = trace w @ pre @ rest \<and>
          (\<forall>pid. Printf ''background pid %d is done: '' [pid] \<notin> set rest)
     | out \<Rightarrow> \<exists>rest. new_events w out = pre @ rest \<and>
          (\<forall>pid. Printf ''background pid %d is done: '' [pid] \<notin> set rest)"
  using assms
  by (auto simp: redirect_input_def Let_def new_events_def split: option.splits)

lemma redirect_output_tail:
  assumes "trace w2 = trace w @ pre"
  shows "case redirect_output e c w2 of
       Returned w3 \<Rightarrow> \<exists>rest. trace w3 = trace w @ pre @ rest \<and>
          (\<forall>pid. Printf ''background pid %d is done: '' [pid] \<notin> set rest)
     | out \<Rightarrow> \<exists>rest. new_events w out = pre @ rest \<and>
          (\<forall>pid. Printf ''background pid %d is done: '' [pid] \<notin> set rest)"
  using assms
  by (auto simp: redirect_output_def Let_def new_events_def split: option.splits)

lemma child_signals_and_exec_tail:
  assumes "trace w2 = trace w @ pre"
  shows "\<exists>rest. new_events w (child_signals_and_exec e c w2) = pre @ rest \<and>
          (\<forall>pid. Printf ''background pid %d is done: '' [pid] \<notin> set rest)"
  using assms
  by (auto simp: child_signals_and_exec_def Let_def new_events_def)

lemma no_done_afterI:
  "new_events w out = pre @ rest \<Longrightarrow>
   \<forall>pid. Printf ''background pid %d is done: '' [pid] \<notin> set rest \<Longrightarrow>
   no_done_after w pre out"
  by (cases out) (auto simp: no_done_after_def)

lemma child_branch_tail:
  assumes "trace w2 = trace w @ pre"
  shows "no_done_after w pre (child_branch e c w2)"
proof (cases "redirect_input e c w2")
  case (Returned w3)
  with redirect_input_tail [OF assms, of e c] obtain r1 where
    1: "trace w3 = trace w @ (pre @ r1)"
    "\<forall>pid. Printf ''background pid %d is done: '' [pid] \<notin> set r1"
    by auto
  show ?thesis
  proof (cases "redirect_output e c w3")
    case out: (Returned w4)
    with redirect_output_tail [OF 1(1), of e c] obtain r2 where
      2: "trace w4 = trace w @ ((pre @ r1) @ r2)"
      "\<forall>pid. Printf ''background pid %d is done: '' [pid] \<notin> set r2"
      by auto
    from child_signals_and_exec_tail [OF 2(1), of e c] obtain r3 where
      3: "new_events w (child_signals_and_exec e c w4) = ((pre @ r1) @ r2) @ r3"
      "\<forall>pid. Printf ''background pid %d is done: '' [pid] \<notin> set r3"
      by blast
    have "new_events w (child_branch e c w2) = pre @ (r1 @ r2 @ r3) \<and>
        (\<forall>pid. Printf ''background pid %d is done: '' [pid] \<notin> set (r1 @ r2 @ r3))"
      using Returned out 1 2 3 by (simp add: child_branch_def)
    then show ?thesis by (blast intro: no_done_afterI)
  next
    case (Exited n w4)
    with redirect_output_tail [OF 1(1), of e c] obtain r2 where
      "new_events w (Exited n w4) = (pre @ r1) @ r2"
      "\<forall>pid. Printf ''background pid %d is done: '' [pid] \<notin> set r2"
      by auto
    with 1 have "new_events w (Exited n w4) = pre @ (r1 @ r2) \<and>
        (\<forall>pid. Printf ''background pid %d is done: '' [pid] \<notin> set (r1 @ r2))"
      by simp
    then have "\<exists>rest. new_events w (Exited n w4) = pre @ rest \<and>
        (\<forall>pid. Printf ''background pid %d is done: '' [pid] \<notin> set rest)"
      by blast
    with Returned Exited show ?thesis
      by (simp add: child_branch_def no_done_after_def)
  next
    case (Execed w4)
    with redirect_output_tail [OF 1(1), of e c] obtain r2 where
      "new_events w (Execed w4) = (pre @ r1) @ r2"
      "\<forall>pid. Printf ''background pid %d is done: '' [pid] \<notin> set r2"
      by auto
    with 1 have "new_events w (Execed w4) = pre @ (r1 @ r2) \<and>
        (\<forall>pid. Printf ''background pid %d is done: '' [pid] \<notin> set (r1 @ r2))"
      by simp
    then have "\<exists>rest. new_events w (Execed w4) = pre @ rest \<and>
        (\<forall>pid. Printf ''background pid %d is done: '' [pid] \<notin> set rest)"
      by blast
    with Returned Execed show ?thesis
      by (simp add: child_branch_def no_done_after_def)
  next
    case (Faulted f)
    with Returned show ?thesis by (simp add: child_branch_def no_done_after_def)
  qed
next
  case (Exited n w3)
  with redirect_input_tail [OF assms, of e c] show ?thesis
    by (simp add: child_branch_def no_done_after_def)
next
  case (Execed w3)
  with redirect_input_tail [OF assms, of e c] show ?thesis
    by (simp add: child_branch_def no_done_after_def)
next
  case (Faulted f)
  then show ?thesis by (simp add: child_branch_def no_done_after_def)
qed

lemma parent_branch_tail:
  assumes "trace w2 = trace w @ pre"
  shows "no_done_after w pre (parent_branch e p c w2)"
  using assms
  by (cases "wait_status e")
    (auto simp: parent_branch_def Let_def new_events_def no_done_after_def)

lemma executeCommand_tail:
  assumes "trace w2 = trace w @ pre"
  shows "no_done_after w pre (executeCommand e c w2)"
proof -
  let ?p = "pre @ [Fork (fork_ret e)]"
  have t: "trace (emit (Fork (fork_ret e)) w2) = trace w @ ?p" using assms by simp
  have ext: "no_done_after w ?p out \<Longrightarrow> no_done_after w pre out" for out
    unfolding no_done_after_def
    by (cases out) (auto intro: exI [of _ "Fork (fork_ret e) # rest" for rest])
  consider "fork_ret e = - 1" | "fork_ret e = 0" | "fork_ret e \<noteq> - 1" "fork_ret e \<noteq> 0" by blast
  then show ?thesis
  proof cases
    case 1
    with assms show ?thesis
      by (simp add: executeCommand_def Let_def no_done_after_def new_events_def)
  next
    case 2
    have "trace ((emit (Fork (fork_ret e)) w2)\<lparr>children := Map.empty\<rparr>) = trace w @ ?p"
      using t by simp
    from ext [OF child_branch_tail [OF this, of e c]] 2 show ?thesis
      by (simp add: executeCommand_def Let_def)
  next
    case 3
    have "trace ((emit (Fork (fork_ret e)) w2)
        \<lparr>children := (children (emit (Fork (fork_ret e)) w2))(fork_ret e \<mapsto> Running)\<rparr>) =
        trace w @ ?p"
      using t by simp
    from ext [OF parent_branch_tail [OF this, of e "fork_ret e" c]] 3 show ?thesis
      by (simp add: executeCommand_def Let_def)
  qed
qed


lemma no_done_after_ext:
  assumes "no_done_after w (pre @ mid) out"
    and "\<forall>pid. Printf ''background pid %d is done: '' [pid] \<notin> set mid"
  shows "no_done_after w pre out"
proof (cases out)
  case (Faulted f)
  then show ?thesis by (simp add: no_done_after_def)
next
  case (Returned w')
  with assms(1) obtain rest where "new_events w out = pre @ (mid @ rest)"
    "\<forall>pid. Printf ''background pid %d is done: '' [pid] \<notin> set rest"
    by (auto simp: no_done_after_def)
  with assms(2) show ?thesis by (intro no_done_afterI [of w out pre "mid @ rest"]) auto
next
  case (Exited n w')
  with assms(1) obtain rest where "new_events w out = pre @ (mid @ rest)"
    "\<forall>pid. Printf ''background pid %d is done: '' [pid] \<notin> set rest"
    by (auto simp: no_done_after_def)
  with assms(2) show ?thesis by (intro no_done_afterI [of w out pre "mid @ rest"]) auto
next
  case (Execed w')
  with assms(1) obtain rest where "new_events w out = pre @ (mid @ rest)"
    "\<forall>pid. Printf ''background pid %d is done: '' [pid] \<notin> set rest"
    by (auto simp: no_done_after_def)
  with assms(2) show ?thesis by (intro no_done_afterI [of w out pre "mid @ rest"]) auto
qed

lemma builtins_tail:
  assumes "trace w2 = trace w @ pre" and "bgCount w2 \<le> length (bgProcesses w2)"
  shows "no_done_after w pre (builtin_exit w2)" "no_done_after w pre (builtin_cd e c w2)"
    "no_done_after w pre (builtin_status w2)" "no_done_after w pre (Returned w2)"
    "no_done_after w pre (Returned (emit Clearerr w2))"
  using assms builtin_exit_result [OF assms(2)]
  by (auto simp: no_done_after_def new_events_def builtin_cd_def builtin_status_def Let_def)

lemma main_iteration_tail:
  assumes r: "checkBackgroundProcesses w = Returned w1" and t: "trace w1 = trace w @ evs1"
    and b: "bgCount w1 \<le> length (bgProcesses w1)"
  shows "no_done_after w evs1 (main_iteration e w)"
proof -
  let ?w2 = "prompt w1"
  let ?pre = "evs1 @ [Printf '': '' [], Fflush]"
  have p: "trace ?w2 = trace w @ ?pre" "bgCount ?w2 \<le> length (bgProcesses ?w2)"
    using b t by (simp_all add: prompt_def)
  have "no_done_after w ?pre (main_iteration e w)"
    using r builtins_tail [OF p] executeCommand_tail [OF p(1)]
    by (auto simp: main_iteration_def Let_def no_done_after_def
        split: option.splits sum.splits)
  then show ?thesis by (rule no_done_after_ext) simp
qed


lemma turn_reports_any:
  assumes "bgCount w \<le> length (bgProcesses w)"
  shows "count_list (new_events w (main_iteration e w))
           (Printf ''background pid %d is done: '' [pid]) \<le>
         (if children w pid = None then 0 else 1)"
proof -
  from checkBackgroundProcesses_effect [OF assms] obtain w1 where
    r: "checkBackgroundProcesses w = Returned w1"
    and tb: "bgProcesses w1 = bgProcesses w" "bgCount w1 = bgCount w"
    and c: "count_list (new_events w (Returned w1)) (Printf ''background pid %d is done: '' [pid]) =
        (if 0 < pid \<and> pid \<in> set (take (bgCount w) (bgProcesses w)) \<and>
            is_zombie (children w pid) then 1 else 0)"
    by blast
  from r reap_loop_events [of 0 w w1] obtain evs1 where t: "trace w1 = trace w @ evs1"
    by (auto simp: checkBackgroundProcesses_def)
  from t have n1: "new_events w (Returned w1) = evs1" by (simp add: new_events_def)
  from tb assms have b: "bgCount w1 \<le> length (bgProcesses w1)" by simp
  have z: "\<not> is_zombie None" by (simp add: is_zombie_def)
  have c1: "count_list evs1 (Printf ''background pid %d is done: '' [pid]) \<le>
      (if children w pid = None then 0 else 1)"
    using c z unfolding n1 by (cases "children w pid = None") auto
  show ?thesis
  proof (cases "main_iteration e w")
    case (Faulted f)
    then show ?thesis by (simp add: new_events_def)
  next
    case (Returned w')
    with main_iteration_tail [OF r t b, of e] obtain rest where
      "new_events w (main_iteration e w) = evs1 @ rest"
      "\<forall>pid. Printf ''background pid %d is done: '' [pid] \<notin> set rest"
      by (auto simp: no_done_after_def)
    with c1 show ?thesis by (simp add: count_list_append count_list_0_iff)
  next
    case (Exited n w')
    with main_iteration_tail [OF r t b, of e] obtain rest where
      "new_events w (main_iteration e w) = evs1 @ rest"
      "\<forall>pid. Printf ''background pid %d is done: '' [pid] \<notin> set rest"
      by (auto simp: no_done_after_def)
    with c1 show ?thesis by (simp add: count_list_append count_list_0_iff)
  next
    case (Execed w')
    with main_iteration_tail [OF r t b, of e] obtain rest where
      "new_events w (main_iteration e w) = evs1 @ rest"
      "\<forall>pid. Printf ''background pid %d is done: '' [pid] \<notin> set rest"
      by (auto simp: no_done_after_def)
    with c1 show ?thesis by (simp add: count_list_append count_list_0_iff)
  qed
qed


lemma main_iteration_status:
  assumes "bgCount w \<le> length (bgProcesses w)" and "fgets_ret e = Some input"
    and "\<not> comment_or_blank input" and "parse_line input = Inr c"
    and "args c \<noteq> []" and "args c ! 0 = ''status''"
  shows "\<exists>w1. checkBackgroundProcesses w = Returned w1 \<and>
     main_iteration e w =
       Returned (emit Fflush (emit (Printf ''exit value %d\<newline>'' [lastExitStatus w]) (prompt w1)))"
proof -
  from assms(1) obtain w1 where r: "checkBackgroundProcesses w = Returned w1"
    using checkBackgroundProcesses_total [of w] by auto
  from checkBackgroundProcesses_grows [OF r] prompt_grows [of w1]
  have "lastExitStatus (prompt w1) = lastExitStatus w" by simp
  with assms r show ?thesis
    by (simp add: main_iteration_def Let_def builtin_status_def)
qed

lemma no_blocking_wait:
  "list_all (\<lambda>ev. case ev of Waitpid p nohang r \<Rightarrow> nohang | _ \<Rightarrow> True) xs \<Longrightarrow>
   \<forall>p r. Waitpid p False r \<notin> set xs"
  by (force simp: list_all_iff)

subsection \<open>The stored status over a session\<close>

text \<open>
  Claim C4, as amended.  The shell that waits for a foreground child stores one
  plain integer: the exit code of a child that exited, the signal number of a
  child that a signal terminated (only the latter is announced, as
  \<^verbatim>\<open>terminated by signal n\<close>, at that moment).  The \<open>status\<close> built-in prints the stored
  integer as \<^verbatim>\<open>exit value n\<close>, whichever of the two it is.  Nothing else writes the
  stored integer: a turn of the loop that comes back changes it exactly when it has
  waited for a foreground child, and then to the number of that child; reaping
  background children, launching a background job, \<open>cd\<close>, \<open>status\<close>, blank lines and
  comments, \<^verbatim>\<open>SIGTSTP\<close> and the death of a child leave it as it is.  So a stretch of a
  session in which no foreground child is waited for keeps the value; \<open>status\<close> after
  such a stretch prints the number of the last foreground child; and as long as the
  shell has waited for no foreground child since it started, \<open>status\<close> prints 0.  A
  line \<^verbatim>\<open>status\<close> makes the turn print the value the turn started with.
\<close>

theorem C4_status_reports_untagged_number:
  "(0 < fork_ret e \<and> \<not> (background c \<and> \<not> foregroundOnly w) \<longrightarrow>
      (\<exists>w'. executeCommand e c w = Returned w' \<and>
         lastExitStatus w' = (case wait_status e of WExited x \<Rightarrow> x | WSignaled g \<Rightarrow> g) \<and>
         (Printf ''terminated by signal %d\<newline>'' [n] \<in> set (new_events w (Returned w'))
            \<longleftrightarrow> wait_status e = WSignaled n))) \<and>
   new_events w (builtin_status w) = [Printf ''exit value %d\<newline>'' [lastExitStatus w], Fflush] \<and>
   new_events init_world (builtin_status init_world) = [Printf ''exit value %d\<newline>'' [0], Fflush] \<and>
   (main_iteration e w = Returned v \<longrightarrow>
      lastExitStatus v =
        (if \<exists>p r. Waitpid p False r \<in> set (new_events w (Returned v))
         then (case wait_status e of WExited x \<Rightarrow> x | WSignaled g \<Rightarrow> g)
         else lastExitStatus w)) \<and>
   (run ss w = Returned v \<and> (\<forall>p r. Waitpid p False r \<notin> set (new_events w (Returned v))) \<longrightarrow>
      lastExitStatus v = lastExitStatus w) \<and>
   (main_iteration e w = Returned v \<and>
    (\<exists>p r. Waitpid p False r \<in> set (new_events w (Returned v))) \<and>
    run ss v = Returned u \<and> (\<forall>p r. Waitpid p False r \<notin> set (new_events v (Returned u))) \<longrightarrow>
      new_events u (builtin_status u) =
        [Printf ''exit value %d\<newline>''
           [case wait_status e of WExited x \<Rightarrow> x | WSignaled g \<Rightarrow> g], Fflush]) \<and>
   (run ss init_world = Returned u \<and> (\<forall>p r. Waitpid p False r \<notin> set (trace u)) \<longrightarrow>
      new_events u (builtin_status u) = [Printf ''exit value %d\<newline>'' [0], Fflush]) \<and>
   (bgCount w \<le> length (bgProcesses w) \<and> fgets_ret e = Some input \<and>
    \<not> comment_or_blank input \<and> parse_line input = Inr c \<and> args c \<noteq> [] \<and>
    args c ! 0 = ''status'' \<longrightarrow>
      (\<exists>w1. checkBackgroundProcesses w = Returned w1 \<and>
         main_iteration e w =
           Returned (emit Fflush
             (emit (Printf ''exit value %d\<newline>'' [lastExitStatus w]) (prompt w1)))))"
proof (intro conjI impI)
  assume a: "0 < fork_ret e \<and> \<not> (background c \<and> \<not> foregroundOnly w)"
  show "\<exists>w'. executeCommand e c w = Returned w' \<and>
         lastExitStatus w' = (case wait_status e of WExited x \<Rightarrow> x | WSignaled g \<Rightarrow> g) \<and>
         (Printf ''terminated by signal %d\<newline>'' [n] \<in> set (new_events w (Returned w'))
            \<longleftrightarrow> wait_status e = WSignaled n)"
    using a by (cases "wait_status e") (auto simp: executeCommand_foreground new_events_def)
next
  show "new_events w (builtin_status w) = [Printf ''exit value %d\<newline>'' [lastExitStatus w], Fflush]"
    by (simp add: new_events_def builtin_status_def)
next
  show "new_events init_world (builtin_status init_world) = [Printf ''exit value %d\<newline>'' [0], Fflush]"
    by (simp add: new_events_def builtin_status_def init_world_def)
next
  assume "main_iteration e w = Returned v"
  then show "lastExitStatus v =
        (if \<exists>p r. Waitpid p False r \<in> set (new_events w (Returned v))
         then (case wait_status e of WExited x \<Rightarrow> x | WSignaled g \<Rightarrow> g)
         else lastExitStatus w)"
    by (rule turn_status)
next
  assume "run ss w = Returned v \<and> (\<forall>p r. Waitpid p False r \<notin> set (new_events w (Returned v)))"
  then show "lastExitStatus v = lastExitStatus w"
    using run_status [of ss w v] by blast
next
  assume a: "main_iteration e w = Returned v \<and>
    (\<exists>p r. Waitpid p False r \<in> set (new_events w (Returned v))) \<and>
    run ss v = Returned u \<and> (\<forall>p r. Waitpid p False r \<notin> set (new_events v (Returned u)))"
  then have "lastExitStatus v = (case wait_status e of WExited x \<Rightarrow> x | WSignaled g \<Rightarrow> g)"
    using turn_status [of e w v] by auto
  moreover from a have "lastExitStatus u = lastExitStatus v"
    using run_status [of ss v u] by blast
  ultimately show "new_events u (builtin_status u) =
        [Printf ''exit value %d\<newline>''
           [case wait_status e of WExited x \<Rightarrow> x | WSignaled g \<Rightarrow> g], Fflush]"
    by (simp add: new_events_def builtin_status_def)
next
  assume a: "run ss init_world = Returned u \<and> (\<forall>p r. Waitpid p False r \<notin> set (trace u))"
  then have g: "grows init_world u" using run_grows [of ss init_world u] by blast
  then obtain evs where "trace u = trace init_world @ evs" unfolding grows_def by blast
  with a have "\<forall>p r. Waitpid p False r \<notin> set (new_events init_world (Returned u))"
    by (simp add: new_events_def)
  with a have "lastExitStatus u = lastExitStatus init_world"
    using run_status [of ss init_world u] by blast
  then show "new_events u (builtin_status u) = [Printf ''exit value %d\<newline>'' [0], Fflush]"
    by (simp add: new_events_def builtin_status_def init_world_def)
next
  assume "bgCount w \<le> length (bgProcesses w) \<and> fgets_ret e = Some input \<and>
    \<not> comment_or_blank input \<and> parse_line input = Inr c \<and> args c \<noteq> [] \<and>
    args c ! 0 = ''status''"
  then show "\<exists>w1. checkBackgroundProcesses w = Returned w1 \<and>
         main_iteration e w =
           Returned (emit Fflush
             (emit (Printf ''exit value %d\<newline>'' [lastExitStatus w]) (prompt w1)))"
    using main_iteration_status [of w e input c] by blast
qed

theorem C4_status_reports_untagged_number_witness:
  "0 < fork_ret (quiet_env\<lparr>fork_ret := 7, wait_status := WSignaled 2\<rparr>) \<and>
   \<not> (background (empty_cmd\<lparr>args := [''sleep'', ''9'']\<rparr>) \<and> \<not> foregroundOnly init_world) \<and>
   (\<exists>w'. executeCommand (quiet_env\<lparr>fork_ret := 7, wait_status := WSignaled 2\<rparr>)
            (empty_cmd\<lparr>args := [''sleep'', ''9'']\<rparr>) init_world = Returned w' \<and>
      lastExitStatus w' = 2 \<and>
      Printf ''terminated by signal %d\<newline>'' [2] \<in> set (new_events init_world (Returned w'))) \<and>
   (\<exists>u. run [Turn (quiet_env\<lparr>fgets_ret := Some ''sleep 5 &\<newline>'', fork_ret := 7\<rparr>),
             ChildDies 7 (WExited 3),
             Turn (quiet_env\<lparr>fgets_ret := Some ''\<newline>''\<rparr>),
             Tstp,
             Turn (quiet_env\<lparr>fgets_ret := Some ''cd /tmp\<newline>''\<rparr>),
             Turn (quiet_env\<lparr>fgets_ret := Some ''status\<newline>''\<rparr>)] init_world = Returned u \<and>
      (\<forall>p r. Waitpid p False r \<notin> set (trace u)) \<and>
      Printf ''background pid %d is done: '' [7] \<in> set (trace u) \<and>
      lastExitStatus u = lastExitStatus init_world \<and>
      new_events u (builtin_status u) = [Printf ''exit value %d\<newline>'' [0], Fflush]) \<and>
   (\<exists>v u. main_iteration
             (quiet_env\<lparr>fgets_ret := Some ''sleep 9\<newline>'', fork_ret := 7,
                wait_status := WSignaled 2\<rparr>) init_world = Returned v \<and>
      Waitpid 7 False 7 \<in> set (new_events init_world (Returned v)) \<and>
      lastExitStatus v = 2 \<and>
      run [Turn (quiet_env\<lparr>fgets_ret := Some ''sleep 5 &\<newline>'', fork_ret := 8\<rparr>),
           ChildDies 8 (WExited 3),
           Turn (quiet_env\<lparr>fgets_ret := Some ''cd\<newline>''\<rparr>)] v = Returned u \<and>
      (\<forall>p r. Waitpid p False r \<notin> set (new_events v (Returned u))) \<and>
      new_events u (builtin_status u) = [Printf ''exit value %d\<newline>'' [2], Fflush]) \<and>
   bgCount init_world \<le> length (bgProcesses init_world) \<and>
   \<not> comment_or_blank ''status\<newline>'' \<and>
   parse_line ''status\<newline>'' = Inr (empty_cmd\<lparr>args := [''status'']\<rparr>) \<and>
   (\<exists>w1. checkBackgroundProcesses init_world = Returned w1 \<and>
      main_iteration (quiet_env\<lparr>fgets_ret := Some ''status\<newline>''\<rparr>) init_world =
        Returned (emit Fflush (emit (Printf ''exit value %d\<newline>'' [0]) (prompt w1))))"
proof -
  let ?e = "quiet_env\<lparr>fork_ret := 7, wait_status := WSignaled 2\<rparr>"
  let ?c = "empty_cmd\<lparr>args := [''sleep'', ''9'']\<rparr>"
  let ?ss1 = "[Turn (quiet_env\<lparr>fgets_ret := Some ''sleep 5 &\<newline>'', fork_ret := 7\<rparr>),
             ChildDies 7 (WExited 3),
             Turn (quiet_env\<lparr>fgets_ret := Some ''\<newline>''\<rparr>),
             Tstp,
             Turn (quiet_env\<lparr>fgets_ret := Some ''cd /tmp\<newline>''\<rparr>),
             Turn (quiet_env\<lparr>fgets_ret := Some ''status\<newline>''\<rparr>)]"
  let ?e2 = "quiet_env\<lparr>fgets_ret := Some ''sleep 9\<newline>'', fork_ret := 7,
                wait_status := WSignaled 2\<rparr>"
  let ?ss2 = "[Turn (quiet_env\<lparr>fgets_ret := Some ''sleep 5 &\<newline>'', fork_ret := 8\<rparr>),
           ChildDies 8 (WExited 3),
           Turn (quiet_env\<lparr>fgets_ret := Some ''cd\<newline>''\<rparr>)]"
  have 1: "0 < fork_ret ?e \<and> \<not> (background ?c \<and> \<not> foregroundOnly init_world) \<and>
   (\<exists>w'. executeCommand ?e ?c init_world = Returned w' \<and> lastExitStatus w' = 2 \<and>
      Printf ''terminated by signal %d\<newline>'' [2] \<in> set (new_events init_world (Returned w')))"
    using C4_status_reports_untagged_number [of ?e ?c init_world 2]
    by (simp add: quiet_env_def empty_cmd_def)
  have "case run ?ss1 init_world of
      Returned u \<Rightarrow>
        list_all (\<lambda>ev. case ev of Waitpid p nohang r \<Rightarrow> nohang | _ \<Rightarrow> True) (trace u) \<and>
        Printf ''background pid %d is done: '' [7] \<in> set (trace u)
    | _ \<Rightarrow> False"
    by code_simp
  then obtain u1 where u1: "run ?ss1 init_world = Returned u1"
    "list_all (\<lambda>ev. case ev of Waitpid p nohang r \<Rightarrow> nohang | _ \<Rightarrow> True) (trace u1)"
    "Printf ''background pid %d is done: '' [7] \<in> set (trace u1)"
    by (cases "run ?ss1 init_world") auto
  from no_blocking_wait [OF u1(2)] have nb1: "\<forall>p r. Waitpid p False r \<notin> set (trace u1)" .
  have nb1': "\<forall>p r. Waitpid p False r \<notin> set (new_events init_world (Returned u1))"
    using nb1 by (auto simp: new_events_def dest: in_set_dropD)
  from C4_status_reports_untagged_number [of _ _ init_world _ u1 ?ss1 u1] u1(1) nb1 nb1'
  have 2: "lastExitStatus u1 = lastExitStatus init_world \<and>
      new_events u1 (builtin_status u1) = [Printf ''exit value %d\<newline>'' [0], Fflush]"
    by blast
  have "case main_iteration ?e2 init_world of
      Returned v \<Rightarrow>
        Waitpid 7 False 7 \<in> set (new_events init_world (Returned v)) \<and>
        (case run ?ss2 v of
           Returned u \<Rightarrow>
             list_all (\<lambda>ev. case ev of Waitpid p nohang r \<Rightarrow> nohang | _ \<Rightarrow> True)
               (new_events v (Returned u))
         | _ \<Rightarrow> False)
    | _ \<Rightarrow> False"
    by code_simp
  then obtain v u2 where v: "main_iteration ?e2 init_world = Returned v"
    "Waitpid 7 False 7 \<in> set (new_events init_world (Returned v))"
    "run ?ss2 v = Returned u2"
    "list_all (\<lambda>ev. case ev of Waitpid p nohang r \<Rightarrow> nohang | _ \<Rightarrow> True)
       (new_events v (Returned u2))"
    by (cases "main_iteration ?e2 init_world"; cases "run ?ss2 (case main_iteration ?e2 init_world of Returned v \<Rightarrow> v)")
      auto
  from no_blocking_wait [OF v(4)]
  have nb2: "\<forall>p r. Waitpid p False r \<notin> set (new_events v (Returned u2))" .
  have ws: "wait_status ?e2 = WSignaled 2" by (simp add: quiet_env_def)
  from C4_status_reports_untagged_number [of ?e2 _ init_world _ v ?ss2 u2] v nb2 ws
  have 3: "lastExitStatus v = 2 \<and>
      new_events u2 (builtin_status u2) = [Printf ''exit value %d\<newline>'' [2], Fflush]"
    by auto
  let ?st = "quiet_env\<lparr>fgets_ret := Some ''status\<newline>''\<rparr>"
  let ?sc = "empty_cmd\<lparr>args := [''status'']\<rparr>"
  have p1: "bgCount init_world \<le> length (bgProcesses init_world)"
    by (simp add: init_world_def)
  have p2: "\<not> comment_or_blank ''status\<newline>''" by code_simp
  have p3: "parse_line ''status\<newline>'' = Inr ?sc" by code_simp
  have p4: "fgets_ret ?st = Some ''status\<newline>''" "args ?sc \<noteq> []" "args ?sc ! 0 = ''status''"
    by (simp_all add: quiet_env_def empty_cmd_def)
  have p5: "lastExitStatus init_world = 0" by (simp add: init_world_def)
  from C4_status_reports_untagged_number
    [where w = init_world and e = ?st and input = "''status\<newline>''" and c = ?sc,
      THEN conjunct2, THEN conjunct2, THEN conjunct2, THEN conjunct2, THEN conjunct2,
      THEN conjunct2, THEN conjunct2] p1 p2 p3 p4
  have "\<exists>w1. checkBackgroundProcesses init_world = Returned w1 \<and>
      main_iteration ?st init_world =
        Returned (emit Fflush
          (emit (Printf ''exit value %d\<newline>'' [lastExitStatus init_world]) (prompt w1)))"
    by blast
  then have 4: "\<exists>w1. checkBackgroundProcesses init_world = Returned w1 \<and>
      main_iteration ?st init_world =
        Returned (emit Fflush (emit (Printf ''exit value %d\<newline>'' [0]) (prompt w1)))"
    unfolding p5 .
  from 1 u1 nb1 2 v nb2 3 have "(0 < fork_ret ?e \<and> \<not> (background ?c \<and> \<not> foregroundOnly init_world) \<and>
   (\<exists>w'. executeCommand ?e ?c init_world = Returned w' \<and> lastExitStatus w' = 2 \<and>
      Printf ''terminated by signal %d\<newline>'' [2] \<in> set (new_events init_world (Returned w'))) \<and>
   (\<exists>u. run ?ss1 init_world = Returned u \<and>
      (\<forall>p r. Waitpid p False r \<notin> set (trace u)) \<and>
      Printf ''background pid %d is done: '' [7] \<in> set (trace u) \<and>
      lastExitStatus u = lastExitStatus init_world \<and>
      new_events u (builtin_status u) = [Printf ''exit value %d\<newline>'' [0], Fflush]) \<and>
   (\<exists>v u. main_iteration ?e2 init_world = Returned v \<and>
      Waitpid 7 False 7 \<in> set (new_events init_world (Returned v)) \<and>
      lastExitStatus v = 2 \<and>
      run ?ss2 v = Returned u \<and>
      (\<forall>p r. Waitpid p False r \<notin> set (new_events v (Returned u))) \<and>
      new_events u (builtin_status u) = [Printf ''exit value %d\<newline>'' [2], Fflush]))"
    by blast
  with p1 p2 p3 4 show ?thesis by simp
qed

subsection \<open>Reported children over a session\<close>

text \<open>A turn reports only tracked children that have terminated; once it has, the child
  is not reported again while its process id is not handed out again.\<close>

lemma turn_report_tracked:
  assumes m: "main_iteration e w = Returned v" and b: "bgCount w \<le> length (bgProcesses w)"
    and d: "Printf ''background pid %d is done: '' [pid] \<in> set (new_events w (Returned v))"
  shows "0 < pid \<and> pid \<in> set (take (bgCount w) (bgProcesses w)) \<and> is_zombie (children w pid)"
proof -
  from turn_events [OF m] obtain w1 where
    r: "checkBackgroundProcesses w = Returned w1" and k: "dispatch_ok e (prompt w1) v"
    and n: "new_events w (Returned v) =
       new_events w (Returned w1) @ [Printf '': '' [], Fflush] @
       new_events (prompt w1) (Returned v)"
    by blast
  from k have "Printf ''background pid %d is done: '' [pid] \<notin>
      set (new_events (prompt w1) (Returned v))"
    by (simp add: dispatch_ok_def)
  with d n have "Printf ''background pid %d is done: '' [pid] \<in> set (new_events w (Returned w1))"
    by auto
  then have "count_list (new_events w (Returned w1))
      (Printf ''background pid %d is done: '' [pid]) \<noteq> 0"
    by (simp add: count_list_0_iff)
  moreover from checkBackgroundProcesses_effect [OF b] r
  have "count_list (new_events w (Returned w1)) (Printf ''background pid %d is done: '' [pid]) =
        (if 0 < pid \<and> pid \<in> set (take (bgCount w) (bgProcesses w)) \<and>
            is_zombie (children w pid) then 1 else 0)"
    by auto
  ultimately show ?thesis by (auto split: if_splits)
qed

lemma reported_never_again:
  assumes b: "bgCount w \<le> length (bgProcesses w)"
    and m: "main_iteration e w = Returned v"
    and d: "Printf ''background pid %d is done: '' [pid] \<in> set (new_events w (Returned v))"
    and f: "Fork pid \<notin> set (new_events w (Returned v))"
    and r: "run ss v = Returned u"
    and g: "Fork pid \<notin> set (new_events v (Returned u))"
  shows "children v pid = None"
    "Printf ''background pid %d is done: '' [pid] \<notin> set (new_events v (Returned u))"
    "children u pid = None"
    "pid \<in> set (take (bgCount u) (bgProcesses u))"
    "Printf ''background pid %d is done: '' [pid] \<notin> set (new_events u (main_iteration e' u))"
    "main_iteration e' u = Returned t \<Longrightarrow> pid \<in> set (polled (new_events u (Returned t)))"
proof -
  from d have d1: "1 \<le> count_list (new_events w (Returned v))
      (Printf ''background pid %d is done: '' [pid])"
    using count_list_0_iff [of "new_events w (Returned v)"
        "Printf ''background pid %d is done: '' [pid]"]
    by arith
  from f have f0: "count_list (new_events w (Returned v)) (Fork pid) = 0"
    by (simp add: count_list_0_iff)
  from turn_reports [OF m b, of pid] d1 f0 show kv: "children v pid = None"
    by (cases "children v pid = None"; cases "children w pid = None") simp_all
  from main_iteration_grows [OF m] b have bv: "bgCount v \<le> length (bgProcesses v)"
    by (simp add: grows_def)
  from g have g0: "count_list (new_events v (Returned u)) (Fork pid) = 0"
    by (simp add: count_list_0_iff)
  from run_reports [OF r bv, of pid] kv g0
  have c: "count_list (new_events v (Returned u))
      (Printf ''background pid %d is done: '' [pid]) = 0" and ku: "children u pid = None"
    by (cases "children u pid = None"; simp)+
  from c show "Printf ''background pid %d is done: '' [pid] \<notin> set (new_events v (Returned u))"
    by (simp add: count_list_0_iff)
  from ku show "children u pid = None" .
  from turn_report_tracked [OF m b d] have tr: "pid \<in> set (take (bgCount w) (bgProcesses w))"
    by simp
  from turn_keeps_table [OF m] have 1: "bgCount w \<le> bgCount v"
    "take (bgCount w) (bgProcesses v) = take (bgCount w) (bgProcesses w)"
    by simp_all
  from run_keeps_table [OF r] have 2: "bgCount v \<le> bgCount u"
    "take (bgCount v) (bgProcesses u) = take (bgCount v) (bgProcesses v)"
    by simp_all
  from tr 1 have "pid \<in> set (take (bgCount v) (bgProcesses v))"
    using set_take_subset_set_take [of "bgCount w" "bgCount v" "bgProcesses v"] by auto
  with 2 show tu: "pid \<in> set (take (bgCount u) (bgProcesses u))"
    using set_take_subset_set_take [of "bgCount v" "bgCount u" "bgProcesses u"] by auto
  from run_grows [OF r] bv have bu: "bgCount u \<le> length (bgProcesses u)"
    by (simp add: grows_def)
  from turn_reports_any [OF bu, of e' pid] ku
  show "Printf ''background pid %d is done: '' [pid] \<notin> set (new_events u (main_iteration e' u))"
    by (simp add: count_list_0_iff)
  assume "main_iteration e' u = Returned t"
  from turn_polls_table [OF this] tu
  show "pid \<in> set (polled (new_events u (Returned t)))" by simp
qed

text \<open>
  Claim C2, as amended.  A reap cycle never removes a handle: it returns with
  \<open>bgProcesses\<close> and \<open>bgCount\<close> as they were.  It prints \<^verbatim>\<open>background pid %d is done\<close>
  exactly once for each tracked positive process id that has terminated and has
  not been waited for, and for no other; the kernel then no longer holds those
  children, so the cycle that follows at once reports nothing, though it polls the
  same table.  The table holds distinct handles after a background job is
  tracked provided it did before and \<^verbatim>\<open>fork()\<close> returned an id that is not in it.

  Over a session: every turn that comes back to the loop polls exactly the tracked
  handles, in the order of the table; no stretch of a session changes the tracked
  part of the table, it only adds handles behind it.  For every process id, the
  completions reported in a stretch of a session, plus one if the kernel holds a
  child of that id at its end, are at most the times \<^verbatim>\<open>fork()\<close> returned that id in
  the stretch, plus one if the kernel held a child of that id at its start; and a
  single turn, however it ends, reports a process id at most once, and only if the
  kernel holds a child of that id.  Hence, once a turn has reported a process id,
  no later turn reports it again, whether that turn comes back to the loop or not,
  as long as \<^verbatim>\<open>fork()\<close> does not return that id again; all the while the handle stays
  in the table and every turn polls it.
\<close>

theorem C2_reaped_handle_is_reported_once_and_kept:
  "(bgCount w \<le> length (bgProcesses w) \<longrightarrow>
      (\<exists>w'. checkBackgroundProcesses w = Returned w' \<and>
         bgProcesses w' = bgProcesses w \<and> bgCount w' = bgCount w \<and>
         (\<forall>pid. count_list (new_events w (Returned w'))
                   (Printf ''background pid %d is done: '' [pid]) =
            (if 0 < pid \<and> pid \<in> set (take (bgCount w) (bgProcesses w)) \<and>
                is_zombie (children w pid) then 1 else 0)) \<and>
         (\<forall>pid. children w' pid =
            (if pid \<in> set (take (bgCount w) (bgProcesses w)) \<and> is_zombie (children w pid)
             then None else children w pid)) \<and>
         (\<exists>w''. checkBackgroundProcesses w' = Returned w'' \<and>
            bgProcesses w'' = bgProcesses w \<and> bgCount w'' = bgCount w \<and>
            (\<forall>pid. count_list (new_events w' (Returned w''))
                      (Printf ''background pid %d is done: '' [pid]) = 0)))) \<and>
   (0 < fork_ret e \<and> background c \<and> \<not> foregroundOnly w \<and>
    bgCount w < length (bgProcesses w) \<and>
    distinct (take (bgCount w) (bgProcesses w)) \<and>
    fork_ret e \<notin> set (take (bgCount w) (bgProcesses w)) \<longrightarrow>
      (\<exists>w'. executeCommand e c w = Returned w' \<and>
         distinct (take (bgCount w') (bgProcesses w')))) \<and>
   (main_iteration e w = Returned v \<longrightarrow>
      polled (new_events w (Returned v)) = take (bgCount w) (bgProcesses w)) \<and>
   (run ss w = Returned v \<longrightarrow>
      bgCount w \<le> bgCount v \<and>
      take (bgCount w) (bgProcesses v) = take (bgCount w) (bgProcesses w)) \<and>
   (bgCount w \<le> length (bgProcesses w) \<and> run ss w = Returned v \<longrightarrow>
      count_list (new_events w (Returned v)) (Printf ''background pid %d is done: '' [pid]) +
          (if children v pid = None then 0 else 1) \<le>
        (if children w pid = None then 0 else 1) +
          count_list (new_events w (Returned v)) (Fork pid)) \<and>
   (bgCount w \<le> length (bgProcesses w) \<longrightarrow>
      count_list (new_events w (main_iteration e w))
          (Printf ''background pid %d is done: '' [pid]) \<le>
        (if children w pid = None then 0 else 1)) \<and>
   (bgCount w \<le> length (bgProcesses w) \<and> main_iteration e w = Returned v \<and>
    Printf ''background pid %d is done: '' [pid] \<in> set (new_events w (Returned v)) \<and>
    Fork pid \<notin> set (new_events w (Returned v)) \<and>
    run ss v = Returned u \<and> Fork pid \<notin> set (new_events v (Returned u)) \<longrightarrow>
      children v pid = None \<and>
      Printf ''background pid %d is done: '' [pid] \<notin> set (new_events v (Returned u)) \<and>
      children u pid = None \<and>
      pid \<in> set (take (bgCount u) (bgProcesses u)) \<and>
      Printf ''background pid %d is done: '' [pid] \<notin> set (new_events u (main_iteration e' u)) \<and>
      (main_iteration e' u = Returned t \<longrightarrow>
         pid \<in> set (polled (new_events u (Returned t)))))"
proof -
  have A: "(bgCount w \<le> length (bgProcesses w) \<longrightarrow>
      (\<exists>w'. checkBackgroundProcesses w = Returned w' \<and>
         bgProcesses w' = bgProcesses w \<and> bgCount w' = bgCount w \<and>
         (\<forall>pid. count_list (new_events w (Returned w'))
                   (Printf ''background pid %d is done: '' [pid]) =
            (if 0 < pid \<and> pid \<in> set (take (bgCount w) (bgProcesses w)) \<and>
                is_zombie (children w pid) then 1 else 0)) \<and>
         (\<forall>pid. children w' pid =
            (if pid \<in> set (take (bgCount w) (bgProcesses w)) \<and> is_zombie (children w pid)
             then None else children w pid)) \<and>
         (\<exists>w''. checkBackgroundProcesses w' = Returned w'' \<and>
            bgProcesses w'' = bgProcesses w \<and> bgCount w'' = bgCount w \<and>
            (\<forall>pid. count_list (new_events w' (Returned w''))
                      (Printf ''background pid %d is done: '' [pid]) = 0))))"
  proof (intro impI)
  assume a: "bgCount w \<le> length (bgProcesses w)"
  from checkBackgroundProcesses_effect [OF a] obtain w' where
    1: "checkBackgroundProcesses w = Returned w'"
    "bgProcesses w' = bgProcesses w" "bgCount w' = bgCount w"
    "\<forall>pid. count_list (new_events w (Returned w'))
                   (Printf ''background pid %d is done: '' [pid]) =
            (if 0 < pid \<and> pid \<in> set (take (bgCount w) (bgProcesses w)) \<and>
                is_zombie (children w pid) then 1 else 0)"
    and k: "\<forall>pid. children w' pid =
            (if pid \<in> set (take (bgCount w) (bgProcesses w)) \<and> is_zombie (children w pid)
             then None else children w pid)"
    by blast
  from a 1 have "bgCount w' \<le> length (bgProcesses w')" by simp
  from checkBackgroundProcesses_effect [OF this] 1(2,3) obtain w'' where
    2: "checkBackgroundProcesses w' = Returned w''"
    "bgProcesses w'' = bgProcesses w" "bgCount w'' = bgCount w"
    "\<forall>pid. count_list (new_events w' (Returned w''))
                   (Printf ''background pid %d is done: '' [pid]) =
            (if 0 < pid \<and> pid \<in> set (take (bgCount w) (bgProcesses w)) \<and>
                is_zombie (children w' pid) then 1 else 0)"
    by auto
  have "\<And>pid. pid \<in> set (take (bgCount w) (bgProcesses w)) \<Longrightarrow> \<not> is_zombie (children w' pid)"
    using k by (auto simp: is_zombie_def)
  with 2(4) have "\<forall>pid. count_list (new_events w' (Returned w''))
                      (Printf ''background pid %d is done: '' [pid]) = 0"
    by auto
  with 1 k 2 show "\<exists>w'. checkBackgroundProcesses w = Returned w' \<and>
         bgProcesses w' = bgProcesses w \<and> bgCount w' = bgCount w \<and>
         (\<forall>pid. count_list (new_events w (Returned w'))
                   (Printf ''background pid %d is done: '' [pid]) =
            (if 0 < pid \<and> pid \<in> set (take (bgCount w) (bgProcesses w)) \<and>
                is_zombie (children w pid) then 1 else 0)) \<and>
         (\<forall>pid. children w' pid =
            (if pid \<in> set (take (bgCount w) (bgProcesses w)) \<and> is_zombie (children w pid)
             then None else children w pid)) \<and>
         (\<exists>w''. checkBackgroundProcesses w' = Returned w'' \<and>
            bgProcesses w'' = bgProcesses w \<and> bgCount w'' = bgCount w \<and>
            (\<forall>pid. count_list (new_events w' (Returned w''))
                      (Printf ''background pid %d is done: '' [pid]) = 0))"
    by blast  qed
  have B: "(0 < fork_ret e \<and> background c \<and> \<not> foregroundOnly w \<and>
    bgCount w < length (bgProcesses w) \<and>
    distinct (take (bgCount w) (bgProcesses w)) \<and>
    fork_ret e \<notin> set (take (bgCount w) (bgProcesses w)) \<longrightarrow>
      (\<exists>w'. executeCommand e c w = Returned w' \<and>
         distinct (take (bgCount w') (bgProcesses w'))))"
  proof (intro impI)
  assume a: "0 < fork_ret e \<and> background c \<and> \<not> foregroundOnly w \<and>
    bgCount w < length (bgProcesses w) \<and>
    distinct (take (bgCount w) (bgProcesses w)) \<and>
    fork_ret e \<notin> set (take (bgCount w) (bgProcesses w))"
  then have "take (Suc (bgCount w)) ((bgProcesses w)[bgCount w := fork_ret e]) =
      take (bgCount w) (bgProcesses w) @ [fork_ret e]"
    by (simp add: take_Suc_conv_app_nth)
  with a show "\<exists>w'. executeCommand e c w = Returned w' \<and>
         distinct (take (bgCount w') (bgProcesses w'))"
    by (simp add: executeCommand_background)
  qed
  have C: "main_iteration e w = Returned v \<longrightarrow>
      polled (new_events w (Returned v)) = take (bgCount w) (bgProcesses w)"
    by (simp add: turn_polls_table)
  have D: "run ss w = Returned v \<longrightarrow>
      bgCount w \<le> bgCount v \<and>
      take (bgCount w) (bgProcesses v) = take (bgCount w) (bgProcesses w)"
    using run_keeps_table [of ss w v] by blast
  have E: "bgCount w \<le> length (bgProcesses w) \<and> run ss w = Returned v \<longrightarrow>
      count_list (new_events w (Returned v)) (Printf ''background pid %d is done: '' [pid]) +
          (if children v pid = None then 0 else 1) \<le>
        (if children w pid = None then 0 else 1) +
          count_list (new_events w (Returned v)) (Fork pid)"
    using run_reports [of ss w v pid] by blast
  have F: "bgCount w \<le> length (bgProcesses w) \<longrightarrow>
      count_list (new_events w (main_iteration e w))
          (Printf ''background pid %d is done: '' [pid]) \<le>
        (if children w pid = None then 0 else 1)"
    using turn_reports_any [of w e pid] by blast
  have G: "bgCount w \<le> length (bgProcesses w) \<and> main_iteration e w = Returned v \<and>
    Printf ''background pid %d is done: '' [pid] \<in> set (new_events w (Returned v)) \<and>
    Fork pid \<notin> set (new_events w (Returned v)) \<and>
    run ss v = Returned u \<and> Fork pid \<notin> set (new_events v (Returned u)) \<longrightarrow>
      children v pid = None \<and>
      Printf ''background pid %d is done: '' [pid] \<notin> set (new_events v (Returned u)) \<and>
      children u pid = None \<and>
      pid \<in> set (take (bgCount u) (bgProcesses u)) \<and>
      Printf ''background pid %d is done: '' [pid] \<notin> set (new_events u (main_iteration e' u)) \<and>
      (main_iteration e' u = Returned t \<longrightarrow>
         pid \<in> set (polled (new_events u (Returned t))))"
  proof (intro impI)
    assume a: "bgCount w \<le> length (bgProcesses w) \<and> main_iteration e w = Returned v \<and>
      Printf ''background pid %d is done: '' [pid] \<in> set (new_events w (Returned v)) \<and>
      Fork pid \<notin> set (new_events w (Returned v)) \<and>
      run ss v = Returned u \<and> Fork pid \<notin> set (new_events v (Returned u))"
    then have h: "bgCount w \<le> length (bgProcesses w)" "main_iteration e w = Returned v"
      "Printf ''background pid %d is done: '' [pid] \<in> set (new_events w (Returned v))"
      "Fork pid \<notin> set (new_events w (Returned v))"
      "run ss v = Returned u" "Fork pid \<notin> set (new_events v (Returned u))"
      by simp_all
    note n = reported_never_again [OF h]
    from n(1) n(2) n(3) n(4) n(5) n(6)
    show "children v pid = None \<and>
      Printf ''background pid %d is done: '' [pid] \<notin> set (new_events v (Returned u)) \<and>
      children u pid = None \<and>
      pid \<in> set (take (bgCount u) (bgProcesses u)) \<and>
      Printf ''background pid %d is done: '' [pid] \<notin> set (new_events u (main_iteration e' u)) \<and>
      (main_iteration e' u = Returned t \<longrightarrow>
         pid \<in> set (polled (new_events u (Returned t))))"
      by blast
  qed
  from A B C D E F G show ?thesis by (intro conjI)
qed

theorem C2_reaped_handle_is_reported_once_and_kept_witness:
  "bgCount (init_world\<lparr>bgProcesses := 7 # replicate 49 0, bgCount := 1,
              children := [7 \<mapsto> Zombie (WExited 0)]\<rparr>)
     \<le> length (bgProcesses (init_world\<lparr>bgProcesses := 7 # replicate 49 0, bgCount := 1,
              children := [7 \<mapsto> Zombie (WExited 0)]\<rparr>)) \<and>
   (\<exists>w'. checkBackgroundProcesses
            (init_world\<lparr>bgProcesses := 7 # replicate 49 0, bgCount := 1,
               children := [7 \<mapsto> Zombie (WExited 0)]\<rparr>) = Returned w' \<and>
      bgProcesses w' = 7 # replicate 49 0 \<and> bgCount w' = 1 \<and>
      count_list (new_events
          (init_world\<lparr>bgProcesses := 7 # replicate 49 0, bgCount := 1,
             children := [7 \<mapsto> Zombie (WExited 0)]\<rparr>) (Returned w'))
        (Printf ''background pid %d is done: '' [7]) = 1 \<and>
      children w' 7 = None \<and>
      (\<exists>w''. checkBackgroundProcesses w' = Returned w'' \<and>
         count_list (new_events w' (Returned w''))
           (Printf ''background pid %d is done: '' [7]) = 0)) \<and>
   (\<exists>w'. executeCommand (quiet_env\<lparr>fork_ret := 9\<rparr>)
            (empty_cmd\<lparr>args := [''ls''], background := True\<rparr>)
            (init_world\<lparr>bgProcesses := 7 # replicate 49 0, bgCount := 1,
               children := [7 \<mapsto> Zombie (WExited 0)]\<rparr>) = Returned w' \<and>
      distinct (take (bgCount w') (bgProcesses w'))) \<and>
   (\<exists>w v u t x.
      run [Turn (quiet_env\<lparr>fgets_ret := Some ''sleep 5 &\<newline>'', fork_ret := 7\<rparr>),
           ChildDies 7 (WExited 0)] init_world = Returned w \<and>
      bgCount w \<le> length (bgProcesses w) \<and>
      take (bgCount w) (bgProcesses w) = [7] \<and>
      main_iteration (quiet_env\<lparr>fgets_ret := Some ''\<newline>''\<rparr>) w = Returned v \<and>
      Printf ''background pid %d is done: '' [7] \<in> set (new_events w (Returned v)) \<and>
      Fork 7 \<notin> set (new_events w (Returned v)) \<and>
      polled (new_events w (Returned v)) = [7] \<and>
      run [Tstp,
           Turn (quiet_env\<lparr>fgets_ret := Some ''\<newline>''\<rparr>),
           Tstp,
           Turn (quiet_env\<lparr>fgets_ret := Some ''sleep 6 &\<newline>'', fork_ret := 9\<rparr>),
           ChildDies 9 (WSignaled 15),
           Turn (quiet_env\<lparr>fgets_ret := Some ''ls\<newline>'', fork_ret := 11\<rparr>),
           Turn (quiet_env\<lparr>fgets_ret := Some ''status\<newline>''\<rparr>)] v = Returned u \<and>
      Fork 7 \<notin> set (new_events v (Returned u)) \<and>
      children v 7 = None \<and>
      Printf ''background pid %d is done: '' [7] \<notin> set (new_events v (Returned u)) \<and>
      children u 7 = None \<and>
      7 \<in> set (take (bgCount u) (bgProcesses u)) \<and>
      bgCount v \<le> bgCount u \<and>
      take (bgCount v) (bgProcesses u) = take (bgCount v) (bgProcesses v) \<and>
      count_list (new_events v (Returned u)) (Printf ''background pid %d is done: '' [9]) +
          (if children u 9 = None then 0 else 1) \<le>
        (if children v 9 = None then 0 else 1) + count_list (new_events v (Returned u)) (Fork 9) \<and>
      main_iteration (quiet_env\<lparr>fgets_ret := Some ''exit\<newline>''\<rparr>) u = Exited 0 x \<and>
      Printf ''background pid %d is done: '' [7] \<notin>
        set (new_events u (main_iteration (quiet_env\<lparr>fgets_ret := Some ''exit\<newline>''\<rparr>) u)) \<and>
      count_list (new_events u (main_iteration (quiet_env\<lparr>fgets_ret := Some ''exit\<newline>''\<rparr>) u))
          (Printf ''background pid %d is done: '' [7]) \<le> (if children u 7 = None then 0 else 1) \<and>
      main_iteration (quiet_env\<lparr>fgets_ret := Some ''\<newline>''\<rparr>) u = Returned t \<and>
      7 \<in> set (polled (new_events u (Returned t))))"
proof -
  let ?w = "init_world\<lparr>bgProcesses := 7 # replicate 49 0, bgCount := 1,
              children := [7 \<mapsto> Zombie (WExited 0)]\<rparr>"
  let ?e = "quiet_env\<lparr>fork_ret := 9\<rparr>"
  let ?c = "empty_cmd\<lparr>args := [''ls''], background := True\<rparr>"
  let ?s1 = "[Turn (quiet_env\<lparr>fgets_ret := Some ''sleep 5 &\<newline>'', fork_ret := 7\<rparr>),
           ChildDies 7 (WExited 0)]"
  let ?blank = "quiet_env\<lparr>fgets_ret := Some ''\<newline>''\<rparr>"
  let ?bye = "quiet_env\<lparr>fgets_ret := Some ''exit\<newline>''\<rparr>"
  let ?s2 = "[Tstp,
           Turn (quiet_env\<lparr>fgets_ret := Some ''\<newline>''\<rparr>),
           Tstp,
           Turn (quiet_env\<lparr>fgets_ret := Some ''sleep 6 &\<newline>'', fork_ret := 9\<rparr>),
           ChildDies 9 (WSignaled 15),
           Turn (quiet_env\<lparr>fgets_ret := Some ''ls\<newline>'', fork_ret := 11\<rparr>),
           Turn (quiet_env\<lparr>fgets_ret := Some ''status\<newline>''\<rparr>)]"
  note inst = C2_reaped_handle_is_reported_once_and_kept [where w = ?w and e = ?e and c = ?c]
  have f: "bgCount ?w = 1" "bgProcesses ?w = 7 # replicate 49 0"
    "take (bgCount ?w) (bgProcesses ?w) = [7]" "is_zombie (children ?w 7)"
    by (simp_all add: is_zombie_def)
  have h1: "bgCount ?w \<le> length (bgProcesses ?w)" by simp
  have h2: "0 < fork_ret ?e \<and> background ?c \<and> \<not> foregroundOnly ?w \<and>
    bgCount ?w < length (bgProcesses ?w) \<and> distinct (take (bgCount ?w) (bgProcesses ?w)) \<and>
    fork_ret ?e \<notin> set (take (bgCount ?w) (bgProcesses ?w))"
    by (simp add: quiet_env_def empty_cmd_def init_world_def)
  from inst [THEN conjunct1] h1 obtain w' w'' where
    1: "checkBackgroundProcesses ?w = Returned w'"
      "bgProcesses w' = bgProcesses ?w" "bgCount w' = bgCount ?w"
    and c: "\<forall>pid. count_list (new_events ?w (Returned w'))
                   (Printf ''background pid %d is done: '' [pid]) =
            (if 0 < pid \<and> pid \<in> set (take (bgCount ?w) (bgProcesses ?w)) \<and>
                is_zombie (children ?w pid) then 1 else 0)"
    and k: "\<forall>pid. children w' pid =
            (if pid \<in> set (take (bgCount ?w) (bgProcesses ?w)) \<and> is_zombie (children ?w pid)
             then None else children ?w pid)"
    and 2: "checkBackgroundProcesses w' = Returned w''"
      "\<forall>pid. count_list (new_events w' (Returned w''))
                      (Printf ''background pid %d is done: '' [pid]) = 0"
    by blast
  from c [rule_format, of 7] f have c7: "count_list (new_events ?w (Returned w'))
        (Printf ''background pid %d is done: '' [7]) = 1"
    by simp
  from k [rule_format, of 7] f have k7: "children w' 7 = None" by simp
  from inst [THEN conjunct2, THEN conjunct1] h2
  have 3: "\<exists>w'. executeCommand ?e ?c ?w = Returned w' \<and>
         distinct (take (bgCount w') (bgProcesses w'))"
    by blast
  from h1 1 f c7 k7 2 3 have old:
    "bgCount ?w \<le> length (bgProcesses ?w) \<and>
     (\<exists>w'. checkBackgroundProcesses ?w = Returned w' \<and>
      bgProcesses w' = 7 # replicate 49 0 \<and> bgCount w' = 1 \<and>
      count_list (new_events ?w (Returned w')) (Printf ''background pid %d is done: '' [7]) = 1 \<and>
      children w' 7 = None \<and>
      (\<exists>w''. checkBackgroundProcesses w' = Returned w'' \<and>
         count_list (new_events w' (Returned w''))
           (Printf ''background pid %d is done: '' [7]) = 0)) \<and>
     (\<exists>w'. executeCommand ?e ?c ?w = Returned w' \<and>
      distinct (take (bgCount w') (bgProcesses w')))"
    by auto
  have "case run ?s1 init_world of
      Returned w \<Rightarrow>
        bgCount w \<le> length (bgProcesses w) \<and> take (bgCount w) (bgProcesses w) = [7] \<and>
        (case main_iteration ?blank w of
           Returned v \<Rightarrow>
             Printf ''background pid %d is done: '' [7] \<in> set (new_events w (Returned v)) \<and>
             Fork 7 \<notin> set (new_events w (Returned v)) \<and>
             (case run ?s2 v of
                Returned u \<Rightarrow>
                  Fork 7 \<notin> set (new_events v (Returned u)) \<and>
                  bgCount v \<le> length (bgProcesses v) \<and>
                  bgCount u \<le> length (bgProcesses u) \<and>
                  (case main_iteration ?bye u of Exited n x \<Rightarrow> n = 0 | _ \<Rightarrow> False) \<and>
                  (case main_iteration ?blank u of Returned t \<Rightarrow> True | _ \<Rightarrow> False)
              | _ \<Rightarrow> False)
         | _ \<Rightarrow> False)
    | _ \<Rightarrow> False"
    by code_simp
  then obtain w v u t x where s:
    "run ?s1 init_world = Returned w"
    "bgCount w \<le> length (bgProcesses w)" "take (bgCount w) (bgProcesses w) = [7]"
    "main_iteration ?blank w = Returned v"
    "Printf ''background pid %d is done: '' [7] \<in> set (new_events w (Returned v))"
    "Fork 7 \<notin> set (new_events w (Returned v))"
    "run ?s2 v = Returned u"
    "Fork 7 \<notin> set (new_events v (Returned u))"
    "main_iteration ?bye u = Exited 0 x"
    "main_iteration ?blank u = Returned t"
    "bgCount v \<le> length (bgProcesses v)" "bgCount u \<le> length (bgProcesses u)"
    by (auto split: outcome.splits)
  note i1 = C2_reaped_handle_is_reported_once_and_kept
    [where w = w and e = ?blank and v = v and pid = 7 and ss = ?s2 and u = u and e' = ?bye]
  note i2 = C2_reaped_handle_is_reported_once_and_kept
    [where w = w and e = ?blank and v = v and pid = 7 and ss = ?s2 and u = u and e' = ?blank
       and t = t]
  note i3 = C2_reaped_handle_is_reported_once_and_kept
    [where w = v and ss = ?s2 and v = u and pid = 9]
  note i4 = C2_reaped_handle_is_reported_once_and_kept
    [where w = u and e = ?bye and pid = 7]
  from i1 [THEN conjunct2, THEN conjunct2, THEN conjunct1] s(4) s(3)
  have p: "polled (new_events w (Returned v)) = [7]" by simp
  from i1 [THEN conjunct2, THEN conjunct2, THEN conjunct2, THEN conjunct2, THEN conjunct2,
      THEN conjunct2] s
  have g1: "children v 7 = None"
    "Printf ''background pid %d is done: '' [7] \<notin> set (new_events v (Returned u))"
    "children u 7 = None" "7 \<in> set (take (bgCount u) (bgProcesses u))"
    "Printf ''background pid %d is done: '' [7] \<notin> set (new_events u (main_iteration ?bye u))"
    by blast+
  from i2 [THEN conjunct2, THEN conjunct2, THEN conjunct2, THEN conjunct2, THEN conjunct2,
      THEN conjunct2] s
  have g2: "7 \<in> set (polled (new_events u (Returned t)))"
    by blast
  from i3 [THEN conjunct2, THEN conjunct2, THEN conjunct2, THEN conjunct1] s(7)
  have g3: "bgCount v \<le> bgCount u"
    "take (bgCount v) (bgProcesses u) = take (bgCount v) (bgProcesses v)"
    by blast+
  from i3 [THEN conjunct2, THEN conjunct2, THEN conjunct2, THEN conjunct2, THEN conjunct1]
    s(7) s(11)
  have g4: "count_list (new_events v (Returned u)) (Printf ''background pid %d is done: '' [9]) +
          (if children u 9 = None then 0 else 1) \<le>
        (if children v 9 = None then 0 else 1) + count_list (new_events v (Returned u)) (Fork 9)"
    by blast
  from i4 [THEN conjunct2, THEN conjunct2, THEN conjunct2, THEN conjunct2, THEN conjunct2,
      THEN conjunct1] s(12)
  have g5: "count_list (new_events u (main_iteration ?bye u))
          (Printf ''background pid %d is done: '' [7]) \<le> (if children u 7 = None then 0 else 1)"
    by blast
  from s p g1 g2 g3 g4 g5 have new:
    "\<exists>w v u t x.
      run ?s1 init_world = Returned w \<and>
      bgCount w \<le> length (bgProcesses w) \<and>
      take (bgCount w) (bgProcesses w) = [7] \<and>
      main_iteration ?blank w = Returned v \<and>
      Printf ''background pid %d is done: '' [7] \<in> set (new_events w (Returned v)) \<and>
      Fork 7 \<notin> set (new_events w (Returned v)) \<and>
      polled (new_events w (Returned v)) = [7] \<and>
      run ?s2 v = Returned u \<and>
      Fork 7 \<notin> set (new_events v (Returned u)) \<and>
      children v 7 = None \<and>
      Printf ''background pid %d is done: '' [7] \<notin> set (new_events v (Returned u)) \<and>
      children u 7 = None \<and>
      7 \<in> set (take (bgCount u) (bgProcesses u)) \<and>
      bgCount v \<le> bgCount u \<and>
      take (bgCount v) (bgProcesses u) = take (bgCount v) (bgProcesses v) \<and>
      count_list (new_events v (Returned u)) (Printf ''background pid %d is done: '' [9]) +
          (if children u 9 = None then 0 else 1) \<le>
        (if children v 9 = None then 0 else 1) + count_list (new_events v (Returned u)) (Fork 9) \<and>
      main_iteration ?bye u = Exited 0 x \<and>
      Printf ''background pid %d is done: '' [7] \<notin>
        set (new_events u (main_iteration ?bye u)) \<and>
      count_list (new_events u (main_iteration ?bye u))
          (Printf ''background pid %d is done: '' [7]) \<le> (if children u 7 = None then 0 else 1) \<and>
      main_iteration ?blank u = Returned t \<and>
      7 \<in> set (polled (new_events u (Returned t)))"
    by (intro exI [of _ w] exI [of _ v] exI [of _ u] exI [of _ t] exI [of _ x] conjI)
  show ?thesis
    using old new
    apply -
    apply (elim conjE)
    apply (intro conjI)
       apply assumption+
    done
qed

section \<open>The background marker\<close>

lemma parse_tokens_Nil [simp]: "parse_tokens [] c = Inr c"
  by (simp add: parse_tokens_def strtok_def parse_loop.simps)

lemma parse_tokens_Cons:
  "parse_tokens (t # r) c =
     (if t = ''<'' then
        parse_tokens (tl r) (c\<lparr>inputFile := (case r of [] \<Rightarrow> None | x # _ \<Rightarrow> Some x)\<rparr>)
      else if t = ''>'' then
        parse_tokens (tl r) (c\<lparr>outputFile := (case r of [] \<Rightarrow> None | x # _ \<Rightarrow> Some x)\<rparr>)
      else if t = ''&'' \<and> r = [] then Inr (c\<lparr>background := True\<rparr>)
      else if length (args c) < MAX_ARGS then
        parse_tokens (if t = ''&'' then tl r else r) (c\<lparr>args := args c @ [t]\<rparr>)
      else Inl OutOfBounds)"
  by (cases r) (simp_all add: parse_tokens_def strtok_def parse_loop.simps Let_def)

lemma parse_line_tokens:
  "parse_line input =
     (case parse_tokens (tokens input) empty_cmd of
        Inl f \<Rightarrow> Inl f
      | Inr c \<Rightarrow> if length (args c) < MAX_ARGS then Inr c else Inl OutOfBounds)"
  by (simp add: parse_line_def parse_tokens_def split: prod.splits)

lemma parse_tokens_background:
  "parse_tokens ts c = Inr c' \<Longrightarrow>
     (background c' \<longleftrightarrow>
        background c \<or> (ts \<noteq> [] \<and> last ts = ''&'' \<and> scan_ends (butlast ts)))"
proof (induction ts arbitrary: c rule: scan_ends.induct)
  case 1
  then show ?case by simp
next
  case (2 t ts)
  show ?case
  proof (cases "t = ''<'' \<or> t = ''>'' \<or> t = ''&''")
    case False
    with "2.prems" have room: "length (args c) < MAX_ARGS"
      and p: "parse_tokens ts (c\<lparr>args := args c @ [t]\<rparr>) = Inr c'"
      by (auto simp: parse_tokens_Cons split: if_splits)
    from "2.IH"(2) [OF False p] False show ?thesis
      by (cases "ts = []") auto
  next
    case op: True
    show ?thesis
    proof (cases ts)
      case Nil
      with op "2.prems" show ?thesis
        by (auto simp: parse_tokens_Cons split: if_splits)
    next
      case (Cons x r)
      from op Cons "2.prems" obtain c1 where
        p: "parse_tokens r c1 = Inr c'" and b: "background c1 = background c"
        by (auto simp: parse_tokens_Cons split: if_splits)
      from "2.IH"(1) [OF op Cons p] b op Cons show ?thesis
        by (cases "r = []") auto
    qed
  qed
qed


lemma parse_tokens_append:
  "scan_ends pre \<Longrightarrow>
   parse_tokens (pre @ suf) c =
     (case parse_tokens pre c of Inl f \<Rightarrow> Inl f | Inr c1 \<Rightarrow> parse_tokens suf c1)"
proof (induction pre arbitrary: c rule: scan_ends.induct)
  case 1
  then show ?case by simp
next
  case (2 t ts)
  show ?case
  proof (cases "t = ''<'' \<or> t = ''>'' \<or> t = ''&''")
    case False
    with "2.prems" have "scan_ends ts" by simp
    from "2.IH"(2) [OF False this] False show ?thesis
      by (simp add: parse_tokens_Cons)
  next
    case op: True
    show ?thesis
    proof (cases ts)
      case Nil
      with op "2.prems" show ?thesis by simp
    next
      case (Cons x r)
      with op "2.prems" have "scan_ends r" by simp
      from "2.IH"(1) [OF op Cons this] op Cons show ?thesis
        by (auto simp: parse_tokens_Cons)
    qed
  qed
qed

lemma parse_tokens_total:
  "length (args c) + length ts \<le> MAX_ARGS \<Longrightarrow>
   \<exists>c'. parse_tokens ts c = Inr c' \<and> length (args c') \<le> length (args c) + length ts"
proof (induction ts arbitrary: c rule: scan_ends.induct)
  case 1
  then show ?case by simp
next
  case (2 t ts)
  show ?case
  proof (cases "t = ''<'' \<or> t = ''>''")
    case True
    show ?thesis
    proof (cases ts)
      case Nil
      with True show ?thesis by (auto simp: parse_tokens_Cons)
    next
      case (Cons x r)
      from True have op: "t = ''<'' \<or> t = ''>'' \<or> t = ''&''" by blast
      have a: "\<exists>c'. parse_tokens r c1 = Inr c' \<and> length (args c') \<le> length (args c1) + length r"
        if "length (args c1) = length (args c)" for c1
      proof -
        from that "2.prems" Cons have "length (args c1) + length r \<le> MAX_ARGS" by simp
        from "2.IH"(1) [OF op Cons this] show ?thesis .
      qed
      from True Cons a [of "c\<lparr>inputFile := Some x\<rparr>"] a [of "c\<lparr>outputFile := Some x\<rparr>"]
      show ?thesis
        by (auto simp: parse_tokens_Cons)
    qed
  next
    case False
    from "2.prems" have room: "length (args c) < MAX_ARGS" by simp
    show ?thesis
    proof (cases "t = ''&''")
      case amp: True
      show ?thesis
      proof (cases ts)
        case Nil
        with amp show ?thesis by (simp add: parse_tokens_Cons)
      next
        case (Cons x r)
        from amp have op: "t = ''<'' \<or> t = ''>'' \<or> t = ''&''" by blast
        from "2.prems" Cons
        have "\<exists>c'. parse_tokens r (c\<lparr>args := args c @ [t]\<rparr>) = Inr c' \<and>
            length (args c') \<le> length (args (c\<lparr>args := args c @ [t]\<rparr>)) + length r"
          using "2.IH"(1) [OF op Cons, of "c\<lparr>args := args c @ [t]\<rparr>"] by simp
        with amp Cons room show ?thesis
          by (auto simp: parse_tokens_Cons)
      qed
    next
      case other: False
      with False have nop: "\<not> (t = ''<'' \<or> t = ''>'' \<or> t = ''&'')" by blast
      from "2.prems"
      have "\<exists>c'. parse_tokens ts (c\<lparr>args := args c @ [t]\<rparr>) = Inr c' \<and>
          length (args c') \<le> length (args (c\<lparr>args := args c @ [t]\<rparr>)) + length ts"
        using "2.IH"(2) [OF nop, of "c\<lparr>args := args c @ [t]\<rparr>"] by simp
      with nop room show ?thesis
        by (auto simp: parse_tokens_Cons)
    qed
  qed
qed

lemma parse_line_total:
  assumes "length (tokens input) < MAX_ARGS"
  shows "\<exists>c. parse_line input = Inr c"
proof -
  from assms have "length (args empty_cmd) + length (tokens input) \<le> MAX_ARGS"
    by (simp add: empty_cmd_def)
  from parse_tokens_total [OF this] assms show ?thesis
    by (auto simp: parse_line_tokens empty_cmd_def)
qed

lemma parse_tokens_plain:
  "\<forall>t \<in> set ts. t \<noteq> ''<'' \<and> t \<noteq> ''>'' \<and> t \<noteq> ''&'' \<Longrightarrow>
   length (args c) + length ts \<le> MAX_ARGS \<Longrightarrow>
   parse_tokens ts c = Inr (c\<lparr>args := args c @ ts\<rparr>) \<and> scan_ends ts"
proof (induction ts arbitrary: c)
  case Nil
  then show ?case by simp
next
  case (Cons t ts)
  from Cons.prems have "length (args (c\<lparr>args := args c @ [t]\<rparr>)) + length ts \<le> MAX_ARGS"
    by simp
  with Cons.IH [of "c\<lparr>args := args c @ [t]\<rparr>"] Cons.prems show ?case
    by (simp add: parse_tokens_Cons)
qed


lemma parse_tokens_ampersand_inside:
  assumes "scan_ends pre"
  shows "parse_tokens (pre @ ''&'' # x # rest) c0 =
     (case parse_tokens pre c0 of
        Inl f \<Rightarrow> Inl f
      | Inr c1 \<Rightarrow>
          if length (args c1) < MAX_ARGS then parse_tokens rest (c1\<lparr>args := args c1 @ [''&'']\<rparr>)
          else Inl OutOfBounds)"
  by (simp add: parse_tokens_append [OF assms] parse_tokens_Cons split: sum.splits)

text \<open>
  Claim C10, against the code.  In \<^verbatim>\<open>cat < &\<close> the last token is a standalone \<^verbatim>\<open>&\<close>,
  but \<^verbatim>\<open><\<close> has taken it as the input path and the flag stays 0.  In
  \<^verbatim>\<open>sleep 5 & &\<close> the last token is a standalone \<^verbatim>\<open>&\<close>, but the test on the first
  \<^verbatim>\<open>&\<close> has consumed it and the flag stays 0.  In \<^verbatim>\<open>a & & b\<close> the second \<^verbatim>\<open>&\<close> is
  not last, yet it is not kept as an argument and the token after it is.
\<close>

theorem C10_final_ampersand_not_always_background:
  "parse_line ''cat < &\<newline>'' =
     Inr \<lparr>args = [''cat''], background = False, inputFile = Some ''&'', outputFile = None\<rparr> \<and>
   last (tokens ''cat < &\<newline>'') = ''&'' \<and>
   parse_line ''sleep 5 & &\<newline>'' =
     Inr \<lparr>args = [''sleep'', ''5'', ''&''], background = False, inputFile = None,
          outputFile = None\<rparr> \<and>
   last (tokens ''sleep 5 & &\<newline>'') = ''&'' \<and>
   tokens ''a & & b\<newline>'' = [''a'', ''&'', ''&'', ''b''] \<and>
   parse_line ''a & & b\<newline>'' =
     Inr \<lparr>args = [''a'', ''&'', ''b''], background = False, inputFile = None, outputFile = None\<rparr>"
  by code_simp

text \<open>
  Claim C10, as amended.  A line of fewer than \<open>MAX_ARGS\<close> tokens is parsed.  The
  flag is set exactly when the last token is a standalone \<^verbatim>\<open>&\<close> that the scan
  meets, that is, the scan over the tokens before it ends exactly in front of it.
  When the scan meets a standalone \<^verbatim>\<open>&\<close> that is not the last token, the \<^verbatim>\<open>&\<close> is
  stored as an argument (if \<^verbatim>\<open>args\<close> has room) and the loop goes on behind the token
  that follows it, whatever that token is.  In particular, when no other token is
  \<^verbatim>\<open><\<close>, \<^verbatim>\<open>>\<close> or \<^verbatim>\<open>&\<close>, the arguments are the tokens of the line without the one
  after the \<^verbatim>\<open>&\<close>.
\<close>

theorem C10_background_flag_and_swallowed_token:
  "(length (tokens input) < MAX_ARGS \<longrightarrow> (\<exists>c. parse_line input = Inr c)) \<and>
   (parse_line input = Inr c \<longrightarrow>
      (background c \<longleftrightarrow>
         tokens input \<noteq> [] \<and> last (tokens input) = ''&'' \<and> scan_ends (butlast (tokens input)))) \<and>
   (scan_ends pre \<longrightarrow>
      parse_tokens (pre @ ''&'' # x # rest) c0 =
        (case parse_tokens pre c0 of
           Inl f \<Rightarrow> Inl f
         | Inr c1 \<Rightarrow>
             if length (args c1) < MAX_ARGS
             then parse_tokens rest (c1\<lparr>args := args c1 @ [''&'']\<rparr>)
             else Inl OutOfBounds)) \<and>
   (tokens input = pre @ ''&'' # x # rest \<and>
    (\<forall>t \<in> set (pre @ rest). t \<noteq> ''<'' \<and> t \<noteq> ''>'' \<and> t \<noteq> ''&'') \<and>
    length pre + length rest + 1 < MAX_ARGS \<longrightarrow>
      parse_line input =
        Inr \<lparr>args = pre @ ''&'' # rest, background = False, inputFile = None, outputFile = None\<rparr>)"
proof (intro conjI impI)
  assume "length (tokens input) < MAX_ARGS"
  then show "\<exists>c. parse_line input = Inr c" by (rule parse_line_total)
next
  assume "parse_line input = Inr c"
  then have "parse_tokens (tokens input) empty_cmd = Inr c"
    by (auto simp: parse_line_tokens split: sum.splits if_splits)
  from parse_tokens_background [OF this]
  show "background c \<longleftrightarrow>
      tokens input \<noteq> [] \<and> last (tokens input) = ''&'' \<and> scan_ends (butlast (tokens input))"
    by (simp add: empty_cmd_def)
next
  assume "scan_ends pre"
  then show "parse_tokens (pre @ ''&'' # x # rest) c0 =
        (case parse_tokens pre c0 of
           Inl f \<Rightarrow> Inl f
         | Inr c1 \<Rightarrow>
             if length (args c1) < MAX_ARGS
             then parse_tokens rest (c1\<lparr>args := args c1 @ [''&'']\<rparr>)
             else Inl OutOfBounds)"
    by (rule parse_tokens_ampersand_inside)
next
  assume a: "tokens input = pre @ ''&'' # x # rest \<and>
    (\<forall>t \<in> set (pre @ rest). t \<noteq> ''<'' \<and> t \<noteq> ''>'' \<and> t \<noteq> ''&'') \<and>
    length pre + length rest + 1 < MAX_ARGS"
  then have 1: "parse_tokens pre empty_cmd = Inr (empty_cmd\<lparr>args := pre\<rparr>)" "scan_ends pre"
    using parse_tokens_plain [of pre empty_cmd] by (auto simp: empty_cmd_def)
  from a have 2: "parse_tokens rest (empty_cmd\<lparr>args := pre @ [''&'']\<rparr>) =
      Inr (empty_cmd\<lparr>args := pre @ ''&'' # rest\<rparr>)"
    using parse_tokens_plain [of rest "empty_cmd\<lparr>args := pre @ [''&'']\<rparr>"] by auto
  from a 1 2 have "parse_tokens (tokens input) empty_cmd = Inr (empty_cmd\<lparr>args := pre @ ''&'' # rest\<rparr>)"
    by (simp add: parse_tokens_ampersand_inside)
  with a show "parse_line input =
      Inr \<lparr>args = pre @ ''&'' # rest, background = False, inputFile = None, outputFile = None\<rparr>"
    by (simp add: parse_line_tokens empty_cmd_def)
qed

theorem C10_background_flag_and_swallowed_token_witness:
  "length (tokens ''sleep 5 &\<newline>'') < MAX_ARGS \<and>
   (\<exists>c. parse_line ''sleep 5 &\<newline>'' = Inr c \<and> background c \<and>
      last (tokens ''sleep 5 &\<newline>'') = ''&'' \<and> scan_ends (butlast (tokens ''sleep 5 &\<newline>''))) \<and>
   scan_ends [''echo'', ''a''] \<and>
   parse_tokens ([''echo'', ''a''] @ ''&'' # ''b'' # [''c'']) empty_cmd =
     Inr (empty_cmd\<lparr>args := [''echo'', ''a'', ''&'', ''c'']\<rparr>) \<and>
   tokens ''echo a & b c\<newline>'' = [''echo'', ''a''] @ ''&'' # ''b'' # [''c''] \<and>
   parse_line ''echo a & b c\<newline>'' =
     Inr \<lparr>args = [''echo'', ''a''] @ ''&'' # [''c''], background = False, inputFile = None,
          outputFile = None\<rparr>"
proof -
  have t1: "tokens ''sleep 5 &\<newline>'' = [''sleep'', ''5'', ''&'']" by code_simp
  have t2: "tokens ''echo a & b c\<newline>'' = [''echo'', ''a''] @ ''&'' # ''b'' # [''c'']" by code_simp
  have l1: "length (tokens ''sleep 5 &\<newline>'') < MAX_ARGS" by (simp add: t1 MAX_ARGS_def)
  from C10_background_flag_and_swallowed_token [of "''sleep 5 &\<newline>''"] l1
  obtain c where c: "parse_line ''sleep 5 &\<newline>'' = Inr c" by blast
  from C10_background_flag_and_swallowed_token [of "''sleep 5 &\<newline>''" c] c
  have b: "background c \<and> last (tokens ''sleep 5 &\<newline>'') = ''&'' \<and>
      scan_ends (butlast (tokens ''sleep 5 &\<newline>''))"
    by (simp add: t1)
  have s: "scan_ends [''echo'', ''a'']" by simp
  have p: "parse_tokens [''echo'', ''a''] empty_cmd = Inr (empty_cmd\<lparr>args := [''echo'', ''a'']\<rparr>)"
    by (simp add: parse_tokens_Cons empty_cmd_def MAX_ARGS_def)
  from C10_background_flag_and_swallowed_token [of _ _ "[''echo'', ''a'']" "''b''" "[''c'']" empty_cmd] s p
  have m: "parse_tokens ([''echo'', ''a''] @ ''&'' # ''b'' # [''c'']) empty_cmd =
     Inr (empty_cmd\<lparr>args := [''echo'', ''a'', ''&'', ''c'']\<rparr>)"
    by (simp add: parse_tokens_Cons empty_cmd_def MAX_ARGS_def)
  from C10_background_flag_and_swallowed_token
    [of "''echo a & b c\<newline>''" _ "[''echo'', ''a'']" "''b''" "[''c'']"] t2
  have f: "parse_line ''echo a & b c\<newline>'' =
     Inr \<lparr>args = [''echo'', ''a''] @ ''&'' # [''c''], background = False, inputFile = None,
          outputFile = None\<rparr>"
    by (simp add: MAX_ARGS_def)
  from l1 c b s m t2 f show ?thesis by blast
qed

end
